(* ===== verification/Kafka_Prelude.thy ===== *)
theory Kafka_Prelude
  imports Main "HOL-Library.AList" "HOL-Library.List_Lexorder" "HOL-Library.Char_ord"
begin

text \<open>
  Shared vocabulary of the development: the part of Python's language and standard library
  that the charm's source uses (string methods, \<^verbatim>\<open>int()\<close> and \<^verbatim>\<open>str()\<close>, dictionaries with
  insertion order, exceptions), a state-and-exception type for code with effects, and the
  generic lemmas the components rely on.

  Strings are lists of characters. Every string the charm builds or parses is ASCII, where
  a Python code point and an Isabelle \<^typ>\<open>char\<close> coincide.
\<close>

named_theorems py_simps \<open>rewrite rules for the modelled Python library\<close>
named_theorems prog_simps \<open>rewrite rules for programs with state and exceptions\<close>
named_theorems keeps_intros \<open>rules for invariants of programs\<close>


section \<open>Exceptions\<close>

text \<open>
  The exceptions the source raises or catches. \<open>CommandError\<close> stands for both
  \<^verbatim>\<open>subprocess.CalledProcessError\<close> and \<^verbatim>\<open>ops.pebble.ExecError\<close>, which the source always
  catches together, and carries the combined output. \<open>ApiError\<close> is lightkube's error.
\<close>

datatype exn =
    ValueError
  | KeyError
  | IndexError
  | TypeError
  | AttributeError
  | NotImplementedError
  | AssertionError
  | FileNotFoundError
  | CommandError string
  | ApiError int string
  | RebalanceError string
  | NoMatchingRuleError
  | PrecheckFailed
  | UpgradeError
  | PyException string


section \<open>Characters and strings\<close>

definition digit_char :: "nat \<Rightarrow> char" where
  "digit_char n = char_of (48 + n)"

definition is_digit :: "char \<Rightarrow> bool" where
  "is_digit c \<longleftrightarrow> (48::nat) \<le> of_char c \<and> of_char c \<le> (57::nat)"

definition digit_val :: "char \<Rightarrow> nat" where
  "digit_val c = of_char c - 48"

definition lower_char :: "char \<Rightarrow> char" where
  "lower_char c =
     (if (65::nat) \<le> of_char c \<and> of_char c \<le> (90::nat) then char_of (of_char c + 32 :: nat) else c)"

definition upper_char :: "char \<Rightarrow> char" where
  "upper_char c =
     (if (97::nat) \<le> of_char c \<and> of_char c \<le> (122::nat) then char_of (of_char c - 32 :: nat) else c)"

text \<open>ASCII whitespace as \<^verbatim>\<open>str.strip()\<close> and \<^verbatim>\<open>str.split()\<close> see it.\<close>

definition is_space :: "char \<Rightarrow> bool" where
  "is_space c \<longleftrightarrow> (of_char c :: nat) \<in> {9, 10, 11, 12, 13, 28, 29, 30, 31, 32}"

definition lower :: "string \<Rightarrow> string" where
  "lower = map lower_char"

definition upper :: "string \<Rightarrow> string" where
  "upper = map upper_char"

definition startswith :: "string \<Rightarrow> string \<Rightarrow> bool" where
  "startswith s p \<longleftrightarrow> take (length p) s = p"

definition endswith :: "string \<Rightarrow> string \<Rightarrow> bool" where
  "endswith s p \<longleftrightarrow> startswith (rev s) (rev p)"

text \<open>Python's \<^verbatim>\<open>sub in s\<close> on strings.\<close>

fun contains :: "string \<Rightarrow> string \<Rightarrow> bool" where
  "contains sub [] \<longleftrightarrow> sub = []"
| "contains sub (c # s) \<longleftrightarrow> startswith (c # s) sub \<or> contains sub s"

text \<open>\<^verbatim>\<open>s.split(c)\<close> for a separator of one character, and \<^verbatim>\<open>sep.join(xs)\<close>.\<close>

fun split_char :: "char \<Rightarrow> string \<Rightarrow> string list" where
  "split_char c [] = [[]]"
| "split_char c (x # xs) =
     (if x = c then [] # split_char c xs
      else (case split_char c xs of [] \<Rightarrow> [[x]] | y # ys \<Rightarrow> (x # y) # ys))"

fun join :: "string \<Rightarrow> string list \<Rightarrow> string" where
  "join sep [] = []"
| "join sep [x] = x"
| "join sep (x # y # xs) = x @ sep @ join sep (y # xs)"

lemma startswith_length: "startswith s p \<Longrightarrow> length p \<le> length s"
  unfolding startswith_def by (metis length_take min.cobounded1)

text \<open>\<^verbatim>\<open>s.split(sep)\<close> for a longer separator, and \<^verbatim>\<open>s.replace(old, new)\<close> for a non-empty \<^verbatim>\<open>old\<close>.\<close>

function split_str :: "string \<Rightarrow> string \<Rightarrow> string list" where
  "split_str sep s =
     (if sep \<noteq> [] \<and> startswith s sep then [] # split_str sep (drop (length sep) s)
      else (case s of
              [] \<Rightarrow> [[]]
            | c # s' \<Rightarrow> (case split_str sep s' of [] \<Rightarrow> [[c]] | y # ys \<Rightarrow> (c # y) # ys)))"
  by pat_completeness auto
termination
  by (relation "measure (\<lambda>(sep, s). length s)") (auto dest!: startswith_length simp flip: length_greater_0_conv)

declare split_str.simps [simp del]

definition replace :: "string \<Rightarrow> string \<Rightarrow> string \<Rightarrow> string" where
  "replace old new s = join new (split_str old s)"

text \<open>\<^verbatim>\<open>s.split(c, maxsplit=1)\<close>: one element when the separator does not occur.\<close>

definition split1 :: "char \<Rightarrow> string \<Rightarrow> string list" where
  "split1 c s =
     (case dropWhile (\<lambda>x. x \<noteq> c) s of
        [] \<Rightarrow> [s]
      | _ # rest \<Rightarrow> [takeWhile (\<lambda>x. x \<noteq> c) s, rest])"

definition lstrip_by :: "(char \<Rightarrow> bool) \<Rightarrow> string \<Rightarrow> string" where
  "lstrip_by P s = dropWhile P s"

definition rstrip_by :: "(char \<Rightarrow> bool) \<Rightarrow> string \<Rightarrow> string" where
  "rstrip_by P s = rev (dropWhile P (rev s))"

text \<open>\<^verbatim>\<open>s.strip()\<close> and \<^verbatim>\<open>s.rstrip(chars)\<close>; the argument of the latter is a set of characters.\<close>

definition strip :: "string \<Rightarrow> string" where
  "strip s = rstrip_by is_space (lstrip_by is_space s)"

definition rstrip :: "string \<Rightarrow> string \<Rightarrow> string" where
  "rstrip s chars = rstrip_by (\<lambda>c. c \<in> set chars) s"

text \<open>\<^verbatim>\<open>s.split()\<close>: the maximal runs of non-whitespace.\<close>

fun words_aux :: "string \<Rightarrow> string \<Rightarrow> string list" where
  "words_aux acc [] = (if acc = [] then [] else [rev acc])"
| "words_aux acc (c # s) =
     (if is_space c then (if acc = [] then words_aux [] s else rev acc # words_aux [] s)
      else words_aux (c # acc) s)"

definition words :: "string \<Rightarrow> string list" where
  "words s = words_aux [] s"

text \<open>\<^verbatim>\<open>s.splitlines()\<close> on text with newline separators: no empty last line.\<close>

definition splitlines :: "string \<Rightarrow> string list" where
  "splitlines s =
     (let ls = split_char (CHR 0x0A) s in if last ls = [] then butlast ls else ls)"

definition isdigit :: "string \<Rightarrow> bool" where
  "isdigit s \<longleftrightarrow> s \<noteq> [] \<and> (\<forall>c \<in> set s. is_digit c)"


section \<open>Integers as text\<close>

text \<open>
  \<^verbatim>\<open>int(s)\<close> of Python: surrounding whitespace is dropped, one sign is allowed, and digits
  may be grouped by single underscores. \<open>None\<close> is the \<^verbatim>\<open>ValueError\<close>.
\<close>

fun dec_aux :: "nat \<Rightarrow> bool \<Rightarrow> string \<Rightarrow> nat option" where
  "dec_aux acc prev [] = (if prev then Some acc else None)"
| "dec_aux acc prev (c # s) =
     (if is_digit c then dec_aux (10 * acc + digit_val c) True s
      else if c = CHR ''_'' \<and> prev then dec_aux acc False s
      else None)"

definition py_int :: "string \<Rightarrow> int option" where
  "py_int s =
     (case strip s of
        [] \<Rightarrow> None
      | c # r \<Rightarrow>
          if c = CHR ''-'' then map_option (\<lambda>n. - int n) (dec_aux 0 False r)
          else if c = CHR ''+'' then map_option int (dec_aux 0 False r)
          else map_option int (dec_aux 0 False (c # r)))"

function str_nat :: "nat \<Rightarrow> string" where
  "str_nat n = (if n < 10 then [digit_char n] else str_nat (n div 10) @ [digit_char (n mod 10)])"
  by pat_completeness auto
termination
  by (relation "measure id") auto

declare str_nat.simps [simp del]

definition str_int :: "int \<Rightarrow> string" where
  "str_int i = (if i < 0 then CHR ''-'' # str_nat (nat (- i)) else str_nat (nat i))"

text \<open>Evaluation of \<^verbatim>\<open>str()\<close> on binary numerals.\<close>

function str_pos :: "int \<Rightarrow> string" where
  "str_pos i =
     (if i < 10 then [digit_char (nat i)] else str_pos (i div 10) @ [digit_char (nat (i mod 10))])"
  by pat_completeness auto
termination
  by (relation "measure nat") auto

declare str_pos.simps [simp del]

lemma str_pos_nat: "str_pos (int n) = str_nat n"
proof (induction n rule: str_nat.induct)
  case (1 n)
  show ?case
  proof (cases "n < 10")
    case True
    then show ?thesis by (simp add: str_pos.simps [of "int n"] str_nat.simps [of n])
  next
    case False
    have "int n div 10 = int (n div 10)" "int n mod 10 = int (n mod 10)" by (simp_all add: zdiv_int zmod_int)
    with False 1 show ?thesis by (simp add: str_pos.simps [of "int n"] str_nat.simps [of n])
  qed
qed

lemma str_int_code [code]:
  "str_int i = (if i < 0 then CHR ''-'' # str_pos (- i) else str_pos i)"
  using str_pos_nat [of "nat i"] str_pos_nat [of "nat (- i)"] by (cases "i < 0") (simp_all add: str_int_def)

lemma digit_char_simps [simp]:
  "digit_char 0 = CHR ''0''" "digit_char 1 = CHR ''1''" "digit_char 2 = CHR ''2''" "digit_char 3 = CHR ''3''"
  "digit_char 4 = CHR ''4''" "digit_char 5 = CHR ''5''" "digit_char 6 = CHR ''6''" "digit_char 7 = CHR ''7''"
  "digit_char 8 = CHR ''8''" "digit_char 9 = CHR ''9''" "digit_char (Suc 0) = CHR ''1''"
  by (simp_all add: digit_char_def char_of_eq_iff)

lemma of_char_digit [simp]: "n < 10 \<Longrightarrow> of_char (digit_char n) = 48 + n"
  by (simp add: digit_char_def)

lemma digit_val_digit [simp]: "n < 10 \<Longrightarrow> digit_val (digit_char n) = n"
  by (simp add: digit_val_def)

lemma is_digit_digit [simp]: "n < 10 \<Longrightarrow> is_digit (digit_char n)"
  by (simp add: is_digit_def)

lemma str_nat_digits: "c \<in> set (str_nat n) \<Longrightarrow> is_digit c"
proof (induction n rule: str_nat.induct)
  case (1 n)
  show ?case
  proof (cases "n < 10")
    case True
    with "1.prems" show ?thesis by (simp add: str_nat.simps [of n])
  next
    case False
    with "1.prems" have "c \<in> set (str_nat (n div 10)) \<or> c = digit_char (n mod 10)"
      by (auto simp: str_nat.simps [of n])
    with False "1.IH" show ?thesis by auto
  qed
qed

lemma str_nat_nonempty [simp]: "str_nat n \<noteq> []"
  by (simp add: str_nat.simps [of n])

lemma dec_aux_digits:
  assumes "\<forall>c \<in> set ds. is_digit c"
  shows "dec_aux acc prev ds =
    (if ds = [] \<and> \<not> prev then None else Some (foldl (\<lambda>a c. 10 * a + digit_val c) acc ds))"
  using assms by (induction ds arbitrary: acc prev) auto

lemma foldl_str_nat: "foldl (\<lambda>a c. 10 * a + digit_val c) 0 (str_nat n) = n"
proof (induction n rule: str_nat.induct)
  case (1 n)
  show ?case
    using "1.IH" by (cases "n < 10") (simp_all add: str_nat.simps [of n])
qed

lemma dec_aux_str_nat [simp]: "dec_aux 0 False (str_nat n) = Some n"
  using dec_aux_digits [of "str_nat n" 0 False] str_nat_digits foldl_str_nat by auto

lemma digit_not_space: "is_digit c \<Longrightarrow> \<not> is_space c"
  by (auto simp: is_digit_def is_space_def)

lemma dropWhile_none: "\<forall>x \<in> set xs. \<not> P x \<Longrightarrow> dropWhile P xs = xs"
  by (cases xs) auto

lemma strip_id: "\<forall>c \<in> set s. \<not> is_space c \<Longrightarrow> strip s = s"
  by (simp add: strip_def rstrip_by_def lstrip_by_def dropWhile_none)

lemma strip_strip [simp]: "strip (strip s) = strip s"
proof -
  let ?t = "dropWhile is_space s"
  let ?u = "rev (dropWhile is_space (rev ?t))"
  have "dropWhile is_space ?u = ?u"
  proof (cases ?u)
    case (Cons c cs)
    have "?t = ?u @ rev (takeWhile is_space (rev ?t))"
      by (metis rev_append rev_rev_ident takeWhile_dropWhile_id)
    then have "hd ?t = c" "?t \<noteq> []" using Cons by (metis append_Cons list.sel(1), fastforce)
    then have "\<not> is_space c" using hd_dropWhile [of is_space s] by blast
    then show ?thesis using Cons by simp
  next
    case Nil
    then show ?thesis by (metis dropWhile.simps(1))
  qed
  then show ?thesis by (simp add: strip_def rstrip_by_def lstrip_by_def)
qed

lemma digit_facts:
  "is_digit c \<Longrightarrow> c \<noteq> CHR ''-'' \<and> c \<noteq> CHR ''+'' \<and> c \<noteq> CHR ''_'' \<and> c \<noteq> CHR ''/''
     \<and> c \<noteq> CHR '':'' \<and> c \<noteq> CHR '',''"
  by (auto simp: is_digit_def)

text \<open>Parsing what \<^verbatim>\<open>str()\<close> printed gives the number back; printing is injective.\<close>

lemma py_int_str_int [simp]: "py_int (str_int i) = Some i"
proof (cases "i < 0")
  case True
  have "strip (CHR ''-'' # str_nat (nat (- i))) = CHR ''-'' # str_nat (nat (- i))"
    by (rule strip_id) (auto dest!: str_nat_digits digit_not_space simp: is_space_def)
  with True show ?thesis by (simp add: py_int_def str_int_def)
next
  case False
  obtain c r where cr: "str_nat (nat i) = c # r"
    by (cases "str_nat (nat i)") auto
  then have "is_digit c" using str_nat_digits [of c "nat i"] by simp
  moreover have "strip (str_nat (nat i)) = str_nat (nat i)"
    by (rule strip_id) (auto dest!: str_nat_digits digit_not_space)
  moreover have "dec_aux 0 False (c # r) = Some (nat i)"
    using dec_aux_str_nat [of "nat i"] cr by simp
  ultimately show ?thesis
    using False digit_facts [of c] cr by (simp add: py_int_def str_int_def del: dec_aux.simps)
qed

lemma str_int_inject [simp]: "str_int i = str_int j \<longleftrightarrow> i = j"
  by (metis option.inject py_int_str_int)

lemma str_int_nonempty [simp]: "str_int i \<noteq> []"
  by (simp add: str_int_def)

lemma str_int_chars: "c \<in> set (str_int i) \<Longrightarrow> is_digit c \<or> c = CHR ''-''"
  by (auto simp: str_int_def dest: str_nat_digits split: if_splits)


section \<open>Splitting and joining\<close>

lemma filter_one: "distinct xs \<Longrightarrow> x \<in> set xs \<Longrightarrow> filter (\<lambda>y. y = x) xs = [x]"
  by (induction xs) (auto simp: filter_empty_conv)

lemma split_char_nonempty [simp]: "split_char c s \<noteq> []"
  by (induction s) (auto split: list.splits)

lemma join_Cons: "xs \<noteq> [] \<Longrightarrow> join sep (x # xs) = x @ sep @ join sep xs"
  by (cases xs) auto

lemma join_split_char: "join [c] (split_char c s) = s"
proof (induction s)
  case Nil
  show ?case by simp
next
  case (Cons x s)
  show ?case
  proof (cases "x = c")
    case True
    with Cons.IH show ?thesis by (simp add: join_Cons)
  next
    case False
    obtain y ys where "split_char c s = y # ys" by (cases "split_char c s") auto
    with Cons.IH False show ?thesis by (cases ys) auto
  qed
qed

lemma split_char_no_sep: "c \<notin> set s \<Longrightarrow> split_char c s = [s]"
  by (induction s) auto

lemma split_char_append:
  "c \<notin> set s \<Longrightarrow> split_char c (s @ c # t) = s # split_char c t"
  by (induction s) auto

lemma split_char_join:
  "xs \<noteq> [] \<Longrightarrow> \<forall>x \<in> set xs. c \<notin> set x \<Longrightarrow> split_char c (join [c] xs) = xs"
proof (induction xs)
  case (Cons x xs)
  then show ?case
    by (cases xs) (auto simp: split_char_no_sep split_char_append)
qed simp

lemma split_char_elems: "x \<in> set (split_char c s) \<Longrightarrow> c \<notin> set x"
  by (induction s arbitrary: x) (auto split: if_splits list.splits)

lemma startswith_append [simp]: "startswith (p @ s) p"
  by (simp add: startswith_def)

lemma startswith_iff: "startswith s p \<longleftrightarrow> (\<exists>t. s = p @ t)"
  unfolding startswith_def by (metis append_take_drop_id append_eq_conv_conj)

lemma startswith_Nil [simp]: "startswith s []"
  by (simp add: startswith_def)

lemma startswith_Cons [simp]:
  "startswith (c # s) (d # p) \<longleftrightarrow> c = d \<and> startswith s p"
  "\<not> startswith [] (d # p)"
  by (auto simp: startswith_def)

lemma contains_iff: "contains sub s \<longleftrightarrow> (\<exists>a b. s = a @ sub @ b)"
proof (induction s)
  case Nil
  show ?case by auto
next
  case (Cons c s)
  have "contains sub (c # s) \<longleftrightarrow> (\<exists>b. c # s = sub @ b) \<or> (\<exists>a b. s = a @ sub @ b)"
    using Cons.IH by (simp add: startswith_iff)
  also have "\<dots> \<longleftrightarrow> (\<exists>a b. c # s = a @ sub @ b)"
    by (metis append_Cons append_Nil list.exhaust list.inject)
  finally show ?case .
qed

lemma contains_append: "contains p s \<Longrightarrow> contains p (a @ s @ b)"
  unfolding contains_iff by (metis append.assoc)

lemma contains_refl [simp]: "contains s s"
  unfolding contains_iff by (metis append_Nil append_Nil2)

lemma split1_eq: "split1 c s = [s] \<and> c \<notin> set s \<or> (\<exists>a b. s = a @ c # b \<and> c \<notin> set a \<and> split1 c s = [a, b])"
proof (cases "dropWhile (\<lambda>x. x \<noteq> c) s")
  case Nil
  then have "split1 c s = [s]" by (simp only: split1_def list.case)
  moreover from Nil have "c \<notin> set s" by auto
  ultimately show ?thesis by blast
next
  case (Cons d t)
  then have "d = c" by (metis (full_types) hd_dropWhile list.sel(1) list.simps(3))
  moreover have "s = takeWhile (\<lambda>x. x \<noteq> c) s @ d # t"
    by (metis Cons takeWhile_dropWhile_id)
  moreover have "c \<notin> set (takeWhile (\<lambda>x. x \<noteq> c) s)"
    using set_takeWhileD [of c "\<lambda>x. x \<noteq> c" s] by blast
  ultimately show ?thesis using Cons by (auto simp: split1_def)
qed


section \<open>Dictionaries\<close>

text \<open>
  A Python dictionary keeps insertion order: an association list with distinct keys.
  \<^const>\<open>AList.update\<close> overwrites in place or appends, as \<^verbatim>\<open>d[k] = v\<close> does.
\<close>

type_synonym ('k, 'v) dict = "('k \<times> 'v) list"

definition dget :: "('k, 'v) dict \<Rightarrow> 'k \<Rightarrow> 'v \<Rightarrow> 'v" where
  "dget d k dflt = (case map_of d k of None \<Rightarrow> dflt | Some v \<Rightarrow> v)"

definition dset :: "'k \<Rightarrow> 'v \<Rightarrow> ('k, 'v) dict \<Rightarrow> ('k, 'v) dict" where
  "dset = AList.update"

definition ddel :: "'k \<Rightarrow> ('k, 'v) dict \<Rightarrow> ('k, 'v) dict" where
  "ddel = AList.delete"

definition keys :: "('k, 'v) dict \<Rightarrow> 'k list" where
  "keys d = map fst d"

definition wf_dict :: "('k, 'v) dict \<Rightarrow> bool" where
  "wf_dict d \<longleftrightarrow> distinct (keys d)"

text \<open>\<^verbatim>\<open>d | e\<close> and \<^verbatim>\<open>d.update(e)\<close>.\<close>

definition dmerge :: "('k, 'v) dict \<Rightarrow> ('k, 'v) dict \<Rightarrow> ('k, 'v) dict" where
  "dmerge d e = fold (\<lambda>(k, v). dset k v) e d"

text \<open>
  The interface the components use of a dictionary, with the laws an implementation owes.
\<close>

locale dictionary =
  fixes lookup :: "'m \<Rightarrow> 'k \<Rightarrow> 'v option"
    and upd :: "'k \<Rightarrow> 'v \<Rightarrow> 'm \<Rightarrow> 'm"
    and del :: "'k \<Rightarrow> 'm \<Rightarrow> 'm"
    and invar :: "'m \<Rightarrow> bool"
  assumes lookup_upd: "lookup (upd k v m) = (lookup m)(k \<mapsto> v)"
    and lookup_del: "lookup (del k m) = (lookup m)(k := None)"
    and invar_upd: "invar m \<Longrightarrow> invar (upd k v m)"
    and invar_del: "invar m \<Longrightarrow> invar (del k m)"
begin

lemma lookup_fold_upd:
  "lookup (fold (\<lambda>(k, v). upd k v) es m) = lookup m ++ map_of (rev es)"
  by (induction es arbitrary: m) (auto simp: lookup_upd map_add_def fun_eq_iff split: option.splits)

lemma lookup_fold_del:
  "lookup (fold del ks m) k = (if k \<in> set ks then None else lookup m k)"
  by (induction ks arbitrary: m) (auto simp: lookup_del)

lemma invar_fold_upd: "invar m \<Longrightarrow> invar (fold (\<lambda>(k, v). upd k v) es m)"
  by (induction es arbitrary: m) (auto simp: invar_upd)

lemma invar_fold_del: "invar m \<Longrightarrow> invar (fold del ks m)"
  by (induction ks arbitrary: m) (auto simp: invar_del)

end

interpretation pydict: dictionary map_of dset ddel wf_dict
proof unfold_locales
  show "map_of (dset k v m) = (map_of m)(k \<mapsto> v)" for k :: 'a and v :: 'b and m
    by (simp add: dset_def update_conv' fun_eq_iff)
  show "map_of (ddel k m) = (map_of m)(k := None)" for k :: 'a and m :: "('a \<times> 'b) list"
    by (simp add: ddel_def delete_conv')
  show "wf_dict m \<Longrightarrow> wf_dict (dset k v m)" for k :: 'a and v :: 'b and m
    by (simp add: wf_dict_def keys_def dset_def distinct_update)
  show "wf_dict m \<Longrightarrow> wf_dict (ddel k m)" for k :: 'a and m :: "('a \<times> 'b) list"
    by (simp add: wf_dict_def keys_def ddel_def distinct_delete)
qed

declare pydict.lookup_upd [simp] pydict.lookup_del [simp]
  pydict.invar_upd [simp, intro] pydict.invar_del [simp, intro]

lemma lookup_dmerge [simp]: "map_of (dmerge d e) = map_of d ++ map_of (rev e)"
  unfolding dmerge_def by (rule pydict.lookup_fold_upd)

lemma wf_dict_dmerge [simp, intro]: "wf_dict d \<Longrightarrow> wf_dict (dmerge d e)"
  unfolding dmerge_def by (rule pydict.invar_fold_upd)

lemma wf_dict_Nil [simp]: "wf_dict []"
  by (simp add: wf_dict_def keys_def)

lemma map_of_rev_wf: "wf_dict d \<Longrightarrow> map_of (rev d) = map_of d"
  by (metis distinct_rev keys_def map_of_inject_set rev_map set_rev wf_dict_def)

lemma set_keys [simp]: "set (keys d) = dom (map_of d)"
  by (simp add: keys_def dom_map_of_conv_image_fst)

lemma set_dset: "set (dset k v d) \<subseteq> insert (k, v) (set d)"
  unfolding dset_def by (induction d) auto

lemma set_ddel: "set (ddel k d) \<subseteq> set d"
  by (auto simp: ddel_def AList.delete_eq)

lemma dget_dset [simp]: "dget (dset k v d) k' x = (if k' = k then v else dget d k' x)"
  by (simp add: dget_def)

lemma dget_ddel [simp]: "dget (ddel k d) k' x = (if k' = k then x else dget d k' x)"
  by (simp add: dget_def)


section \<open>Programs with state and exceptions\<close>

text \<open>
  Code with effects maps a state to an outcome (an exception or a value) and the state at
  that point; a handler that catches the exception goes on from there.
\<close>

type_synonym ('s, 'a) prog = "'s \<Rightarrow> (exn + 'a) \<times> 's"

definition ret :: "'a \<Rightarrow> ('s, 'a) prog" where
  "ret a = (\<lambda>s. (Inr a, s))"

definition raise :: "exn \<Rightarrow> ('s, 'a) prog" where
  "raise e = (\<lambda>s. (Inl e, s))"

definition bindM :: "('s, 'a) prog \<Rightarrow> ('a \<Rightarrow> ('s, 'b) prog) \<Rightarrow> ('s, 'b) prog" where
  "bindM c f = (\<lambda>s. case c s of (Inl e, s') \<Rightarrow> (Inl e, s') | (Inr a, s') \<Rightarrow> f a s')"

text \<open>Sequencing, for the code that ignores the first result.\<close>

definition thenM :: "('s, 'a) prog \<Rightarrow> ('s, 'b) prog \<Rightarrow> ('s, 'b) prog" where
  "thenM c d = bindM c (\<lambda>_. d)"

definition readM :: "('s \<Rightarrow> 'a) \<Rightarrow> ('s, 'a) prog" where
  "readM f = (\<lambda>s. (Inr (f s), s))"

definition modM :: "('s \<Rightarrow> 's) \<Rightarrow> ('s, unit) prog" where
  "modM f = (\<lambda>s. (Inr (), f s))"

definition skip :: "('s, unit) prog" where
  "skip = ret ()"

text \<open>\<^verbatim>\<open>try: c except <those satisfying p> as e: h(e)\<close>\<close>

definition tryM :: "('s, 'a) prog \<Rightarrow> (exn \<Rightarrow> bool) \<Rightarrow> (exn \<Rightarrow> ('s, 'a) prog) \<Rightarrow> ('s, 'a) prog" where
  "tryM c p h =
     (\<lambda>s. case c s of
            (Inl e, s') \<Rightarrow> if p e then h e s' else (Inl e, s')
          | (Inr a, s') \<Rightarrow> (Inr a, s'))"

text \<open>\<^verbatim>\<open>for x in xs: f(x)\<close>\<close>

fun forM :: "'a list \<Rightarrow> ('a \<Rightarrow> ('s, unit) prog) \<Rightarrow> ('s, unit) prog" where
  "forM [] f = skip"
| "forM (x # xs) f = thenM (f x) (forM xs f)"

text \<open>\<^verbatim>\<open>[f(x) for x in xs]\<close> where \<^verbatim>\<open>f\<close> has effects.\<close>

fun mapM :: "('a \<Rightarrow> ('s, 'b) prog) \<Rightarrow> 'a list \<Rightarrow> ('s, 'b list) prog" where
  "mapM f [] = ret []"
| "mapM f (x # xs) = bindM (f x) (\<lambda>y. bindM (mapM f xs) (\<lambda>ys. ret (y # ys)))"

definition ifM :: "('s, bool) prog \<Rightarrow> ('s, 'a) prog \<Rightarrow> ('s, 'a) prog \<Rightarrow> ('s, 'a) prog" where
  "ifM b c d = bindM b (\<lambda>x. if x then c else d)"

text \<open>Composition of fallible functions without state.\<close>

definition bindE :: "exn + 'a \<Rightarrow> ('a \<Rightarrow> exn + 'b) \<Rightarrow> exn + 'b" where
  "bindE r f = (case r of Inl e \<Rightarrow> Inl e | Inr a \<Rightarrow> f a)"

fun mapE :: "('a \<Rightarrow> exn + 'b) \<Rightarrow> 'a list \<Rightarrow> exn + 'b list" where
  "mapE f [] = Inr []"
| "mapE f (x # xs) = bindE (f x) (\<lambda>y. bindE (mapE f xs) (\<lambda>ys. Inr (y # ys)))"

lemma bindE_simps [simp]: "bindE (Inl e) f = Inl e" "bindE (Inr a) f = f a"
  by (simp_all add: bindE_def)

lemma bindE_Inr: "bindE r f = Inr b \<longleftrightarrow> (\<exists>a. r = Inr a \<and> f a = Inr b)"
  by (cases r) auto

lemma bindE_cong [fundef_cong]:
  "r = r' \<Longrightarrow> (\<And>a. r' = Inr a \<Longrightarrow> f a = g a) \<Longrightarrow> bindE r f = bindE r' g"
  by (cases r') auto

lemma mapE_Inr_iff: "mapE f xs = Inr ys \<longleftrightarrow> list_all2 (\<lambda>x y. f x = Inr y) xs ys"
proof (induction xs arbitrary: ys)
  case Nil
  then show ?case by auto
next
  case (Cons x xs)
  then show ?case by (cases ys) (auto simp: bindE_Inr)
qed

lemma mapE_total: "\<forall>x \<in> set xs. f x = Inr (g x) \<Longrightarrow> mapE f xs = Inr (map g xs)"
  by (induction xs) auto

definition liftE :: "exn + 'a \<Rightarrow> ('s, 'a) prog" where
  "liftE r = (\<lambda>s. (r, s))"

lemma ret_apply [simp, prog_simps]: "ret a s = (Inr a, s)" by (simp add: ret_def)
lemma raise_apply [simp, prog_simps]: "raise e s = (Inl e, s)" by (simp add: raise_def)
lemma readM_apply [simp, prog_simps]: "readM f s = (Inr (f s), s)" by (simp add: readM_def)
lemma modM_apply [simp, prog_simps]: "modM f s = (Inr (), f s)" by (simp add: modM_def)
lemma skip_apply [simp, prog_simps]: "skip s = (Inr (), s)" by (simp add: skip_def)
lemma liftE_apply [simp, prog_simps]: "liftE r s = (r, s)" by (simp add: liftE_def)

lemma bindM_apply [prog_simps]:
  "bindM c f s = (case c s of (Inl e, s') \<Rightarrow> (Inl e, s') | (Inr a, s') \<Rightarrow> f a s')"
  by (simp add: bindM_def)

lemma thenM_apply [prog_simps]:
  "thenM c d s = (case c s of (Inl e, s') \<Rightarrow> (Inl e, s') | (Inr a, s') \<Rightarrow> d s')"
  by (simp add: thenM_def bindM_def)

lemma tryM_apply [prog_simps]:
  "tryM c p h s =
     (case c s of (Inl e, s') \<Rightarrow> if p e then h e s' else (Inl e, s') | (Inr a, s') \<Rightarrow> (Inr a, s'))"
  by (simp add: tryM_def)

lemma ifM_apply [prog_simps]:
  "ifM b c d s = (case b s of (Inl e, s') \<Rightarrow> (Inl e, s') | (Inr x, s') \<Rightarrow> (if x then c else d) s')"
  by (simp add: ifM_def bindM_def)

lemma bindM_ret [simp]: "bindM (ret a) f = f a"
  by (simp add: bindM_def fun_eq_iff)

lemma bindM_assoc: "bindM (bindM c f) g = bindM c (\<lambda>a. bindM (f a) g)"
  by (auto simp: bindM_def fun_eq_iff split: prod.splits sum.splits)

text \<open>
  \<open>keeps P c\<close>: whatever its outcome, \<open>c\<close> ends in a state with \<open>P\<close> when it started in one.
  Programs keep what their parts keep, so an invariant of a whole handler follows from
  one rule per construct.
\<close>

definition keeps :: "('s \<Rightarrow> bool) \<Rightarrow> ('s, 'a) prog \<Rightarrow> bool" where
  "keeps P c \<longleftrightarrow> (\<forall>s. P s \<longrightarrow> P (snd (c s)))"

lemma keepsI: "(\<And>s. P s \<Longrightarrow> P (snd (c s))) \<Longrightarrow> keeps P c"
  by (simp add: keeps_def)

lemma keepsD: "keeps P c \<Longrightarrow> P s \<Longrightarrow> P (snd (c s))"
  by (simp add: keeps_def)

lemma keeps_ret [keeps_intros]: "keeps P (ret a)" by (simp add: keeps_def)
lemma keeps_raise [keeps_intros]: "keeps P (raise e)" by (simp add: keeps_def)
lemma keeps_readM [keeps_intros]: "keeps P (readM f)" by (simp add: keeps_def)
lemma keeps_skip [keeps_intros]: "keeps P skip" by (simp add: keeps_def)
lemma keeps_liftE [keeps_intros]: "keeps P (liftE r)" by (simp add: keeps_def)

lemma keeps_modM: "(\<And>s. P s \<Longrightarrow> P (f s)) \<Longrightarrow> keeps P (modM f)"
  by (simp add: keeps_def)

text \<open>What follows a program may assume that its value came from a state with the invariant.\<close>

lemma keeps_bindM [keeps_intros]:
  assumes "keeps P c" and "\<And>s a. P s \<Longrightarrow> fst (c s) = Inr a \<Longrightarrow> keeps P (f a)"
  shows "keeps P (bindM c f)"
proof (rule keepsI)
  fix s assume "P s"
  obtain r s' where c: "c s = (r, s')" by fastforce
  with \<open>P s\<close> assms(1) have "P s'" by (metis keepsD snd_conv)
  then show "P (snd (bindM c f s))"
    using assms(2) [OF \<open>P s\<close>] c by (cases r) (auto simp: bindM_def dest: keepsD)
qed

lemma keeps_thenM [keeps_intros]: "keeps P c \<Longrightarrow> keeps P d \<Longrightarrow> keeps P (thenM c d)"
  unfolding thenM_def by (rule keeps_bindM)

lemma keeps_tryM [keeps_intros]:
  assumes "keeps P c" and "\<And>e. keeps P (h e)"
  shows "keeps P (tryM c p h)"
  using assms by (fastforce simp: keeps_def tryM_def split: prod.splits sum.splits)

lemma keeps_forM [keeps_intros]: "(\<And>x. keeps P (f x)) \<Longrightarrow> keeps P (forM xs f)"
  by (induction xs) (auto intro: keeps_intros)

lemma keeps_mapM [keeps_intros]: "(\<And>x. keeps P (f x)) \<Longrightarrow> keeps P (mapM f xs)"
  by (induction xs) (auto intro!: keeps_intros)

lemma keeps_if [keeps_intros]:
  "(b \<Longrightarrow> keeps P c) \<Longrightarrow> (\<not> b \<Longrightarrow> keeps P d) \<Longrightarrow> keeps P (if b then c else d)"
  by simp

lemma keeps_ifM [keeps_intros]:
  "keeps P b \<Longrightarrow> keeps P c \<Longrightarrow> keeps P d \<Longrightarrow> keeps P (ifM b c d)"
  unfolding ifM_def by (intro keeps_intros) auto

lemma keeps_let [keeps_intros]: "(\<And>x. keeps P (f x)) \<Longrightarrow> keeps P (Let x f)"
  by simp

lemma keeps_case_option [keeps_intros]:
  "(x = None \<Longrightarrow> keeps P c) \<Longrightarrow> (\<And>y. x = Some y \<Longrightarrow> keeps P (f y)) \<Longrightarrow> keeps P (case x of None \<Rightarrow> c | Some y \<Rightarrow> f y)"
  by (simp split: option.splits)

lemma keeps_case_sum [keeps_intros]:
  "(\<And>e. keeps P (g e)) \<Longrightarrow> (\<And>x. keeps P (f x)) \<Longrightarrow> keeps P (case x of Inl e \<Rightarrow> g e | Inr y \<Rightarrow> f y)"
  by (simp split: sum.splits)

lemma keeps_case_prod [keeps_intros]:
  "(\<And>a b. x = (a, b) \<Longrightarrow> keeps P (f a b)) \<Longrightarrow> keeps P (case x of (a, b) \<Rightarrow> f a b)"
  by (simp split: prod.splits)

lemma keeps_case_list [keeps_intros]:
  "keeps P c \<Longrightarrow> (\<And>x xs. keeps P (f x xs)) \<Longrightarrow> keeps P (case l of [] \<Rightarrow> c | x # xs \<Rightarrow> f x xs)"
  by (simp split: list.splits)


section \<open>Removing from a list while iterating over it\<close>

text \<open>
  \<^verbatim>\<open>for x in xs: if ...: xs.remove(x)\<close>: after a removal, the element that moves into the place is not
  looked at. When the elements differ in what the test looks at, the loop is a filter.
\<close>

function drop_iterating :: "('a \<Rightarrow> bool) \<Rightarrow> nat \<Rightarrow> 'a list \<Rightarrow> 'a list" where
  "drop_iterating P i xs =
     (if i < length xs
      then if P (xs ! i) then drop_iterating P (Suc i) (remove1 (xs ! i) xs) else drop_iterating P (Suc i) xs
      else xs)"
  by pat_completeness auto
termination
  by (relation "measure (\<lambda>(P, i, xs). length xs - i)") (auto simp: length_remove1)

declare drop_iterating.simps [simp del]

lemma drop_iterating_none: "\<forall>x \<in> set xs. \<not> P x \<Longrightarrow> drop_iterating P i xs = xs"
  by (induction P i xs rule: drop_iterating.induct) (subst drop_iterating.simps, auto)

lemma remove1_distinct_key:
  "distinct (map f xs) \<Longrightarrow> x \<in> set xs \<Longrightarrow> remove1 x xs = filter (\<lambda>y. f y \<noteq> f x) xs"
proof (induction xs)
  case (Cons a xs)
  show ?case
  proof (cases "a = x")
    case True
    with Cons.prems(1) have "\<forall>y \<in> set xs. f y \<noteq> f x" by (metis distinct.simps(2) image_eqI list.set_map list.simps(9))
    with True show ?thesis by simp
  next
    case False
    with Cons.prems have "f a \<noteq> f x" by auto
    with False Cons show ?thesis by simp
  qed
qed simp

lemma drop_iterating_filter:
  assumes "distinct (map f xs)"
  shows "drop_iterating (\<lambda>x. f x = v) 0 xs = filter (\<lambda>x. f x \<noteq> v) xs"
proof -
  have "drop_iterating P i xs = filter (\<lambda>x. \<not> P x) xs"
    if "\<forall>k < i. k < length xs \<longrightarrow> \<not> P (xs ! k)" "P = (\<lambda>x. f x = v)" "distinct (map f xs)" for P i
    using that
  proof (induction P i xs rule: drop_iterating.induct)
    case (1 P i xs)
    show ?case
    proof (cases "i < length xs \<and> P (xs ! i)")
      case True
      then have r: "remove1 (xs ! i) xs = filter (\<lambda>x. \<not> P x) xs"
        using remove1_distinct_key [OF 1(5), of "xs ! i"] 1(4) by simp
      then show ?thesis using True drop_iterating_none [of "remove1 (xs ! i) xs" P "Suc i"] by (subst drop_iterating.simps) simp
    next
      case False
      show ?thesis
      proof (cases "i < length xs")
        case True
        with False 1(3) have "\<forall>k < Suc i. k < length xs \<longrightarrow> \<not> P (xs ! k)" by (auto simp: less_Suc_eq)
        with 1(2) [OF True] True False 1(4,5) show ?thesis by (subst drop_iterating.simps) simp
      next
        case False
        with 1(3) have "\<forall>x \<in> set xs. \<not> P x" by (auto simp: in_set_conv_nth)
        then show ?thesis using drop_iterating_none by (metis filter_True)
      qed
    qed
  qed
  from this [of 0 "\<lambda>x. f x = v"] assms show ?thesis by simp
qed

end
