(* ===== verification/Literals.thy ===== *)
theory Literals
  imports Kafka_Prelude
begin

text \<open>
  The constants of \<^verbatim>\<open>src/literals.py\<close>: authentication maps and their ports, roles, users,
  secret fields, KRaft quorum records and the charm's statuses.
\<close>

section \<open>Names\<close>

definition PEER :: string where "PEER = ''cluster''"
definition TLS_RELATION :: string where "TLS_RELATION = ''certificates''"
definition INTERNAL_TLS_RELATION :: string where "INTERNAL_TLS_RELATION = ''peer-certificates''"
definition MIN_REPLICAS :: nat where "MIN_REPLICAS = 3"
definition KRAFT_VERSION :: int where "KRAFT_VERSION = 1"
definition KRAFT_NODE_ID_OFFSET :: int where "KRAFT_NODE_ID_OFFSET = 100"
definition USER_ID :: string where "USER_ID = ''kafka''"
definition USER_NAME :: string where "USER_NAME = ''kafka''"
definition GROUP :: string where "GROUP = ''kafka''"

definition INTER_BROKER_USER :: string where "INTER_BROKER_USER = ''replication''"
definition ADMIN_USER :: string where "ADMIN_USER = ''operator''"
definition CONTROLLER_USER :: string where "CONTROLLER_USER = ''controller''"
definition BALANCER_WEBSERVER_USER :: string where "BALANCER_WEBSERVER_USER = ''balancer''"
definition INTERNAL_USERS :: "string list" where
  "INTERNAL_USERS = [INTER_BROKER_USER, ADMIN_USER]"
definition BALANCER_WEBSERVER_PORT :: int where "BALANCER_WEBSERVER_PORT = 9090"
definition JMX_EXPORTER_PORT :: int where "JMX_EXPORTER_PORT = 9101"
definition JMX_CC_PORT :: int where "JMX_CC_PORT = 9102"
definition JVM_MEM_MIN_GB :: int where "JVM_MEM_MIN_GB = 1"
definition JVM_MEM_MAX_GB :: int where "JVM_MEM_MAX_GB = 6"

definition BALANCER_TOPICS :: "string list" where
  "BALANCER_TOPICS =
     [''__CruiseControlMetrics'', ''__KafkaCruiseControlPartitionMetricSamples'',
      ''__KafkaCruiseControlBrokerMetricSamples'']"

definition SECRETS_APP :: "string list" where
  "SECRETS_APP =
     map (\<lambda>user. user @ ''-password'') (INTERNAL_USERS @ [BALANCER_WEBSERVER_USER, CONTROLLER_USER])
     @ [''internal-ca'', ''internal-ca-key'']"

definition SECRETS_UNIT :: "string list" where
  "SECRETS_UNIT =
     [''truststore-password'', ''keystore-password'', ''client-ca-cert'', ''client-certificate'',
      ''client-chain'', ''client-csr'', ''client-private-key'', ''peer-ca-cert'',
      ''peer-certificate'', ''peer-chain'', ''peer-csr'', ''peer-private-key'']"

datatype tls_scope = PEER_SCOPE | CLIENT_SCOPE

fun scope_value :: "tls_scope \<Rightarrow> string" where
  "scope_value PEER_SCOPE = ''peer''"
| "scope_value CLIENT_SCOPE = ''client''"


section \<open>Authentication maps and ports\<close>

datatype auth_protocol = SASL_PLAINTEXT | SASL_SSL | SSL

datatype auth_mechanism = SCRAM_SHA_512 | OAUTHBEARER | SSL_MECH

datatype listener_scope = INTERNAL | CLIENT | EXTERNAL | EXTRA | CONTROLLER_LISTENER

type_synonym auth_map = "auth_protocol \<times> auth_mechanism"

fun protocol_str :: "auth_protocol \<Rightarrow> string" where
  "protocol_str SASL_PLAINTEXT = ''SASL_PLAINTEXT''"
| "protocol_str SASL_SSL = ''SASL_SSL''"
| "protocol_str SSL = ''SSL''"

fun mechanism_str :: "auth_mechanism \<Rightarrow> string" where
  "mechanism_str SCRAM_SHA_512 = ''SCRAM-SHA-512''"
| "mechanism_str OAUTHBEARER = ''OAUTHBEARER''"
| "mechanism_str SSL_MECH = ''SSL''"

fun listener_scope_str :: "listener_scope \<Rightarrow> string" where
  "listener_scope_str INTERNAL = ''INTERNAL''"
| "listener_scope_str CLIENT = ''CLIENT''"
| "listener_scope_str EXTERNAL = ''EXTERNAL''"
| "listener_scope_str EXTRA = ''EXTRA''"
| "listener_scope_str CONTROLLER_LISTENER = ''CONTROLLER''"

record ports =
  client_port :: int
  internal_port :: int
  external_port :: int
  controller_port :: int
  extra_port :: int

definition mk_ports :: "int \<Rightarrow> int \<Rightarrow> int \<Rightarrow> int \<Rightarrow> ports" where
  "mk_ports c i e k = \<lparr>client_port = c, internal_port = i, external_port = e, controller_port = k, extra_port = 0\<rparr>"

definition SECURITY_PROTOCOL_PORTS :: "(auth_map, ports) dict" where
  "SECURITY_PROTOCOL_PORTS =
     [((SASL_PLAINTEXT, SCRAM_SHA_512), mk_ports 9092 19092 29092 9097),
      ((SASL_SSL, SCRAM_SHA_512), mk_ports 9093 19093 29093 9098),
      ((SSL, SSL_MECH), mk_ports 9094 19094 29094 19194),
      ((SASL_PLAINTEXT, OAUTHBEARER), mk_ports 9095 19095 29095 19195),
      ((SASL_SSL, OAUTHBEARER), mk_ports 9096 19096 29096 19196)]"

text \<open>\<^verbatim>\<open>SECURITY_PROTOCOL_PORTS[auth_map]\<close>, a \<^verbatim>\<open>KeyError\<close> for an unsupported combination.\<close>

definition ports_of :: "auth_map \<Rightarrow> exn + ports" where
  "ports_of a = (case map_of SECURITY_PROTOCOL_PORTS a of None \<Rightarrow> Inl KeyError | Some p \<Rightarrow> Inr p)"

definition supported_auth :: "auth_map \<Rightarrow> bool" where
  "supported_auth a \<longleftrightarrow> a \<in> set (keys SECURITY_PROTOCOL_PORTS)"


section \<open>Paths and roles\<close>

record role_paths =
  CONF :: string
  LOGS :: string
  DATA :: string
  BIN :: string

definition PATHS_KAFKA :: role_paths where
  "PATHS_KAFKA = \<lparr>CONF = ''/etc/kafka'', LOGS = ''/var/log/kafka'', DATA = ''/var/lib/kafka'',
     BIN = ''/opt/kafka''\<rparr>"

definition PATHS_CRUISE_CONTROL :: role_paths where
  "PATHS_CRUISE_CONTROL = \<lparr>CONF = ''/etc/cruise-control'', LOGS = ''/var/log/cruise-control'',
     DATA = ''/var/lib/cruise-control'', BIN = ''/opt/cruise-control''\<rparr>"

record role =
  role_value :: string
  role_service :: string
  role_paths :: role_paths
  role_relation :: string
  requested_secrets :: "string list"

definition BROKER :: role where
  "BROKER = \<lparr>role_value = ''broker'', role_service = ''kafka'', role_paths = PATHS_KAFKA,
     role_relation = ''peer-cluster-orchestrator'',
     requested_secrets = [''balancer-username'', ''balancer-password'', ''balancer-uris'',
       ''controller-password'']\<rparr>"

definition CONTROLLER :: role where
  "CONTROLLER = \<lparr>role_value = ''controller'', role_service = ''daemon'', role_paths = PATHS_KAFKA,
     role_relation = ''peer-cluster'',
     requested_secrets = [''broker-username'', ''broker-password'', ''controller-password'']\<rparr>"

definition BALANCER :: role where
  "BALANCER = \<lparr>role_value = ''balancer'', role_service = ''cruise-control'', role_paths = PATHS_CRUISE_CONTROL,
     role_relation = ''peer-cluster'',
     requested_secrets = [''broker-username'', ''broker-password'', ''broker-uris'',
       ''controller-passwrod'', ''zk-username'', ''zk-password'', ''zk-uris'']\<rparr>"

definition DEFAULT_BALANCER_GOALS :: "string list" where
  "DEFAULT_BALANCER_GOALS =
     [''ReplicaCapacity'', ''DiskCapacity'', ''NetworkInboundCapacity'', ''NetworkOutboundCapacity'',
      ''CpuCapacity'', ''ReplicaDistribution'', ''PotentialNwOut'', ''DiskUsageDistribution'',
      ''NetworkInboundUsageDistribution'', ''NetworkOutboundUsageDistribution'',
      ''CpuUsageDistribution'', ''LeaderReplicaDistribution'', ''LeaderBytesInDistribution'',
      ''TopicReplicaDistribution'', ''PreferredLeaderElection'']"

definition HARD_BALANCER_GOALS :: "string list" where
  "HARD_BALANCER_GOALS =
     [''ReplicaCapacity'', ''DiskCapacity'', ''NetworkInboundCapacity'', ''NetworkOutboundCapacity'',
      ''CpuCapacity'', ''ReplicaDistribution'']"

definition BALANCER_GOALS_TESTING :: "string list" where
  "BALANCER_GOALS_TESTING = [''ReplicaDistribution'']"

definition MODE_FULL :: string where "MODE_FULL = ''full''"
definition MODE_ADD :: string where "MODE_ADD = ''add''"
definition MODE_REMOVE :: string where "MODE_REMOVE = ''remove''"


section \<open>KRaft quorum and statuses\<close>

datatype kraft_unit_status = LEADER | FOLLOWER | OBSERVER

text \<open>\<^verbatim>\<open>KRaftUnitStatus(value)\<close> raises \<^verbatim>\<open>ValueError\<close> on any other text.\<close>

definition kraft_unit_status_of :: "string \<Rightarrow> kraft_unit_status option" where
  "kraft_unit_status_of s =
     (if s = ''Leader'' then Some LEADER
      else if s = ''Follower'' then Some FOLLOWER
      else if s = ''Observer'' then Some OBSERVER
      else None)"

record kraft_quorum_info =
  directory_id :: string
  lag :: int
  quorum_status :: kraft_unit_status

datatype debug_level = DEBUG | INFO | WARNING | ERROR

datatype status_base =
    ActiveStatus string
  | MaintenanceStatus string
  | BlockedStatus string
  | WaitingStatus string

datatype status =
    ACTIVE | NO_PEER_RELATION | NO_PEER_CLUSTER_RELATION | SNAP_NOT_INSTALLED
  | SERVICE_NOT_RUNNING | NOT_ALL_RELATED | CC_NOT_RUNNING | MISSING_MODE | NO_CLUSTER_UUID
  | NO_BOOTSTRAP_CONTROLLER | MISSING_CONTROLLER_PASSWORD | BROKER_NOT_CONNECTED | ADDED_STORAGE
  | REMOVED_STORAGE | REMOVED_STORAGE_NO_REPL | NO_BROKER_CREDS | NO_CERT | NO_INTERNAL_TLS
  | NO_PEER_CLUSTER_CA | MTLS_REQUIRES_TLS | INVALID_CLIENT_CERTIFICATE | SYSCONF_NOT_OPTIMAL
  | SYSCONF_NOT_POSSIBLE | NOT_IMPLEMENTED | NO_BALANCER_RELATION | NO_BROKER_DATA
  | NOT_ENOUGH_BROKERS | WAITING_FOR_REBALANCE | SCALING_WARNING

fun status_level :: "status \<Rightarrow> status_base \<times> debug_level" where
  "status_level ACTIVE = (ActiveStatus '''', DEBUG)"
| "status_level NO_PEER_RELATION = (MaintenanceStatus ''no peer relation yet'', DEBUG)"
| "status_level NO_PEER_CLUSTER_RELATION =
     (BlockedStatus ''missing required peer-cluster relation'', DEBUG)"
| "status_level SNAP_NOT_INSTALLED = (BlockedStatus ''unable to install charmed-kafka snap'', ERROR)"
| "status_level SERVICE_NOT_RUNNING = (BlockedStatus ''service not running'', WARNING)"
| "status_level NOT_ALL_RELATED = (MaintenanceStatus ''not all units related'', DEBUG)"
| "status_level CC_NOT_RUNNING = (BlockedStatus ''Cruise Control not running'', WARNING)"
| "status_level MISSING_MODE =
     (BlockedStatus ''application needs to be related with a KRaft controller'', DEBUG)"
| "status_level NO_CLUSTER_UUID = (WaitingStatus ''waiting for cluster uuid'', DEBUG)"
| "status_level NO_BOOTSTRAP_CONTROLLER = (WaitingStatus ''waiting for bootstrap controller'', DEBUG)"
| "status_level MISSING_CONTROLLER_PASSWORD =
     (WaitingStatus ''waiting for controller user credentials'', DEBUG)"
| "status_level BROKER_NOT_CONNECTED = (BlockedStatus ''unit not connected to the controller'', ERROR)"
| "status_level ADDED_STORAGE =
     (ActiveStatus ''manual partition reassignment may be needed to utilize new storage volumes'',
      WARNING)"
| "status_level REMOVED_STORAGE =
     (ActiveStatus ''manual partition reassignment from replicated brokers recommended due to lost partitions on removed storage volumes'',
      ERROR)"
| "status_level REMOVED_STORAGE_NO_REPL =
     (ActiveStatus ''potential data loss due to storage removal without replication'', ERROR)"
| "status_level NO_BROKER_CREDS = (WaitingStatus ''internal broker credentials not yet added'', DEBUG)"
| "status_level NO_CERT = (WaitingStatus ''unit waiting for signed certificates'', INFO)"
| "status_level NO_INTERNAL_TLS = (WaitingStatus ''waiting for internal TLS setup'', INFO)"
| "status_level NO_PEER_CLUSTER_CA = (WaitingStatus ''waiting for peer-cluster TLS setup'', INFO)"
| "status_level MTLS_REQUIRES_TLS =
     (BlockedStatus ''can't setup mTLS client without a TLS relation first.'', ERROR)"
| "status_level INVALID_CLIENT_CERTIFICATE =
     (BlockedStatus ''mTLS client's certificate is not a valid leaf certificate.'', ERROR)"
| "status_level SYSCONF_NOT_OPTIMAL =
     (ActiveStatus ''machine system settings are not optimal - see logs for info'', WARNING)"
| "status_level SYSCONF_NOT_POSSIBLE =
     (BlockedStatus ''sysctl params cannot be set. Is the machine running on a container?'', WARNING)"
| "status_level NOT_IMPLEMENTED = (BlockedStatus ''feature not yet implemented'', WARNING)"
| "status_level NO_BALANCER_RELATION = (MaintenanceStatus ''no balancer relation yet'', DEBUG)"
| "status_level NO_BROKER_DATA = (MaintenanceStatus ''missing broker data'', DEBUG)"
| "status_level NOT_ENOUGH_BROKERS = (WaitingStatus ''waiting for 3 online brokers'', DEBUG)"
| "status_level WAITING_FOR_REBALANCE = (WaitingStatus ''awaiting completion of rebalance task'', DEBUG)"
| "status_level SCALING_WARNING =
     (MaintenanceStatus ''Apache Kafka cluster is scaling, it is advised to postpone potentially disruptive actions like refresh.'',
      WARNING)"


section \<open>Facts about the port table\<close>

lemma supported_auth_iff:
  "supported_auth a \<longleftrightarrow>
     a \<in> {(SASL_PLAINTEXT, SCRAM_SHA_512), (SASL_SSL, SCRAM_SHA_512), (SSL, SSL_MECH),
          (SASL_PLAINTEXT, OAUTHBEARER), (SASL_SSL, OAUTHBEARER)}"
  by (auto simp: supported_auth_def SECURITY_PROTOCOL_PORTS_def keys_def simp del: set_keys)

lemma ports_of_simps [simp]:
  "ports_of (SASL_PLAINTEXT, SCRAM_SHA_512) = Inr (mk_ports 9092 19092 29092 9097)"
  "ports_of (SASL_SSL, SCRAM_SHA_512) = Inr (mk_ports 9093 19093 29093 9098)"
  "ports_of (SSL, SSL_MECH) = Inr (mk_ports 9094 19094 29094 19194)"
  "ports_of (SASL_PLAINTEXT, OAUTHBEARER) = Inr (mk_ports 9095 19095 29095 19195)"
  "ports_of (SASL_SSL, OAUTHBEARER) = Inr (mk_ports 9096 19096 29096 19196)"
  by (simp_all add: ports_of_def SECURITY_PROTOCOL_PORTS_def)

lemma mk_ports_sel [simp]:
  "client_port (mk_ports c i e k) = c" "internal_port (mk_ports c i e k) = i"
  "external_port (mk_ports c i e k) = e" "controller_port (mk_ports c i e k) = k"
  "extra_port (mk_ports c i e k) = 0"
  by (simp_all add: mk_ports_def)

lemma protocol_str_inject [simp]: "protocol_str p = protocol_str q \<longleftrightarrow> p = q"
  by (cases p; cases q) simp_all

lemma mechanism_str_inject [simp]: "mechanism_str p = mechanism_str q \<longleftrightarrow> p = q"
  by (cases p; cases q) simp_all

lemma listener_scope_str_inject [simp]: "listener_scope_str p = listener_scope_str q \<longleftrightarrow> p = q"
  by (cases p; cases q) simp_all

end
