(* ===== verification/Structured_Config.thy ===== *)
theory Structured_Config
  imports Literals "HOL-Library.Word"
begin

text \<open>
  \<^verbatim>\<open>src/core/structured_config.py\<close>: the charm's configuration record and the validators of
  its fields. A validator returns the accepted value or the exception it raises; a field
  with several validators runs them in the order the class declares them. The coercion of
  the raw Juju value to the field's type is the pydantic library's and happens before.
\<close>

section \<open>The configuration\<close>

record charm_config =
  compression_type :: string
  log_flush_interval_messages :: int
  log_flush_interval_ms :: "int option"
  log_flush_offset_checkpoint_interval_ms :: int
  log_retention_bytes :: int
  log_retention_ms :: int
  log_segment_bytes :: int
  message_max_bytes :: int
  offsets_topic_num_partitions :: int
  transaction_state_log_num_partitions :: int
  unclean_leader_election_enable :: bool
  log_cleaner_delete_retention_ms :: int
  log_cleaner_min_compaction_lag_ms :: int
  log_cleanup_policy :: string
  log_message_timestamp_type :: string
  ssl_cipher_suites :: "string option"
  ssl_principal_mapping_rules :: string
  replication_quota_window_num :: int
  cfg_roles :: string
  profile :: string
  certificate_extra_sans :: "string list"
  cfg_extra_listeners :: "string list"
  expose_external :: "string option"
  cfg_log_level :: string
  network_bandwidth :: int
  cruisecontrol_balance_threshold :: string
  cruisecontrol_capacity_threshold :: string
  system_users :: "string option"
  tls_private_key :: "string option"


section \<open>Validators\<close>

definition blank_string :: "string \<Rightarrow> string option" where
  "blank_string value = (if value = [] then None else Some value)"

definition log_cleaner_min_compaction_lag_ms_validator :: "int \<Rightarrow> exn + int" where
  "log_cleaner_min_compaction_lag_ms_validator v =
     (if v \<ge> 0 \<and> v \<le> 1000 * 60 * 60 * 24 * 7 then Inr v else Inl ValueError)"

definition log_cleaner_delete_retention_ms_validator :: "int \<Rightarrow> exn + int" where
  "log_cleaner_delete_retention_ms_validator v =
     (if v > 0 \<and> v \<le> 1000 * 60 * 60 * 24 * 90 then Inr v else Inl ValueError)"

definition between_zero_and_10k :: "int \<Rightarrow> exn + int" where
  "between_zero_and_10k v = (if v \<ge> 0 \<and> v \<le> 10000 then Inr v else Inl ValueError)"

definition greater_than_minus_one :: "int \<Rightarrow> exn + int" where
  "greater_than_minus_one v = (if v < -1 then Inl ValueError else Inr v)"

definition greater_than_one :: "int \<Rightarrow> exn + int" where
  "greater_than_one v = (if v < 1 then Inl ValueError else Inr v)"

definition greater_than_1_mb :: "int \<Rightarrow> exn + int" where
  "greater_than_1_mb v = (if v < 1024 * 1024 then Inl ValueError else Inr v)"

definition greater_than_zero :: "int \<Rightarrow> exn + int" where
  "greater_than_zero v = (if v < 0 then Inl ValueError else Inr v)"

definition integer_value :: "int \<Rightarrow> exn + int" where
  "integer_value v = (if v \<ge> -2147483648 \<and> v \<le> 2147483647 then Inr v else Inl ValueError)"

definition long_value :: "int \<Rightarrow> exn + int" where
  "long_value v =
     (if v \<ge> -9223372036854775807 \<and> v \<le> 9223372036854775808 then Inr v else Inl ValueError)"

definition expose_external_validator :: "string option \<Rightarrow> exn + string option" where
  "expose_external_validator value =
     (if value \<notin> {Some ''false'', Some ''nodeport''} then Inl ValueError
      else if value = Some ''false'' then Inr None
      else Inr value)"

text \<open>
  \<^verbatim>\<open>roles_values\<close>: a Python set of the stripped names; unknown names are refused, the rest
  is stored as a sorted, comma-separated string.
\<close>

definition KNOWN_ROLES :: "string list" where
  "KNOWN_ROLES = [role_value BROKER, role_value BALANCER, role_value CONTROLLER]"

definition roles_values :: "string \<Rightarrow> exn + string" where
  "roles_values value =
     (let roles = remdups (map strip (split_char (CHR '','') value))
      in if filter (\<lambda>r. r \<notin> set KNOWN_ROLES) roles \<noteq> [] then Inl ValueError
         else Inr (join '','' (sort roles)))"

definition certificate_extra_sans_values :: "string \<Rightarrow> string list" where
  "certificate_extra_sans_values value = (if value \<noteq> [] then split_char (CHR '','') value else [])"

text \<open>
  \<^verbatim>\<open>extra_listeners_port_values\<close>: the port of each \<^verbatim>\<open>host:port\<close> entry, then the spacing loop,
  then the uniqueness test.
\<close>

definition listener_port :: "string \<Rightarrow> exn + int" where
  "listener_port l =
     (let p = split_char (CHR '':'') l ! 1
      in if \<not> isdigit p then Inl ValueError
         else (case py_int p of
                 None \<Rightarrow> Inl ValueError
               | Some port \<Rightarrow> if 20000 < port \<and> port < 50000 then Inr port else Inl ValueError))"

fun collect_ports :: "string list \<Rightarrow> exn + int list" where
  "collect_ports [] = Inr []"
| "collect_ports (l # ls) =
     (if CHR '':'' \<notin> set l then collect_ports ls
      else bindE (listener_port l) (\<lambda>p. bindE (collect_ports ls) (\<lambda>ps. Inr (p # ps))))"

fun check_spacing :: "int \<Rightarrow> int list \<Rightarrow> exn + unit" where
  "check_spacing current_port [] = Inr ()"
| "check_spacing current_port (port # ports) =
     (if \<not> (current_port - 100 < port \<and> port > current_port + 100) then Inl ValueError
      else check_spacing port ports)"

definition extra_listeners_port_values :: "string \<Rightarrow> exn + string list" where
  "extra_listeners_port_values value =
     (if value = [] then Inr []
      else
        let listeners = split_char (CHR '','') value
        in bindE (collect_ports listeners) (\<lambda>ports.
           bindE (check_spacing 0 ports) (\<lambda>_.
             if length ports \<noteq> card (set ports) then Inl ValueError else Inr listeners)))"

text \<open>
  \<^verbatim>\<open>SECRET_REGEX.match\<close>: \<^verbatim>\<open>secret:[a-z0-9]{20}\<close> at the start of the value; nothing is said
  about what follows.
\<close>

definition secret_char :: "char \<Rightarrow> bool" where
  "secret_char c \<longleftrightarrow> is_digit c \<or> (97::nat) \<le> of_char c \<and> of_char c \<le> (122::nat)"

definition secret_regex_match :: "string \<Rightarrow> bool" where
  "secret_regex_match s \<longleftrightarrow>
     startswith s ''secret:'' \<and> length s \<ge> 27 \<and> (\<forall>c \<in> set (take 20 (drop 7 s)). secret_char c)"

definition secret_validator :: "string option \<Rightarrow> exn + string" where
  "secret_validator value =
     (case value of
        None \<Rightarrow> Inr ''''
      | Some v \<Rightarrow> if v = '''' then Inr '''' else if secret_regex_match v then Inr v else Inl ValueError)"


section \<open>Fields with several validators\<close>

definition validate_offsets_topic_num_partitions :: "int \<Rightarrow> exn + int" where
  "validate_offsets_topic_num_partitions v =
     bindE (between_zero_and_10k v) (\<lambda>v. bindE (greater_than_one v) integer_value)"

definition validate_log_segment_bytes :: "int \<Rightarrow> exn + int" where
  "validate_log_segment_bytes v = bindE (greater_than_1_mb v) integer_value"

definition validate_message_max_bytes :: "int \<Rightarrow> exn + int" where
  "validate_message_max_bytes v = bindE (greater_than_zero v) integer_value"

definition validate_log_flush_interval_messages :: "int \<Rightarrow> exn + int" where
  "validate_log_flush_interval_messages v = bindE (greater_than_one v) long_value"

definition validate_log_retention_bytes :: "int \<Rightarrow> exn + int" where
  "validate_log_retention_bytes v = bindE (greater_than_minus_one v) long_value"

definition validate_log_cleaner_delete_retention_ms :: "int \<Rightarrow> exn + int" where
  "validate_log_cleaner_delete_retention_ms v =
     bindE (log_cleaner_delete_retention_ms_validator v) long_value"

definition validate_log_cleaner_min_compaction_lag_ms :: "int \<Rightarrow> exn + int" where
  "validate_log_cleaner_min_compaction_lag_ms v =
     bindE (log_cleaner_min_compaction_lag_ms_validator v) long_value"

definition validate_replication_quota_window_num :: "int \<Rightarrow> exn + int" where
  "validate_replication_quota_window_num v = bindE (greater_than_one v) integer_value"

lemmas numeric_validators =
  log_cleaner_min_compaction_lag_ms_validator_def log_cleaner_delete_retention_ms_validator_def
  between_zero_and_10k_def greater_than_minus_one_def greater_than_one_def greater_than_1_mb_def
  greater_than_zero_def integer_value_def long_value_def
  validate_offsets_topic_num_partitions_def validate_log_segment_bytes_def
  validate_message_max_bytes_def validate_log_flush_interval_messages_def
  validate_log_retention_bytes_def validate_log_cleaner_delete_retention_ms_def
  validate_log_cleaner_min_compaction_lag_ms_def validate_replication_quota_window_num_def


section \<open>What the validators accept\<close>

lemma check_spacing_iff:
  "check_spacing cur ps = Inr () \<longleftrightarrow> sorted_wrt (\<lambda>a b. a + 100 < b) (cur # ps)"
proof (induction ps arbitrary: cur)
  case Nil
  show ?case by simp
next
  case (Cons p ps)
  have "check_spacing cur (p # ps) = Inr () \<longleftrightarrow> cur + 100 < p \<and> check_spacing p ps = Inr ()"
    by auto
  also have "\<dots> \<longleftrightarrow> cur + 100 < p \<and> sorted_wrt (\<lambda>a b. a + 100 < b) (p # ps)"
    by (simp only: Cons.IH)
  also have "\<dots> \<longleftrightarrow> sorted_wrt (\<lambda>a b. a + 100 < b) (cur # p # ps)"
    by fastforce
  finally show ?case .
qed

lemma spaced_distinct: "sorted_wrt (\<lambda>a b. a + (100::int) < b) ps \<Longrightarrow> distinct ps"
  by (induction ps) fastforce+

lemma collect_ports_range: "collect_ports ls = Inr ps \<Longrightarrow> p \<in> set ps \<Longrightarrow> 20000 < p \<and> p < 50000"
  by (induction ls arbitrary: ps)
    (auto simp: bindE_Inr listener_port_def Let_def split: if_splits option.splits)

lemma extra_listeners_port_values_iff:
  assumes "value \<noteq> []"
  shows "extra_listeners_port_values value = Inr ls \<longleftrightarrow>
    ls = split_char (CHR '','') value \<and>
    (\<exists>ports. collect_ports ls = Inr ports \<and> sorted_wrt (\<lambda>a b. a + 100 < b) (0 # ports))"
proof -
  have unique: "length ports = card (set ports)" if "check_spacing 0 ports = Inr ()" for ports
  proof -
    from that have "distinct (0 # ports)"
      using check_spacing_iff spaced_distinct by blast
    then show ?thesis by (simp add: distinct_card)
  qed
  have "extra_listeners_port_values value = Inr ls \<longleftrightarrow>
      ls = split_char (CHR '','') value \<and>
      (\<exists>ports. collect_ports ls = Inr ports \<and> check_spacing 0 ports = Inr ())"
    using assms unique by (auto simp: extra_listeners_port_values_def Let_def bindE_Inr)
  then show ?thesis by (simp only: check_spacing_iff)
qed



text \<open>The bounds of the numeric options that have several validators. Partition counts lie
  between 1 and 10000, segment sizes between 1 MiB and the largest 32-bit integer, message
  sizes between 0 and the largest 32-bit integer, retention times within 7 and 90 days, and
  an accepted value is stored unchanged.
\<close>

theorem numeric_options_accepted_iff:
  "(validate_offsets_topic_num_partitions v = Inr w \<longleftrightarrow> w = v \<and> 1 \<le> v \<and> v \<le> 10000)
   \<and> (validate_log_segment_bytes v = Inr w \<longleftrightarrow> w = v \<and> 2 ^ 20 \<le> v \<and> v < 2 ^ 31)
   \<and> (validate_message_max_bytes v = Inr w \<longleftrightarrow> w = v \<and> 0 \<le> v \<and> v < 2 ^ 31)
   \<and> (validate_replication_quota_window_num v = Inr w \<longleftrightarrow> w = v \<and> 1 \<le> v \<and> v < 2 ^ 31)
   \<and> (validate_log_cleaner_delete_retention_ms v = Inr w \<longleftrightarrow> w = v \<and> 0 < v \<and> v \<le> 7776000000)
   \<and> (validate_log_cleaner_min_compaction_lag_ms v = Inr w \<longleftrightarrow>
        w = v \<and> 0 \<le> v \<and> v \<le> 604800000)"
  by (auto simp: numeric_validators bindE_Inr split: if_splits)

lemma sint_word_of_int_64:
  "sint (word_of_int v :: 64 word) = v \<longleftrightarrow> - (2 ^ 63) \<le> v \<and> v < 2 ^ 63"
  by (simp add: sint_sbintrunc' signed_take_bit_int_eq_self_iff)




section \<open>Roles\<close>

definition SORTED_ROLES :: "string list" where
  "SORTED_ROLES = [''balancer'', ''broker'', ''controller'']"

lemma set_KNOWN_ROLES: "set KNOWN_ROLES = set SORTED_ROLES"
  by (auto simp: KNOWN_ROLES_def SORTED_ROLES_def BROKER_def BALANCER_def CONTROLLER_def)

lemma sorted_SORTED_ROLES: "sorted SORTED_ROLES" "distinct SORTED_ROLES"
  by (simp_all add: SORTED_ROLES_def less_eq_list_code less_char_def less_eq_char_def)

lemma roles_values_Inr:
  assumes "roles_values value = Inr r"
  defines "given \<equiv> set (map strip (split_char (CHR '','') value))"
  shows "given \<subseteq> set SORTED_ROLES \<and> given \<noteq> {}
    \<and> r = join '','' (filter (\<lambda>x. x \<in> given) SORTED_ROLES)"
proof -
  let ?roles = "remdups (map strip (split_char (CHR '','') value))"
  from assms(1) have known: "filter (\<lambda>r. r \<notin> set KNOWN_ROLES) ?roles = []"
    and r: "r = join '','' (sort ?roles)"
    by (auto simp: roles_values_def Let_def split: if_splits)
  have given: "given = set ?roles" by (simp add: given_def)
  with known have sub: "given \<subseteq> set SORTED_ROLES"
    by (auto simp: filter_empty_conv set_KNOWN_ROLES)
  have "sort ?roles = filter (\<lambda>x. x \<in> given) SORTED_ROLES"
  proof (rule sorted_distinct_set_unique)
    show "sorted (filter (\<lambda>x. x \<in> given) SORTED_ROLES)"
      using sorted_filter [of id] sorted_SORTED_ROLES(1) by simp
    show "set (sort ?roles) = set (filter (\<lambda>x. x \<in> given) SORTED_ROLES)"
      using sub given by auto
  qed (simp_all add: sorted_SORTED_ROLES)
  with r sub show ?thesis by (simp add: given_def)
qed

lemma role_strings:
  assumes "S \<subseteq> set SORTED_ROLES" and "S \<noteq> {}"
  shows "join '','' (filter (\<lambda>x. x \<in> S) SORTED_ROLES) \<in>
    {''balancer'', ''broker'', ''controller'', ''balancer,broker'', ''balancer,controller'',
     ''broker,controller'', ''balancer,broker,controller''}"
  using assms
  by (cases "''balancer'' \<in> S"; cases "''broker'' \<in> S"; cases "''controller'' \<in> S")
    (auto simp: SORTED_ROLES_def)

lemma role_string_members:
  "S \<subseteq> set SORTED_ROLES \<Longrightarrow> x \<in> set SORTED_ROLES \<Longrightarrow>
     contains x (join '','' (filter (\<lambda>x. x \<in> S) SORTED_ROLES)) \<longleftrightarrow> x \<in> S"
  by (cases "''balancer'' \<in> S"; cases "''broker'' \<in> S"; cases "''controller'' \<in> S")
    (auto simp: SORTED_ROLES_def)

lemma roles_values_fixed:
  "r \<in> {''balancer'', ''broker'', ''controller'', ''balancer,broker'', ''balancer,controller'',
     ''broker,controller'', ''balancer,broker,controller''} \<Longrightarrow> roles_values r = Inr r"
  by (auto simp: roles_values_def Let_def KNOWN_ROLES_def BROKER_def BALANCER_def CONTROLLER_def
      strip_def rstrip_by_def lstrip_by_def is_space_def less_eq_list_code
      less_eq_char_def less_char_def)

text \<open>An accepted \<^verbatim>\<open>roles\<close> setting is stored in a canonical form: validating it again
  changes nothing, and a role's name occurs in the stored string as a substring exactly when
  it was one of the names given. The charm decides what it runs by such substring tests.
\<close>

theorem roles_values_canonical:
  assumes "roles_values value = Inr r"
  shows "roles_values r = Inr r
    \<and> (\<forall>x \<in> set KNOWN_ROLES.
         contains x r \<longleftrightarrow> x \<in> set (map strip (split_char (CHR '','') value)))"
proof -
  note r = roles_values_Inr [OF assms]
  then have "roles_values r = Inr r"
    using role_strings roles_values_fixed by blast
  moreover have "contains x r \<longleftrightarrow> x \<in> set (map strip (split_char (CHR '','') value))"
    if "x \<in> set KNOWN_ROLES" for x
    using r role_string_members [of _ x] that unfolding set_KNOWN_ROLES by blast
  ultimately show ?thesis by blast
qed

theorem roles_values_canonical_witness:
  "roles_values ''controller, broker'' = Inr ''broker,controller''
   \<and> contains ''broker'' ''broker,controller''"
proof -
  have 1: "roles_values ''controller, broker'' = Inr ''broker,controller''"
    by (simp add: roles_values_def Let_def KNOWN_ROLES_def BROKER_def BALANCER_def CONTROLLER_def
        strip_def rstrip_by_def lstrip_by_def is_space_def less_eq_list_code
        less_eq_char_def less_char_def)
  have "''broker'' \<in> set KNOWN_ROLES" by (simp add: KNOWN_ROLES_def BROKER_def)
  with 1 roles_values_canonical [OF 1] show ?thesis
    by (simp add: strip_def rstrip_by_def lstrip_by_def is_space_def)
qed

end
