(* ===== verification/Rolling_Ops.thy ===== *)
theory Rolling_Ops
  imports Kafka_Prelude
begin

text \<open>
  The rolling-restart lock of \<^verbatim>\<open>lib/charms/rolling_ops/v0/rollingops.py\<close>, which the charm uses
  to restart one broker at a time. Every unit publishes \<^verbatim>\<open>acquire\<close> or \<^verbatim>\<open>release\<close> in its own
  databag of the peer relation; the leader answers with \<^verbatim>\<open>granted\<close> or \<^verbatim>\<open>idle\<close> in the
  application databag. A hook of one unit is one atomic step on these databags, and an event
  emitted inside a hook runs its observer at once. The callback is the charm's restart; all
  that matters of it here is whether it defers its event, which \<open>cb\<close> says.
\<close>

section \<open>Locks\<close>

datatype lock_state = ACQUIRE | RELEASE | GRANTED | IDLE

record rolling =
  unit_lock :: "string \<Rightarrow> lock_state"
  app_lock :: "string \<Rightarrow> lock_state"
  callback_override :: "string \<Rightarrow> string"
  lock_units :: "string list"
  lead :: string
  deferred_runs :: "string \<Rightarrow> nat"
  run_log :: "(string \<times> string list) list"

text \<open>The state of a lock, from both databags.\<close>

definition lock_state_of :: "rolling \<Rightarrow> string \<Rightarrow> lock_state" where
  "lock_state_of s u =
     (if app_lock s u = GRANTED \<and> unit_lock s u = RELEASE then RELEASE
      else if app_lock s u = IDLE \<and> unit_lock s u = ACQUIRE then ACQUIRE
      else app_lock s u)"

definition set_lock_state :: "string \<Rightarrow> lock_state \<Rightarrow> rolling \<Rightarrow> rolling" where
  "set_lock_state u st s =
     (if st = ACQUIRE \<or> st = RELEASE then s\<lparr>unit_lock := (unit_lock s)(u := st)\<rparr>
      else s\<lparr>app_lock := (app_lock s)(u := st)\<rparr>)"

definition acquire :: "string \<Rightarrow> rolling \<Rightarrow> rolling" where
  "acquire u = set_lock_state u ACQUIRE"

definition release :: "string \<Rightarrow> rolling \<Rightarrow> rolling" where
  "release u = set_lock_state u RELEASE"

definition clear :: "string \<Rightarrow> rolling \<Rightarrow> rolling" where
  "clear u = set_lock_state u IDLE"

definition grant :: "string \<Rightarrow> rolling \<Rightarrow> rolling" where
  "grant u = set_lock_state u GRANTED"

definition is_held :: "rolling \<Rightarrow> string \<Rightarrow> bool" where
  "is_held s u \<longleftrightarrow> lock_state_of s u = GRANTED"

definition release_requested :: "rolling \<Rightarrow> string \<Rightarrow> bool" where
  "release_requested s u \<longleftrightarrow> lock_state_of s u = RELEASE"

definition is_pending :: "rolling \<Rightarrow> string \<Rightarrow> bool" where
  "is_pending s u \<longleftrightarrow> lock_state_of s u = ACQUIRE"

text \<open>\<^verbatim>\<open>Locks\<close> yields the other units of the relation and then this unit.\<close>

definition lock_order :: "string \<Rightarrow> rolling \<Rightarrow> string list" where
  "lock_order me s = filter (\<lambda>u. u \<noteq> me) (lock_units s) @ [me]"

lemmas lock_defs = lock_state_of_def set_lock_state_def acquire_def release_def clear_def grant_def
  is_held_def release_requested_def is_pending_def


section \<open>Handlers\<close>

text \<open>The methods of \<^verbatim>\<open>KafkaCharm\<close> that \<^verbatim>\<open>getattr(self.charm, callback_name)\<close> can find.\<close>

definition CHARM_METHODS :: "string list" where
  "CHARM_METHODS =
     [''_on_roles_changed'', ''_restart_broker'', ''_set_status'', ''_on_collect_status'',
      ''_determine_unit_status'', ''_handle_refresh_coordination'', ''_is_workload_healthy'']"

definition callback_name :: "rolling \<Rightarrow> string \<Rightarrow> string" where
  "callback_name s u =
     (if callback_override s u = [] then ''_restart_broker'' else callback_override s u)"

definition granted_units :: "rolling \<Rightarrow> string list" where
  "granted_units s = filter (\<lambda>u. app_lock s u = GRANTED) (lock_units s)"

text \<open>
  The first half of \<^verbatim>\<open>_on_run_with_lock\<close>: look the callback up, run it (a deferral keeps the
  event for the unit's next hook), and ask for the lock's release. The run is logged with
  the units that hold a grant at that moment.
\<close>

definition run_callback :: "(rolling \<Rightarrow> string \<Rightarrow> bool) \<Rightarrow> string \<Rightarrow> rolling \<Rightarrow> exn + rolling" where
  "run_callback cb me s =
     (if callback_name s me \<notin> set CHARM_METHODS then Inl AttributeError
      else
        let s = s\<lparr>run_log := run_log s @ [(me, granted_units s)],
                  deferred_runs := (deferred_runs s)(me := deferred_runs s me + (if cb s me then 1 else 0))\<rparr>
        in Inr (release me s))"

fun scan_locks :: "string \<Rightarrow> string list \<Rightarrow> string list \<Rightarrow> rolling \<Rightarrow> rolling \<times> string list option" where
  "scan_locks me [] pending s = (s, Some pending)"
| "scan_locks me (u # us) pending s =
     (if is_held s u then (s, None)
      else
        let s = (if release_requested s u then clear u s else s)
        in if is_pending s u
           then scan_locks me us (if u = me then u # pending else pending @ [u]) s
           else scan_locks me us pending s)"

text \<open>
  \<^verbatim>\<open>_on_process_locks\<close> on the leader, with the leader's own \<^verbatim>\<open>run_with_lock\<close> nested in it.
\<close>

function process_locks :: "(rolling \<Rightarrow> string \<Rightarrow> bool) \<Rightarrow> string \<Rightarrow> rolling \<Rightarrow> exn + rolling" where
  "process_locks cb me s =
     (if me \<noteq> lead s then Inr s
      else case scan_locks me (lock_order me s) [] s of
        (s', None) \<Rightarrow> Inr s'
      | (s', Some pending) \<Rightarrow>
          if pending = [] then Inr s'
          else
            let u = last pending; s1 = grant u s'
            in if u = me
               then bindE (run_callback cb me s1) (\<lambda>s2.
                    bindE (process_locks cb me s2) (\<lambda>s3.
                      Inr (s3\<lparr>callback_override := (callback_override s3)(me := [])\<rparr>)))
               else Inr s1)"
  by pat_completeness auto

lemma scan_unit_lock:
  "scan_locks me us pending s = (s', r) \<Longrightarrow> unit_lock s' = unit_lock s"
  by (induction me us pending s rule: scan_locks.induct)
    (auto simp: Let_def lock_defs split: if_splits)

definition wants_lock :: "rolling \<Rightarrow> string \<Rightarrow> bool" where
  "wants_lock s u \<longleftrightarrow> unit_lock s u = ACQUIRE \<or> app_lock s u = ACQUIRE"

lemma scan_pending_wants:
  assumes "scan_locks me us pending s = (s', Some ps)"
    and "\<forall>u \<in> set pending. wants_lock s0 u"
    and "\<forall>u. wants_lock s u \<longrightarrow> wants_lock s0 u"
  shows "\<forall>u \<in> set ps. wants_lock s0 u"
  using assms
proof (induction me us pending s rule: scan_locks.induct)
  case (2 me u us pending s)
  let ?s = "if release_requested s u then clear u s else s"
  have le: "\<forall>v. wants_lock ?s v \<longrightarrow> wants_lock s0 v"
    using "2.prems"(3) by (auto simp: wants_lock_def lock_defs split: if_splits)
  show ?case
  proof (cases "is_held s u")
    case True
    with "2.prems" show ?thesis by simp
  next
    case held: False
    show ?thesis
    proof (cases "is_pending ?s u")
      case True
      then have "wants_lock ?s u" by (auto simp: lock_defs wants_lock_def split: if_splits)
      with le have "wants_lock s0 u" by blast
      with "2.prems"(2) have "\<forall>v \<in> set (if u = me then u # pending else pending @ [u]). wants_lock s0 v"
        by auto
      moreover from "2.prems"(1) held True
      have "scan_locks me us (if u = me then u # pending else pending @ [u]) ?s = (s', Some ps)"
        by (simp add: Let_def)
      ultimately show ?thesis using "2.IH"(1) [OF held refl True] le by blast
    next
      case False
      moreover from "2.prems"(1) held False have "scan_locks me us pending ?s = (s', Some ps)"
        by (simp add: Let_def)
      ultimately show ?thesis using "2.IH"(2) [OF held refl False] "2.prems"(2) le by blast
    qed
  qed
qed simp

lemma run_callback_not_wants:
  assumes "run_callback cb me (grant me s) = Inr t"
  shows "\<not> wants_lock t me"
  using assms by (auto simp: run_callback_def Let_def lock_defs wants_lock_def split: if_splits)

termination process_locks
proof (relation "measure (\<lambda>(cb, me, s). if wants_lock s me then 1 else 0)", goal_cases)
  case 1
  show ?case by simp
next
  case (2 cb me s s' r pending u s1 s2)
  then have "me \<in> set pending" using last_in_set [of pending] by simp
  with 2 have "wants_lock s me"
    using scan_pending_wants [of me "lock_order me s" "[]" s s' pending s] by simp
  moreover from 2 have "\<not> wants_lock s2 me" using run_callback_not_wants [of cb me s' s2] by simp
  ultimately show ?case by simp
qed

declare process_locks.simps [simp del]

definition on_run_with_lock :: "(rolling \<Rightarrow> string \<Rightarrow> bool) \<Rightarrow> string \<Rightarrow> rolling \<Rightarrow> exn + rolling" where
  "on_run_with_lock cb me s =
     bindE (run_callback cb me s) (\<lambda>s.
     bindE (process_locks cb me s) (\<lambda>s.
       Inr (s\<lparr>callback_override := (callback_override s)(me := [])\<rparr>)))"

definition on_relation_changed :: "(rolling \<Rightarrow> string \<Rightarrow> bool) \<Rightarrow> string \<Rightarrow> rolling \<Rightarrow> exn + rolling" where
  "on_relation_changed cb me s =
     bindE (if is_held s me then on_run_with_lock cb me s else Inr s) (\<lambda>s. process_locks cb me s)"

definition on_acquire_lock ::
    "(rolling \<Rightarrow> string \<Rightarrow> bool) \<Rightarrow> string \<Rightarrow> string \<Rightarrow> rolling \<Rightarrow> exn + rolling" where
  "on_acquire_lock cb me override s =
     (let s = acquire me s;
          s = s\<lparr>callback_override := (callback_override s)(me := override)\<rparr>
      in on_relation_changed cb me s)"


section \<open>Interleavings\<close>

definition init_rolling :: "string list \<Rightarrow> string \<Rightarrow> rolling" where
  "init_rolling us l =
     \<lparr>unit_lock = (\<lambda>_. IDLE), app_lock = (\<lambda>_. IDLE), callback_override = (\<lambda>_. []),
      lock_units = us, lead = l, deferred_runs = (\<lambda>_. 0), run_log = []\<rparr>"

text \<open>
  One step is a hook of some unit: an acquire request, a relation change, the redelivery of a
  deferred \<^verbatim>\<open>RunWithLock\<close> event, or a change of leadership. \<open>allow\<close> says whether callbacks
  may defer.
\<close>

inductive rolling_step :: "bool \<Rightarrow> rolling \<Rightarrow> rolling \<Rightarrow> bool" for allow where
  step_acquire: "me \<in> set (lock_units s) \<Longrightarrow> \<forall>s u. cb s u \<longrightarrow> allow \<Longrightarrow>
     on_acquire_lock cb me ov s = Inr t \<Longrightarrow> rolling_step allow s t"
| step_changed: "me \<in> set (lock_units s) \<Longrightarrow> \<forall>s u. cb s u \<longrightarrow> allow \<Longrightarrow>
     on_relation_changed cb me s = Inr t \<Longrightarrow> rolling_step allow s t"
| step_redeliver: "me \<in> set (lock_units s) \<Longrightarrow> \<forall>s u. cb s u \<longrightarrow> allow \<Longrightarrow> deferred_runs s me > 0 \<Longrightarrow>
     on_run_with_lock cb me (s\<lparr>deferred_runs := (deferred_runs s)(me := deferred_runs s me - 1)\<rparr>) = Inr t \<Longrightarrow>
     rolling_step allow s t"
| step_leader: "l \<in> set (lock_units s) \<Longrightarrow> rolling_step allow s (s\<lparr>lead := l\<rparr>)"

inductive rolling_reachable :: "bool \<Rightarrow> rolling \<Rightarrow> bool" for allow where
  start: "l \<in> set us \<Longrightarrow> distinct us \<Longrightarrow> rolling_reachable allow (init_rolling us l)"
| step: "rolling_reachable allow s \<Longrightarrow> rolling_step allow s t \<Longrightarrow> rolling_reachable allow t"


section \<open>Mutual exclusion\<close>

text \<open>
  The application databag only ever holds \<^verbatim>\<open>granted\<close> or \<^verbatim>\<open>idle\<close>, and \<^verbatim>\<open>granted\<close> for at most
  one unit of the relation.
\<close>

definition one_grant :: "rolling \<Rightarrow> bool" where
  "one_grant s \<longleftrightarrow>
     distinct (lock_units s) \<and> lead s \<in> set (lock_units s) \<and>
     (\<forall>u. app_lock s u = GRANTED \<or> app_lock s u = IDLE) \<and>
     (\<forall>u v. app_lock s u = GRANTED \<longrightarrow> app_lock s v = GRANTED \<longrightarrow> u = v) \<and>
     (\<forall>u. app_lock s u = GRANTED \<longrightarrow> u \<in> set (lock_units s))"

lemma scan_frame:
  assumes "scan_locks me us pending s = (s', r)"
  shows "s' = s\<lparr>app_lock := app_lock s'\<rparr>"
    and "app_lock s' u = app_lock s u \<or> app_lock s' u = IDLE"
proof -
  have "s' = s\<lparr>app_lock := app_lock s'\<rparr> \<and>
        (app_lock s' u = app_lock s u \<or> app_lock s' u = IDLE)"
    using assms
  proof (induction me us pending s arbitrary: s' r rule: scan_locks.induct)
    case (2 me v us pending s)
    let ?s = "if release_requested s v then clear v s else s"
    have frame: "?s = s\<lparr>app_lock := app_lock ?s\<rparr>"
      "app_lock ?s u = app_lock s u \<or> app_lock ?s u = IDLE"
      by (auto simp: lock_defs split: if_splits)
    show ?case
    proof (cases "is_held s v")
      case True
      with "2.prems" show ?thesis by auto
    next
      case False
      then have rest: "s' = ?s\<lparr>app_lock := app_lock s'\<rparr> \<and>
          (app_lock s' u = app_lock ?s u \<or> app_lock s' u = IDLE)"
        using "2.IH"(1) [OF False refl, of s' r] "2.IH"(2) [OF False refl, of s' r] "2.prems"
        by (cases "is_pending ?s v") (simp_all add: Let_def)
      from frame(1) obtain f where "?s = s\<lparr>app_lock := f\<rparr>" by blast
      with rest have "s' = s\<lparr>app_lock := f\<rparr>\<lparr>app_lock := app_lock s'\<rparr>" by metis
      then have "s' = s\<lparr>app_lock := app_lock s'\<rparr>" by simp
      with rest frame(2) show ?thesis by metis
    qed
  qed auto
  then show "s' = s\<lparr>app_lock := app_lock s'\<rparr>"
    and "app_lock s' u = app_lock s u \<or> app_lock s' u = IDLE" by blast+
qed

text \<open>A completed scan leaves no grant among the units it visited.\<close>

lemma scan_clears:
  assumes "scan_locks me us pending s = (s', Some ps)" and "u \<in> set us"
  shows "app_lock s' u \<noteq> GRANTED"
  using assms
proof (induction me us pending s arbitrary: s' ps rule: scan_locks.induct)
  case (2 me v us pending s)
  let ?s = "if release_requested s v then clear v s else s"
  from "2.prems"(1) have held: "\<not> is_held s v" by (auto split: if_splits)
  then have v: "app_lock ?s v \<noteq> GRANTED" by (auto simp: lock_defs split: if_splits)
  from "2.prems"(1) held obtain p where p: "scan_locks me us p ?s = (s', Some ps)"
    by (cases "is_pending ?s v") (auto simp: Let_def)
  then have "app_lock s' v \<noteq> GRANTED" using scan_frame(2) [OF p, of v] v by auto
  moreover have "u \<in> set us \<Longrightarrow> app_lock s' u \<noteq> GRANTED"
    using "2.IH" [OF held refl] "2.prems"(1) held
    by (cases "is_pending ?s v") (auto simp: Let_def)
  ultimately show ?case using "2.prems"(2) by auto
qed simp

lemma one_grant_scan:
  assumes "one_grant s" and "scan_locks me us pending s = (s', r)"
  shows "one_grant s'"
proof -
  note f = scan_frame [OF assms(2)]
  have "lock_units s' = lock_units s" "lead s' = lead s"
    using f(1) by (metis rolling.select_convs rolling.surjective rolling.update_convs(2))+
  moreover have "app_lock s' u = GRANTED \<Longrightarrow> app_lock s u = GRANTED" for u using f(2) [of u] by auto
  moreover have "app_lock s' u = GRANTED \<or> app_lock s' u = IDLE" for u
    using f(2) [of u] assms(1) by (auto simp: one_grant_def)
  ultimately show ?thesis using assms(1) unfolding one_grant_def by metis
qed

lemma one_grant_run:
  assumes "one_grant s" and "run_callback cb me s = Inr t"
  shows "one_grant t"
  using assms by (auto simp: one_grant_def run_callback_def Let_def lock_defs split: if_splits)

lemma one_grant_override:
  "one_grant (s\<lparr>callback_override := f\<rparr>) = one_grant s"
  "one_grant (s\<lparr>deferred_runs := g\<rparr>) = one_grant s"
  by (simp_all add: one_grant_def)

lemma scan_units: "scan_locks me us pending s = (s', r) \<Longrightarrow> lock_units s' = lock_units s"
  using scan_frame(1) by (metis rolling.select_convs(4) rolling.surjective rolling.update_convs(2))

lemma scan_pending_units:
  assumes "scan_locks me us pending s = (s', Some ps)"
  shows "set ps \<subseteq> set pending \<union> set us"
  using assms
  by (induction me us pending s rule: scan_locks.induct) (auto simp: Let_def split: if_splits)

lemma one_grant_grant:
  assumes "one_grant s" and "scan_locks me (lock_order me s) [] s = (s', Some ps)" and "ps \<noteq> []"
    and "me \<in> set (lock_units s)"
  shows "one_grant (grant (last ps) s')"
proof -
  have "\<forall>u \<in> set (lock_units s'). app_lock s' u \<noteq> GRANTED"
    using scan_clears [OF assms(2)] scan_units [OF assms(2)] by (auto simp: lock_order_def)
  moreover have "last ps \<in> set (lock_units s')"
    using scan_pending_units [OF assms(2)] scan_units [OF assms(2)] assms(4) last_in_set [OF assms(3)]
    by (auto simp: lock_order_def)
  ultimately show ?thesis using one_grant_scan [OF assms(1,2)]
    by (simp add: one_grant_def grant_def set_lock_state_def) metis
qed

lemma process_locks_cases:
  assumes "process_locks cb me s = Inr t"
  obtains (stop) s' r where "scan_locks me (lock_order me s) [] s = (s', r)" "t = s \<or> t = s'"
  | (other) s' ps where "me = lead s" "scan_locks me (lock_order me s) [] s = (s', Some ps)" "ps \<noteq> []"
      "last ps \<noteq> me" "t = grant (last ps) s'"
  | (self) s' ps s2 s3 where "me = lead s" "scan_locks me (lock_order me s) [] s = (s', Some ps)" "ps \<noteq> []"
      "last ps = me" "run_callback cb me (grant me s') = Inr s2" "process_locks cb me s2 = Inr s3"
      "t = s3\<lparr>callback_override := (callback_override s3)(me := [])\<rparr>"
proof -
  obtain s' r where scan: "scan_locks me (lock_order me s) [] s = (s', r)" by fastforce
  note eq = assms [unfolded process_locks.simps [of cb me s]]
  show thesis
  proof (cases "me = lead s \<and> r \<noteq> None \<and> r \<noteq> Some []")
    case False
    with eq scan stop [OF scan] show thesis by (auto split: if_splits option.splits)
  next
    case True
    then obtain ps where r: "r = Some ps" "ps \<noteq> []" by auto
    from True have me: "me = lead s" by simp
    show thesis
    proof (cases "last ps = me")
      case False
      with eq scan r me have "t = grant (last ps) s'" by (simp add: Let_def split: if_splits)
      with False other [OF me] scan r show thesis by simp
    next
      case last: True
      with eq me have "bindE (run_callback cb me (grant me s')) (\<lambda>s2. bindE (process_locks cb me s2) (\<lambda>s3.
          Inr (s3\<lparr>callback_override := (callback_override s3)(me := [])\<rparr>))) = Inr t"
        unfolding scan using r by (simp add: Let_def)
      with self [OF me _ r(2) last] scan r show thesis by (auto simp: bindE_Inr)
    qed
  qed
qed

lemma one_grant_process:
  assumes "one_grant s" and "process_locks cb me s = Inr t"
  shows "one_grant t"
  using assms
proof (induction cb me s arbitrary: t rule: process_locks.induct)
  case (1 cb me s)
  from "1.prems"(2) show ?case
  proof (cases rule: process_locks_cases)
    case (stop s' r)
    with "1.prems"(1) one_grant_scan show ?thesis by blast
  next
    case (other s' ps)
    with "1.prems"(1) one_grant_grant [OF "1.prems"(1)] show ?thesis by (auto simp: one_grant_def)
  next
    case (self s' ps s2 s3)
    with "1.prems"(1) one_grant_grant [OF "1.prems"(1) self(2,3)] have "one_grant (grant me s')"
      by (simp add: one_grant_def)
    then have "one_grant s2" using one_grant_run self(5) by blast
    with self have "one_grant s3"
      using "1.IH" [OF _ self(2) [symmetric] refl self(3) refl refl self(4), of s2 s3] by simp
    with self show ?thesis by (simp add: one_grant_override)
  qed
qed

text \<open>
  Runs that happen while their own unit holds the only grant. \<open>sound_log\<close> also records that
  no run is waiting to be redelivered.
\<close>

definition sound_log :: "rolling \<Rightarrow> bool" where
  "sound_log s \<longleftrightarrow> (\<forall>(u, gs) \<in> set (run_log s). gs = [u]) \<and> (\<forall>u. deferred_runs s u = 0)"

lemma granted_units_single:
  assumes "one_grant s" and "app_lock s u = GRANTED"
  shows "granted_units s = [u]"
proof -
  have "filter (\<lambda>v. app_lock s v = GRANTED) (lock_units s) = filter (\<lambda>v. v = u) (lock_units s)"
    using assms by (auto simp: one_grant_def intro!: filter_cong)
  also have "\<dots> = [u]"
    using assms by (intro filter_one) (auto simp: one_grant_def)
  finally show ?thesis by (simp add: granted_units_def)
qed

lemma sound_log_run:
  assumes "one_grant s" and "app_lock s me = GRANTED" and "sound_log s"
    and "\<forall>s u. \<not> cb s u" and "run_callback cb me s = Inr t"
  shows "sound_log t"
  using assms granted_units_single [OF assms(1,2)]
  by (auto simp: sound_log_def run_callback_def Let_def lock_defs split: if_splits)

lemma sound_log_frame:
  "sound_log (s\<lparr>callback_override := f\<rparr>) = sound_log s"
  "sound_log (s\<lparr>app_lock := g\<rparr>) = sound_log s"
  "sound_log (s\<lparr>unit_lock := h\<rparr>) = sound_log s"
  by (simp_all add: sound_log_def)

lemma sound_log_process:
  assumes "one_grant s" and "sound_log s" and "\<forall>s u. \<not> cb s u" and "process_locks cb me s = Inr t"
  shows "sound_log t"
  using assms
proof (induction cb me s arbitrary: t rule: process_locks.induct)
  case (1 cb me s)
  have scan_log: "sound_log s'" if "scan_locks me us ps s = (s', r)" for us ps s' r
    using scan_frame(1) [OF that] "1.prems"(2) by (metis sound_log_frame(2))
  from "1.prems"(4) show ?case
  proof (cases rule: process_locks_cases)
    case (stop s' r)
    with "1.prems"(2) scan_log show ?thesis by blast
  next
    case (other s' ps)
    with scan_log [OF other(2)] show ?thesis by (simp add: grant_def set_lock_state_def sound_log_frame)
  next
    case (self s' ps s2 s3)
    have g: "one_grant (grant me s')"
      using "1.prems"(1) one_grant_grant [OF "1.prems"(1) self(2,3)] self(1,4) by (simp add: one_grant_def)
    have "app_lock (grant me s') me = GRANTED" "sound_log (grant me s')"
      using scan_log [OF self(2)] by (simp_all add: grant_def set_lock_state_def sound_log_frame)
    with sound_log_run [OF g] self(5) "1.prems"(3) have "sound_log s2" by blast
    moreover have "one_grant s2" using one_grant_run g self(5) by blast
    ultimately have "sound_log s3"
      using "1.IH" [OF _ self(2) [symmetric] refl self(3) refl refl self(4), of s2 s3] self(1,4-6) "1.prems"(3)
      by metis
    with self show ?thesis by (simp add: sound_log_frame)
  qed
qed

lemma on_run_with_lock_elim:
  assumes "on_run_with_lock cb me s = Inr t"
  obtains s1 s2 where "run_callback cb me s = Inr s1" "process_locks cb me s1 = Inr s2"
    "t = s2\<lparr>callback_override := (callback_override s2)(me := [])\<rparr>"
  using assms unfolding on_run_with_lock_def bindE_Inr by blast

lemma on_relation_changed_elim:
  assumes "on_relation_changed cb me s = Inr t"
  obtains (run) s1 where "app_lock s me = GRANTED" "on_run_with_lock cb me s = Inr s1" "process_locks cb me s1 = Inr t"
  | (idle) "process_locks cb me s = Inr t"
proof (cases "is_held s me")
  case True
  then have "app_lock s me = GRANTED" by (auto simp: lock_defs split: if_splits)
  with True assms run show thesis unfolding on_relation_changed_def bindE_Inr by auto
next
  case False
  with assms idle show thesis by (simp add: on_relation_changed_def)
qed

lemma one_grant_run_with_lock:
  assumes "one_grant s" and "on_run_with_lock cb me s = Inr t"
  shows "one_grant t"
proof -
  from assms(2) obtain s1 s2 where "run_callback cb me s = Inr s1" "process_locks cb me s1 = Inr s2"
    and t: "t = s2\<lparr>callback_override := (callback_override s2)(me := [])\<rparr>"
    by (rule on_run_with_lock_elim)
  with assms(1) have "one_grant s2" using one_grant_run one_grant_process by blast
  with t show ?thesis by (simp add: one_grant_override)
qed

lemma one_grant_relation_changed:
  assumes "one_grant s" and "on_relation_changed cb me s = Inr t"
  shows "one_grant t"
  using assms(2)
proof (cases rule: on_relation_changed_elim)
  case (run s1)
  then show ?thesis using assms(1) one_grant_run_with_lock one_grant_process by blast
next
  case idle
  then show ?thesis using assms(1) one_grant_process by blast
qed

lemma one_grant_acquire:
  "one_grant (acquire me s\<lparr>callback_override := f\<rparr>) = one_grant s"
  by (simp add: one_grant_def acquire_def set_lock_state_def)

lemma one_grant_step: "rolling_step allow s t \<Longrightarrow> one_grant s \<Longrightarrow> one_grant t"
proof (induction rule: rolling_step.induct)
  case (step_acquire me s cb ov t)
  then show ?case
    using one_grant_relation_changed one_grant_acquire unfolding on_acquire_lock_def Let_def by blast
next
  case (step_changed me s cb t)
  then show ?case using one_grant_relation_changed by blast
next
  case (step_redeliver me s cb t)
  then show ?case using one_grant_run_with_lock by (metis one_grant_override(2))
next
  case (step_leader l s)
  then show ?case by (simp add: one_grant_def)
qed

lemma one_grant_reachable: "rolling_reachable allow s \<Longrightarrow> one_grant s"
proof (induction rule: rolling_reachable.induct)
  case (start l us)
  then show ?case by (simp add: one_grant_def init_rolling_def)
next
  case (step s t)
  then show ?case using one_grant_step by blast
qed

lemma sound_log_run_with_lock:
  assumes "one_grant s" "app_lock s me = GRANTED" "sound_log s" "\<forall>s u. \<not> cb s u"
    and "on_run_with_lock cb me s = Inr t"
  shows "sound_log t"
proof -
  from assms(5) obtain s1 s2 where s1: "run_callback cb me s = Inr s1" and s2: "process_locks cb me s1 = Inr s2"
    and t: "t = s2\<lparr>callback_override := (callback_override s2)(me := [])\<rparr>"
    by (rule on_run_with_lock_elim)
  have "sound_log s2"
    using sound_log_process [OF one_grant_run [OF assms(1) s1] sound_log_run [OF assms(1-4) s1] assms(4) s2] .
  with t show ?thesis by (simp add: sound_log_frame)
qed

lemma sound_log_relation_changed:
  assumes "one_grant s" "sound_log s" "\<forall>s u. \<not> cb s u" and "on_relation_changed cb me s = Inr t"
  shows "sound_log t"
  using assms(4)
proof (cases rule: on_relation_changed_elim)
  case (run s1)
  have "one_grant s1" "sound_log s1"
    using one_grant_run_with_lock sound_log_run_with_lock run(1,2) assms(1-3) by blast+
  then show ?thesis using sound_log_process run(3) assms(3) by blast
next
  case idle
  then show ?thesis using sound_log_process assms(1-3) by blast
qed

lemma sound_log_step:
  assumes "rolling_step False s t" and "one_grant s" and "sound_log s"
  shows "sound_log t"
  using assms(1)
proof (cases rule: rolling_step.cases)
  case (step_acquire me cb ov)
  let ?s = "acquire me s\<lparr>callback_override := (callback_override (acquire me s))(me := ov)\<rparr>"
  have "one_grant ?s" using assms(2) by (simp add: one_grant_acquire)
  moreover have "sound_log ?s" using assms(3) by (simp add: sound_log_def acquire_def set_lock_state_def)
  ultimately show ?thesis
    using step_acquire(2,3) sound_log_relation_changed unfolding on_acquire_lock_def Let_def by blast
next
  case (step_changed me cb)
  then show ?thesis using sound_log_relation_changed assms(2,3) by blast
next
  case (step_redeliver me cb)
  then show ?thesis using assms(3) by (simp add: sound_log_def)
next
  case (step_leader l)
  then show ?thesis using assms(3) by (simp add: sound_log_def)
qed

lemma sound_log_reachable: "rolling_reachable False s \<Longrightarrow> sound_log s"
proof (induction rule: rolling_reachable.induct)
  case (start l us)
  then show ?case by (simp add: sound_log_def init_rolling_def)
next
  case (step s t)
  then show ?case using sound_log_step one_grant_reachable by blast
qed


section \<open>Properties\<close>

text \<open>Evaluation of concrete hooks: the scrutinee first.\<close>

lemma bindE_weak_cong: "r = r' \<Longrightarrow> bindE r f = bindE r' f"
  by simp

lemmas rolling_eval = on_acquire_lock_def on_relation_changed_def on_run_with_lock_def process_locks.simps
  run_callback_def lock_defs lock_order_def init_rolling_def callback_name_def CHARM_METHODS_def granted_units_def

text \<open>C5: whatever hooks the units run in whatever order, leadership changes and deferred events
  included, at most one unit holds the restart lock.\<close>

theorem rolling_mutual_exclusion:
  assumes "rolling_reachable allow s" and "is_held s u" and "is_held s v"
  shows "u = v"
proof -
  have "app_lock s w = GRANTED" if "is_held s w" for w
    using that by (auto simp: lock_defs split: if_splits)
  then show ?thesis using assms one_grant_reachable [OF assms(1)] unfolding one_grant_def by blast
qed

lemma reachable_grant:
  "\<exists>s. rolling_reachable True s \<and> is_held s ''b'' \<and> unit_lock s ''b'' = ACQUIRE"
proof -
  let ?s0 = "init_rolling [''a'', ''b''] ''a''" and ?cb = "\<lambda>_ _. False"
  have r0: "rolling_reachable True ?s0" by (rule rolling_reachable.start) simp_all
  obtain s1 where s1: "on_acquire_lock ?cb ''b'' [] ?s0 = Inr s1" and e1: "s1 = acquire ''b'' ?s0"
    by (simp add: rolling_eval fun_upd_idem Let_def)
  have r1: "rolling_reachable True s1"
    by (rule rolling_reachable.step [OF r0], rule rolling_step.step_acquire [OF _ _ s1]) (simp_all add: init_rolling_def)
  obtain s2 where s2: "on_relation_changed ?cb ''a'' s1 = Inr s2" and e2: "s2 = grant ''b'' s1"
    by (simp add: e1 rolling_eval Let_def cong: bindE_weak_cong)
  have r2: "rolling_reachable True s2"
    by (rule rolling_reachable.step [OF r1], rule rolling_step.step_changed [OF _ _ s2])
       (simp_all add: e1 lock_defs init_rolling_def)
  moreover have "is_held s2 ''b''" "unit_lock s2 ''b'' = ACQUIRE" by (simp_all add: e2 e1 lock_defs init_rolling_def)
  ultimately show ?thesis by blast
qed

theorem rolling_mutual_exclusion_witness:
  "\<exists>s. rolling_reachable True s \<and> is_held s ''b'' \<and> \<not> is_held s ''a''"
  using reachable_grant rolling_mutual_exclusion [of True _ "''a''" "''b''"] by auto

text \<open>C9: as long as no callback defers its event, every run of the restart callback happens while
  its own unit is the only one with a grant.\<close>

theorem rolling_runs_exclusive:
  assumes "rolling_reachable False s" and "(u, holders) \<in> set (run_log s)"
  shows "holders = [u]"
  using sound_log_reachable [OF assms(1)] assms(2) by (auto simp: sound_log_def)

lemma reachable_leader_run:
  "\<exists>s. rolling_reachable False s \<and> (''a'', [''a'']) \<in> set (run_log s)"
proof -
  let ?s0 = "init_rolling [''a'', ''b''] ''a''" and ?cb = "\<lambda>_ _. False"
  have r0: "rolling_reachable False ?s0" by (rule rolling_reachable.start) simp_all
  have "\<exists>s1. on_acquire_lock ?cb ''a'' [] ?s0 = Inr s1 \<and> run_log s1 = [(''a'', [''a''])]"
    by (simp add: rolling_eval Let_def cong: bindE_weak_cong)
  then obtain s1 where s1: "on_acquire_lock ?cb ''a'' [] ?s0 = Inr s1" "run_log s1 = [(''a'', [''a''])]" by blast
  have "rolling_reachable False s1"
    by (rule rolling_reachable.step [OF r0], rule rolling_step.step_acquire [OF _ _ s1(1)])
       (simp_all add: init_rolling_def)
  with s1(2) show ?thesis by auto
qed

theorem rolling_runs_exclusive_witness:
  "\<exists>s holders. rolling_reachable False s \<and> (''a'', holders) \<in> set (run_log s) \<and> holders = [''a'']"
  using reachable_leader_run rolling_runs_exclusive by blast

text \<open>A callback that defers its event is run again later without the lock: some sequence of
  hooks makes a unit restart while another unit holds the only grant.\<close>

theorem deferred_run_without_lock:
  "\<exists>s. rolling_reachable True s \<and> (''b'', [''a'']) \<in> set (run_log s)"
proof -
  let ?s0 = "init_rolling [''a'', ''b'', ''c''] ''c''" and ?no = "\<lambda>_ _. False" and ?yes = "\<lambda>_ _. True"
  have r0: "rolling_reachable True ?s0" by (rule rolling_reachable.start) simp_all
  define s1 where "s1 = acquire ''a'' ?s0"
  have s1: "on_acquire_lock ?no ''a'' [] ?s0 = Inr s1"
    by (simp add: s1_def rolling_eval fun_upd_idem Let_def)
  define s2 where "s2 = acquire ''b'' s1"
  have s2: "on_acquire_lock ?no ''b'' [] s1 = Inr s2"
    by (simp add: s1_def s2_def rolling_eval fun_upd_idem Let_def)
  define s3 where "s3 = grant ''b'' s2"
  have s3: "on_relation_changed ?no ''c'' s2 = Inr s3"
    by (simp add: s1_def s2_def s3_def rolling_eval Let_def cong: bindE_weak_cong)
  define s4 where "s4 = release ''b'' (s3\<lparr>run_log := [(''b'', [''b''])], deferred_runs := (\<lambda>_. 0)(''b'' := 1)\<rparr>)"
  have s4: "on_relation_changed ?yes ''b'' s3 = Inr s4"
    by (simp add: s1_def s2_def s3_def s4_def rolling_eval Let_def fun_upd_idem cong: bindE_weak_cong)
  define s5 where "s5 = grant ''a'' (clear ''b'' s4)"
  have s5: "on_relation_changed ?no ''c'' s4 = Inr s5"
    by (simp add: s1_def s2_def s3_def s4_def s5_def rolling_eval Let_def cong: bindE_weak_cong)
  note d = s1_def s2_def s3_def s4_def s5_def
  have r5: "rolling_reachable True s5"
    by (rule rolling_reachable.step [OF _ rolling_step.step_changed [OF _ _ s5]],
        rule rolling_reachable.step [OF _ rolling_step.step_changed [OF _ _ s4]],
        rule rolling_reachable.step [OF _ rolling_step.step_changed [OF _ _ s3]],
        rule rolling_reachable.step [OF _ rolling_step.step_acquire [OF _ _ s2]],
        rule rolling_reachable.step [OF r0 rolling_step.step_acquire [OF _ _ s1]])
       (simp_all add: d lock_defs init_rolling_def)
  have "\<exists>t. on_run_with_lock ?no ''b'' (s5\<lparr>deferred_runs := (deferred_runs s5)(''b'' := deferred_runs s5 ''b'' - 1)\<rparr>) = Inr t
          \<and> (''b'', [''a'']) \<in> set (run_log t)"
    by (simp add: d rolling_eval Let_def cong: bindE_weak_cong)
  moreover have "deferred_runs s5 ''b'' > 0" "''b'' \<in> set (lock_units s5)"
    by (simp_all add: d lock_defs init_rolling_def)
  ultimately show ?thesis using rolling_reachable.step [OF r5] rolling_step.step_redeliver by blast
qed

text \<open>C40: an override that names no method of the charm makes every run of the unit that holds the
  lock fail, and then no processing of the locks gives the lock to another unit.\<close>

theorem unknown_callback_blocks_lock:
  assumes "rolling_reachable allow s" and "is_held s u" and "l \<noteq> u"
    and "callback_override s u = ''_disable_enable_restart_broker''"
  shows "on_relation_changed cb u s = Inl AttributeError \<and>
         on_run_with_lock cb u s = Inl AttributeError \<and>
         (\<exists>t. process_locks cb l s = Inr t \<and> is_held t u \<and> \<not> is_held t l)"
proof -
  have run: "on_run_with_lock cb u s = Inl AttributeError"
    using assms(4) by (simp add: on_run_with_lock_def run_callback_def callback_name_def CHARM_METHODS_def)
  with assms(2) have changed: "on_relation_changed cb u s = Inl AttributeError"
    by (simp add: on_relation_changed_def)
  have app: "app_lock s u = GRANTED" "unit_lock s u \<noteq> RELEASE"
    using assms(2) by (auto simp: lock_defs split: if_splits)
  have only: "app_lock s v = IDLE" if "v \<noteq> u" for v
    using one_grant_reachable [OF assms(1)] app that unfolding one_grant_def by metis
  have units: "u \<in> set (lock_units s)"
    using one_grant_reachable [OF assms(1)] app unfolding one_grant_def by metis
  have scan: "scan_locks l us pending s = (s, None)" if "u \<in> set us" for us pending
    using that
  proof (induction us arbitrary: pending)
    case (Cons v us)
    show ?case
    proof (cases "v = u")
      case True
      with assms(2) show ?thesis by simp
    next
      case False
      with only have "\<not> is_held s v" "\<not> release_requested s v" by (simp_all add: lock_defs)
      with Cons False show ?thesis by (simp add: Let_def)
    qed
  qed simp
  have "scan_locks l (lock_order l s) [] s = (s, None)"
    using scan units assms(3) by (auto simp: lock_order_def)
  then have "process_locks cb l s = Inr s" by (subst process_locks.simps) (cases "l = lead s"; simp)
  moreover have "\<not> is_held s l" using only [OF assms(3)] by (auto simp: lock_defs)
  ultimately show ?thesis using run changed assms(2) by simp
qed

theorem unknown_callback_blocks_lock_witness:
  "\<exists>s. rolling_reachable True s \<and> on_relation_changed (\<lambda>_ _. False) ''b'' s = Inl AttributeError"
proof -
  let ?s0 = "init_rolling [''a'', ''b''] ''a''" and ?cb = "\<lambda>_ _. False"
    and ?f = "(\<lambda>_. [])(''b'' := ''_disable_enable_restart_broker'')"
  have r0: "rolling_reachable True ?s0" by (rule rolling_reachable.start) simp_all
  define s1 where "s1 = acquire ''b'' ?s0\<lparr>callback_override := ?f\<rparr>"
  have s1: "on_acquire_lock ?cb ''b'' ''_disable_enable_restart_broker'' ?s0 = Inr s1"
    by (simp add: s1_def rolling_eval Let_def)
  define s2 where "s2 = grant ''b'' s1"
  have s2: "on_relation_changed ?cb ''a'' s1 = Inr s2"
    by (simp add: s1_def s2_def rolling_eval Let_def cong: bindE_weak_cong)
  have "rolling_reachable True s2"
    by (rule rolling_reachable.step [OF _ rolling_step.step_changed [OF _ _ s2]],
        rule rolling_reachable.step [OF r0 rolling_step.step_acquire [OF _ _ s1]])
       (simp_all add: s1_def s2_def lock_defs init_rolling_def)
  moreover have "is_held s2 ''b''" "callback_override s2 ''b'' = ''_disable_enable_restart_broker''"
    by (simp_all add: s1_def s2_def lock_defs init_rolling_def)
  ultimately show ?thesis using unknown_callback_blocks_lock [of True s2 "''b''" "''a''" ?cb] by auto
qed

lemma clear_other:
  "v \<noteq> u \<Longrightarrow> is_held (clear u s) v = is_held s v \<and> is_pending (clear u s) v = is_pending s v"
  by (simp add: lock_defs)

lemma release_not_pending:
  "release_requested s u \<Longrightarrow> \<not> is_held s u \<Longrightarrow> app_lock s u \<in> {GRANTED, IDLE} \<Longrightarrow>
   \<not> is_pending s u \<and> \<not> is_pending (clear u s) u"
  by (auto simp: lock_defs split: if_splits)

lemma grant_pending:
  "is_pending s u \<Longrightarrow> \<forall>v. app_lock s v \<in> {GRANTED, IDLE} \<Longrightarrow> unit_lock t = unit_lock s \<Longrightarrow> is_held (grant u t) u"
  by (drule spec [of _ u]) (auto simp: lock_defs split: if_splits)

lemma scan_others:
  assumes "\<forall>u \<in> set us. \<not> is_held s u" and "me \<notin> set us" and "distinct us"
    and "\<forall>u. app_lock s u \<in> {GRANTED, IDLE}"
  shows "\<exists>s'. scan_locks me (us @ vs) pending s = scan_locks me vs (pending @ filter (is_pending s) us) s' \<and>
           (\<forall>u. app_lock s' u \<in> {GRANTED, IDLE}) \<and>
           (\<forall>u. u \<notin> set us \<longrightarrow> is_held s' u = is_held s u \<and> is_pending s' u = is_pending s u)"
  using assms
proof (induction us arbitrary: pending s)
  case Nil
  then show ?case by (intro exI [of _ s]) simp
next
  case (Cons u us)
  let ?s = "if release_requested s u then clear u s else s"
  have same: "is_held ?s v = is_held s v \<and> is_pending ?s v = is_pending s v" if "v \<noteq> u" for v
    using clear_other [OF that, of s] by simp
  have pend: "is_pending ?s u = is_pending s u"
    using release_not_pending [of s u] Cons.prems(1,4) by (cases "release_requested s u") simp_all
  have app: "\<forall>v. app_lock ?s v \<in> {GRANTED, IDLE}"
    using Cons.prems(4) by (simp add: clear_def set_lock_state_def)
  have ne: "v \<in> set us \<Longrightarrow> v \<noteq> u" for v using Cons.prems(3) by auto
  have held: "\<forall>v \<in> set us. \<not> is_held ?s v" using Cons.prems(1) ne same by (simp split del: if_split)
  have filt: "filter (is_pending ?s) us = filter (is_pending s) us"
    using same ne by (intro filter_cong) (simp_all split del: if_split)
  let ?p = "pending @ filter (is_pending s) [u]"
  have "me \<notin> set us" "distinct us" using Cons.prems(2,3) by simp_all
  from Cons.IH [OF held this app, of ?p] obtain s' where
      s': "scan_locks me (us @ vs) ?p ?s = scan_locks me vs (?p @ filter (is_pending ?s) us) s'"
      "\<forall>v. app_lock s' v \<in> {GRANTED, IDLE}"
      "\<forall>v. v \<notin> set us \<longrightarrow> is_held s' v = is_held ?s v \<and> is_pending s' v = is_pending ?s v"
    by blast
  have u: "\<not> is_held s u" "u \<noteq> me" using Cons.prems(1,2) by auto
  have "scan_locks me ((u # us) @ vs) pending s = scan_locks me (us @ vs) ?p ?s"
    using pend u unfolding append_Cons scan_locks.simps Let_def
    by (cases "is_pending s u") simp_all
  also have "\<dots> = scan_locks me vs (pending @ filter (is_pending s) (u # us)) s'"
    using s'(1) filt by simp
  finally have "scan_locks me ((u # us) @ vs) pending s = \<dots>" .
  moreover have "\<forall>v. v \<notin> set (u # us) \<longrightarrow> is_held s' v = is_held s v \<and> is_pending s' v = is_pending s v"
    using s'(3) same by (simp split del: if_split)
  ultimately show ?case using s'(2) by blast
qed

text \<open>C10: in a reachable state where nobody holds the lock and some unit other than the leader waits
  for it, the leader's next processing of the locks grants it to such a unit.\<close>

theorem leader_grants_waiting_unit:
  assumes "rolling_reachable allow s" and "\<forall>v. \<not> is_held s v"
    and "u \<in> set (lock_units s)" and "is_pending s u" and "u \<noteq> lead s"
  shows "\<exists>w t. process_locks cb (lead s) s = Inr t \<and> w \<noteq> lead s \<and> is_pending s w \<and> is_held t w"
proof -
  let ?me = "lead s"
  let ?us = "filter (\<lambda>v. v \<noteq> ?me) (lock_units s)"
  have inv: "distinct ?us" "\<forall>v. app_lock s v \<in> {GRANTED, IDLE}"
    using one_grant_reachable [OF assms(1)] by (auto simp: one_grant_def)
  let ?w = "filter (is_pending s) ?us"
  have w: "?w \<noteq> []" using assms(3-5) by (auto simp: filter_empty_conv)
  obtain s1 where s1: "scan_locks ?me (?us @ [?me]) [] s = scan_locks ?me [?me] ?w s1"
      "\<not> is_held s1 ?me"
    using scan_others [of ?us s ?me "[?me]" "[]"] inv assms(2) by auto
  then obtain s2 ps where s2: "scan_locks ?me (lock_order ?me s) [] s = (s2, Some ps)" "ps = ?w \<or> ps = ?me # ?w"
    by (cases "is_pending (if release_requested s1 ?me then clear ?me s1 else s1) ?me")
       (simp_all add: lock_order_def Let_def)
  then have ps: "ps \<noteq> []" "last ps = last ?w" using w by auto
  have lw: "last ?w \<in> set ?w" using w by (rule last_in_set)
  then have "last ?w \<noteq> ?me" "is_pending s (last ?w)" by auto
  moreover have "process_locks cb ?me s = Inr (grant (last ?w) s2)"
    using s2(1) ps \<open>last ?w \<noteq> ?me\<close> by (subst process_locks.simps) (simp add: Let_def)
  moreover have "is_held (grant (last ?w) s2) (last ?w)"
    by (rule grant_pending [OF \<open>is_pending s (last ?w)\<close> inv(2)]) (rule scan_unit_lock [OF s2(1)])
  ultimately show ?thesis by blast
qed

theorem leader_grants_waiting_unit_witness:
  "\<exists>s w t. rolling_reachable True s \<and> process_locks (\<lambda>_ _. True) (lead s) s = Inr t \<and> w \<noteq> lead s \<and> is_held t w"
proof -
  let ?s0 = "init_rolling [''a'', ''b''] ''a''" and ?cb = "\<lambda>_ _. False"
  have r0: "rolling_reachable True ?s0" by (rule rolling_reachable.start) simp_all
  define s1 where "s1 = acquire ''b'' ?s0"
  have s1: "on_acquire_lock ?cb ''b'' [] ?s0 = Inr s1"
    by (simp add: s1_def rolling_eval fun_upd_idem Let_def)
  have r1: "rolling_reachable True s1"
    by (rule rolling_reachable.step [OF r0 rolling_step.step_acquire [OF _ _ s1]]) (simp_all add: init_rolling_def)
  moreover have "\<forall>v. \<not> is_held s1 v" "''b'' \<in> set (lock_units s1)" "is_pending s1 ''b''" "''b'' \<noteq> lead s1"
    by (simp_all add: s1_def lock_defs init_rolling_def)
  ultimately show ?thesis using leader_grants_waiting_unit [of True s1 "''b''"] by blast
qed

end
