(* ===== verification/Rolling_Refinement.thy ===== *)
theory Rolling_Refinement
  imports Rolling_Ops
begin

text \<open>
  The rolling-restart lock of \<open>Rolling_Ops\<close> implements a mutex: an abstract state with at most one
  holder, who runs the callback before giving the lock back, and a log of the runs. Every hook of
  a unit is a sequence of steps of the mutex.
\<close>

section \<open>Simulations\<close>

text \<open>A system whose steps, from states with an invariant, are sequences of steps of another.\<close>

locale simulation =
  fixes cstep :: "'c \<Rightarrow> 'c \<Rightarrow> bool" and astep :: "'a \<Rightarrow> 'a \<Rightarrow> bool" and abs_of :: "'c \<Rightarrow> 'a" and inv :: "'c \<Rightarrow> bool"
  assumes inv_step: "inv s \<Longrightarrow> cstep s t \<Longrightarrow> inv t"
    and sim_step: "inv s \<Longrightarrow> cstep s t \<Longrightarrow> astep\<^sup>*\<^sup>* (abs_of s) (abs_of t)"
begin

lemma simulates: "cstep\<^sup>*\<^sup>* s t \<Longrightarrow> inv s \<Longrightarrow> inv t \<and> astep\<^sup>*\<^sup>* (abs_of s) (abs_of t)"
proof (induction rule: rtranclp_induct)
  case (step t u)
  then show ?case using inv_step sim_step by (meson rtranclp_trans)
qed simp

end


section \<open>The mutex\<close>

text \<open>The holder with the information whether it has run and asked for release, and the units that ran so far.\<close>

type_synonym mutex = "(string \<times> bool) option \<times> string list"

inductive mutex_step :: "mutex \<Rightarrow> mutex \<Rightarrow> bool" where
  mutex_grant: "mutex_step (None, log) (Some (u, False), log)"
| mutex_run: "mutex_step (Some (u, False), log) (Some (u, True), log @ [u])"
| mutex_again: "mutex_step (Some (u, True), log) (Some (u, False), log)"
| mutex_clear: "mutex_step (Some (u, True), log) (None, log)"

definition lock_holder :: "rolling \<Rightarrow> string option" where
  "lock_holder s = (case granted_units s of [] \<Rightarrow> None | u # _ \<Rightarrow> Some u)"

definition mutex_of :: "rolling \<Rightarrow> mutex" where
  "mutex_of s = (map_option (\<lambda>u. (u, unit_lock s u = RELEASE)) (lock_holder s), map fst (run_log s))"

lemma holder_some: "one_grant s \<Longrightarrow> app_lock s u = GRANTED \<Longrightarrow> lock_holder s = Some u"
  by (simp add: lock_holder_def granted_units_single)

lemma holder_none: "\<forall>u \<in> set (lock_units s). app_lock s u \<noteq> GRANTED \<Longrightarrow> lock_holder s = None"
  by (simp add: lock_holder_def granted_units_def filter_empty_conv)

lemma mutex_of_frame [simp]:
  "mutex_of (s\<lparr>callback_override := f\<rparr>) = mutex_of s" "mutex_of (s\<lparr>lead := l\<rparr>) = mutex_of s"
  "mutex_of (s\<lparr>deferred_runs := d\<rparr>) = mutex_of s"
  by (simp_all add: mutex_of_def lock_holder_def granted_units_def)


section \<open>Steps\<close>

lemma one_grant_clear: "one_grant s \<Longrightarrow> one_grant (clear v s)"
  by (auto simp: one_grant_def clear_def set_lock_state_def)

lemma lock_values: "one_grant s \<Longrightarrow> app_lock s u \<noteq> RELEASE \<and> app_lock s u \<noteq> ACQUIRE"
  unfolding one_grant_def by (metis lock_state.distinct)

lemma sim_clear:
  assumes "one_grant s" and "release_requested s v"
  shows "mutex_step (mutex_of s) (mutex_of (clear v s))"
proof -
  have v: "app_lock s v = GRANTED" "unit_lock s v = RELEASE"
    using assms lock_values [OF assms(1), of v] by (auto simp: lock_defs split: if_splits)
  have "\<forall>u \<in> set (lock_units (clear v s)). app_lock (clear v s) u \<noteq> GRANTED"
    using assms(1) v(1) by (auto simp: one_grant_def clear_def set_lock_state_def)
  then have "lock_holder (clear v s) = None" by (rule holder_none)
  then have "mutex_of (clear v s) = (None, map fst (run_log s))" by (simp add: mutex_of_def clear_def set_lock_state_def)
  then show ?thesis using holder_some [OF assms(1) v(1)] v(2) by (simp add: mutex_of_def mutex_clear)
qed

lemma sim_scan:
  assumes "one_grant s" and "scan_locks me us ps s = (s', r)"
  shows "mutex_step\<^sup>*\<^sup>* (mutex_of s) (mutex_of s')"
  using assms
proof (induction me us ps s arbitrary: s' r rule: scan_locks.induct)
  case (2 me v us ps s)
  let ?s = "if release_requested s v then clear v s else s"
  have og: "one_grant ?s" using "2.prems"(1) by (simp add: one_grant_clear)
  have one: "mutex_step\<^sup>*\<^sup>* (mutex_of s) (mutex_of ?s)" using sim_clear [OF "2.prems"(1), of v] by auto
  show ?case
  proof (cases "is_held s v")
    case False
    then have "mutex_step\<^sup>*\<^sup>* (mutex_of ?s) (mutex_of s')"
      using "2.IH"(1) [OF False refl, of s' r] "2.IH"(2) [OF False refl, of s' r] og "2.prems"(2)
      by (cases "is_pending ?s v") (simp_all add: Let_def)
    with one show ?thesis by (rule rtranclp_trans)
  qed (use "2.prems" in auto)
qed simp

lemma scan_pending_acquire:
  assumes "one_grant s" and "scan_locks me us ps s = (s', Some qs)" and "\<forall>u \<in> set ps. unit_lock s u = ACQUIRE"
  shows "\<forall>u \<in> set qs. unit_lock s' u = ACQUIRE"
  using assms
proof (induction me us ps s arbitrary: s' qs rule: scan_locks.induct)
  case (2 me v us ps s)
  let ?s = "if release_requested s v then clear v s else s"
  have og: "one_grant ?s" using "2.prems"(1) by (simp add: one_grant_clear)
  have same: "unit_lock ?s = unit_lock s" by (simp add: clear_def set_lock_state_def)
  have held: "\<not> is_held s v" using "2.prems"(2) by (auto split: if_splits)
  have v: "unit_lock ?s v = ACQUIRE" if "is_pending ?s v"
    using that lock_values [OF og, of v] by (auto simp: is_pending_def lock_state_of_def split: if_splits)
  show ?case
  proof (cases "is_pending ?s v")
    case True
    with held "2.prems"(2) have "scan_locks me us (if v = me then v # ps else ps @ [v]) ?s = (s', Some qs)" by (simp add: Let_def)
    moreover have "\<forall>u \<in> set (if v = me then v # ps else ps @ [v]). unit_lock ?s u = ACQUIRE"
      using v [OF True] "2.prems"(3) same by auto
    ultimately show ?thesis using "2.IH"(1) [OF held refl True og] by blast
  next
    case False
    with held "2.prems"(2) have "scan_locks me us ps ?s = (s', Some qs)" by (simp add: Let_def)
    from "2.IH"(2) [OF held refl False og this] "2.prems"(3) same show ?thesis by auto
  qed
qed simp

lemma sim_grant:
  assumes "one_grant s" and "scan_locks me (lock_order me s) [] s = (s', Some ps)" and "ps \<noteq> []" and "me \<in> set (lock_units s)"
  shows "mutex_step\<^sup>*\<^sup>* (mutex_of s) (mutex_of (grant (last ps) s'))" "unit_lock (grant (last ps) s') (last ps) \<noteq> RELEASE"
proof -
  let ?u = "last ps" and ?t = "grant (last ps) s'"
  have "\<forall>u \<in> set (lock_units s'). app_lock s' u \<noteq> GRANTED"
    using scan_clears [OF assms(2)] scan_units [OF assms(2)] by (auto simp: lock_order_def)
  then have none: "mutex_of s' = (None, map fst (run_log s'))" by (simp add: mutex_of_def holder_none)
  have acq: "unit_lock s' ?u = ACQUIRE" using scan_pending_acquire [OF assms(1,2)] assms(3) by simp
  then show "unit_lock ?t ?u \<noteq> RELEASE" by (simp add: grant_def set_lock_state_def)
  have "lock_holder ?t = Some ?u"
    by (rule holder_some [OF one_grant_grant [OF assms]]) (simp add: grant_def set_lock_state_def)
  then have "mutex_of ?t = (Some (?u, False), map fst (run_log s'))"
    using acq by (simp add: mutex_of_def grant_def set_lock_state_def)
  then have "mutex_step (mutex_of s') (mutex_of ?t)" using none by (simp add: mutex_grant)
  with sim_scan [OF assms(1,2)] show "mutex_step\<^sup>*\<^sup>* (mutex_of s) (mutex_of ?t)" by simp
qed

lemma sim_run:
  assumes "one_grant s" and "app_lock s me = GRANTED" and "unit_lock s me \<noteq> RELEASE" and "run_callback cb me s = Inr t"
  shows "mutex_step (mutex_of s) (mutex_of t)"
proof -
  have "app_lock t me = GRANTED" "unit_lock t me = RELEASE" "run_log t = run_log s @ [(me, granted_units s)]"
    using assms by (auto simp: run_callback_def Let_def lock_defs split: if_splits)
  moreover have "lock_holder t = Some me" using holder_some [OF one_grant_run [OF assms(1,4)]] calculation(1) by simp
  ultimately show ?thesis using holder_some [OF assms(1,2)] assms(3) by (simp add: mutex_of_def mutex_run)
qed

lemma sim_process:
  assumes "one_grant s" and "process_locks cb me s = Inr t"
  shows "mutex_step\<^sup>*\<^sup>* (mutex_of s) (mutex_of t)"
  using assms
proof (induction cb me s arbitrary: t rule: process_locks.induct)
  case (1 cb me s)
  from "1.prems"(2) show ?case
  proof (cases rule: process_locks_cases)
    case (stop s' r)
    then show ?thesis using sim_scan [OF "1.prems"(1) stop(1)] by auto
  next
    case (other s' ps)
    then show ?thesis using sim_grant(1) [OF "1.prems"(1) other(2,3)] "1.prems"(1) by (simp add: one_grant_def)
  next
    case (self s' ps s2 s3)
    have me: "me \<in> set (lock_units s)" using "1.prems"(1) self(1) by (simp add: one_grant_def)
    note g = sim_grant [OF "1.prems"(1) self(2,3) me, unfolded self(4)]
    have og: "one_grant (grant me s')" using one_grant_grant [OF "1.prems"(1) self(2,3) me] self(4) by simp
    have "mutex_step (mutex_of (grant me s')) (mutex_of s2)"
      by (rule sim_run [OF og _ g(2) self(5)]) (simp add: grant_def set_lock_state_def)
    moreover have "one_grant s2" using one_grant_run og self(5) by blast
    then have "mutex_step\<^sup>*\<^sup>* (mutex_of s2) (mutex_of s3)"
      using "1.IH" [OF _ self(2) [symmetric] refl self(3) refl refl self(4), of s2 s3] self(1,4-6) by simp
    ultimately show ?thesis using g(1) self(7) by (simp add: rtranclp_trans [OF _ converse_rtranclp_into_rtranclp])
  qed
qed

lemma sim_run_with_lock:
  assumes "one_grant s" and "is_held s me" and "on_run_with_lock cb me s = Inr t"
  shows "mutex_step\<^sup>*\<^sup>* (mutex_of s) (mutex_of t)"
proof -
  from assms(3) obtain s1 s2 where s1: "run_callback cb me s = Inr s1" "process_locks cb me s1 = Inr s2"
    and t: "t = s2\<lparr>callback_override := (callback_override s2)(me := [])\<rparr>" by (rule on_run_with_lock_elim)
  have "app_lock s me = GRANTED" "unit_lock s me \<noteq> RELEASE" using assms(2) by (auto simp: lock_defs split: if_splits)
  from sim_run [OF assms(1) this s1(1)] sim_process [OF one_grant_run [OF assms(1) s1(1)] s1(2)] t
  show ?thesis by (simp add: converse_rtranclp_into_rtranclp)
qed

lemma sim_relation_changed:
  assumes "one_grant s" and "on_relation_changed cb me s = Inr t"
  shows "mutex_step\<^sup>*\<^sup>* (mutex_of s) (mutex_of t)"
proof (cases "is_held s me")
  case True
  then obtain s1 where s1: "on_run_with_lock cb me s = Inr s1" "process_locks cb me s1 = Inr t"
    using assms(2) unfolding on_relation_changed_def bindE_Inr by auto
  from sim_run_with_lock [OF assms(1) True s1(1)] sim_process [OF one_grant_run_with_lock [OF assms(1) s1(1)] s1(2)]
  show ?thesis by (rule rtranclp_trans)
next
  case False
  with assms(2) have "process_locks cb me s = Inr t" by (simp add: on_relation_changed_def)
  then show ?thesis by (rule sim_process [OF assms(1)])
qed

lemma sim_acquire:
  assumes "one_grant s"
  shows "mutex_step\<^sup>*\<^sup>* (mutex_of s) (mutex_of (acquire me s))"
proof (cases "app_lock s me = GRANTED \<and> unit_lock s me = RELEASE")
  case True
  have "granted_units (acquire me s) = granted_units s" by (simp add: granted_units_def acquire_def set_lock_state_def)
  with True have "mutex_step (mutex_of s) (mutex_of (acquire me s))"
    using holder_some [OF assms, of me] by (simp add: mutex_of_def lock_holder_def mutex_again acquire_def set_lock_state_def
        split: list.splits)
  then show ?thesis by blast
next
  case False
  have g: "granted_units (acquire me s) = granted_units s" by (simp add: granted_units_def acquire_def set_lock_state_def)
  have "u \<noteq> me \<or> unit_lock s me \<noteq> RELEASE" if "lock_holder s = Some u" for u
    using that False by (auto simp: lock_holder_def granted_units_def filter_eq_Cons_iff split: list.splits)
  then have "mutex_of (acquire me s) = mutex_of s"
    using g by (auto simp: mutex_of_def lock_holder_def acquire_def set_lock_state_def split: list.splits)
  then show ?thesis by simp
qed


section \<open>Refinement\<close>

interpretation rolling_mutex: simulation "rolling_step False" mutex_step mutex_of "\<lambda>s. one_grant s \<and> sound_log s"
proof
  fix s t assume inv: "one_grant s \<and> sound_log s" and st: "rolling_step False s t"
  show "mutex_step\<^sup>*\<^sup>* (mutex_of s) (mutex_of t)"
    using st
  proof (cases rule: rolling_step.cases)
    case (step_acquire me cb ov)
    let ?s = "acquire me s\<lparr>callback_override := (callback_override (acquire me s))(me := ov)\<rparr>"
    have "one_grant ?s" using inv by (simp add: one_grant_acquire)
    from sim_relation_changed [OF this] step_acquire(3) have "mutex_step\<^sup>*\<^sup>* (mutex_of ?s) (mutex_of t)"
      unfolding on_acquire_lock_def Let_def by blast
    with sim_acquire [of s me] inv show ?thesis by simp
  next
    case (step_changed me cb)
    then show ?thesis using sim_relation_changed inv by blast
  next
    case (step_redeliver me cb)
    then show ?thesis using inv by (simp add: sound_log_def)
  next
    case (step_leader l)
    then show ?thesis by simp
  qed
  show "one_grant t \<and> sound_log t" using inv one_grant_step [OF st] sound_log_step [OF st] by blast
qed

text \<open>C8: as long as no callback defers its event, the units' hooks in any order implement a mutex: from
  the initial state, the holder of the lock and the log of restarts change only as the mutex
  allows. A unit restarts only as the holder, gives the lock back only after it ran, and the
  lock passes to another unit only after it was given back.\<close>

theorem rolling_refines_mutex:
  assumes "l \<in> set us" and "distinct us" and "(rolling_step False)\<^sup>*\<^sup>* (init_rolling us l) s"
  shows "mutex_step\<^sup>*\<^sup>* (None, []) (mutex_of s)"
proof -
  have "one_grant (init_rolling us l)" "sound_log (init_rolling us l)"
    using assms(1,2) by (simp_all add: one_grant_def init_rolling_def sound_log_def)
  moreover have "mutex_of (init_rolling us l) = (None, [])"
    by (simp add: mutex_of_def lock_holder_def granted_units_def init_rolling_def)
  ultimately show ?thesis using rolling_mutex.simulates [OF assms(3)] by simp
qed

theorem rolling_refines_mutex_witness:
  "\<exists>s. snd (mutex_of s) = [''a''] \<and> mutex_step\<^sup>*\<^sup>* (None, []) (mutex_of s)"
proof -
  let ?s0 = "init_rolling [''a'', ''b''] ''a''" and ?cb = "\<lambda>_ _. False"
  have "\<exists>s1. on_acquire_lock ?cb ''a'' [] ?s0 = Inr s1 \<and> run_log s1 = [(''a'', [''a''])]"
    by (simp add: rolling_eval Let_def cong: bindE_weak_cong)
  then obtain s1 where s1: "on_acquire_lock ?cb ''a'' [] ?s0 = Inr s1" "run_log s1 = [(''a'', [''a''])]" by blast
  have "rolling_step False ?s0 s1"
    by (rule rolling_step.step_acquire [OF _ _ s1(1)]) (simp_all add: init_rolling_def)
  then have "(rolling_step False)\<^sup>*\<^sup>* ?s0 s1" by blast
  from rolling_refines_mutex [OF _ _ this] have "mutex_step\<^sup>*\<^sup>* (None, []) (mutex_of s1)" by simp
  with s1(2) show ?thesis by (intro exI [of _ s1]) (simp add: mutex_of_def)
qed

end
