(* ===== verification/K8s_Manager.thy ===== *)
theory K8s_Manager
  imports Literals
begin

text \<open>
  \<^verbatim>\<open>managers/k8s.py\<close>: the NodePort services through which clients outside the Kubernetes cluster
  reach the brokers. The Kubernetes API is third-party: a record of the four requests the
  manager makes, each answering or raising. The two-minute cache of the answers only
  avoids repeated requests and is left out.
\<close>

section \<open>Kubernetes objects\<close>

record service_port =
  sp_port :: int
  target_port :: int
  sp_name :: string
  nodePort :: int

record service =
  svc_name :: string
  svc_owner :: string
  selector :: "(string \<times> string) list"
  svc_ports :: "service_port list"

record pod =
  pod_uid :: string
  pod_owners :: string
  nodeName :: string

record node =
  addresses :: "(string \<times> string) list"

record k8s_api =
  api_get_pod :: "string \<Rightarrow> exn + pod"
  api_get_node :: "string \<Rightarrow> exn + node"
  api_get_service :: "string \<Rightarrow> exn + service option"
  api_apply :: "service \<Rightarrow> exn + unit"

record K8sManager =
  pod_name :: string
  namespace :: string

definition k8s_app_name :: "K8sManager \<Rightarrow> string" where
  "k8s_app_name m = join ''-'' (butlast (split_char (CHR ''-'') (pod_name m)))"

definition bootstrap_service_name :: "K8sManager \<Rightarrow> string" where
  "bootstrap_service_name m = k8s_app_name m @ ''-bootstrap''"

fun short_auth_mechanism_mapping :: "auth_mechanism \<Rightarrow> string" where
  "short_auth_mechanism_mapping SCRAM_SHA_512 = ''scram''"
| "short_auth_mechanism_mapping OAUTHBEARER = ''oauth''"
| "short_auth_mechanism_mapping SSL_MECH = ''ssl''"

text \<open>\<^verbatim>\<open>auth_map.protocol.lower().replace("_", "-")\<close>\<close>

definition protocol_slug :: "auth_protocol \<Rightarrow> string" where
  "protocol_slug p = replace ''_'' ''-'' (lower (protocol_str p))"


section \<open>Operations\<close>

fun find_node_port :: "auth_map \<Rightarrow> service_port list \<Rightarrow> int option" where
  "find_node_port a [] = None"
| "find_node_port a (p # ps) =
     (if contains (protocol_slug (fst a)) (sp_name p) \<and>
         contains (short_auth_mechanism_mapping (snd a)) (sp_name p)
      then Some (nodePort p) else find_node_port a ps)"

definition get_node_port :: "service \<Rightarrow> auth_map \<Rightarrow> exn + int" where
  "get_node_port svc a =
     (if svc_ports svc = [] then Inl (PyException ''Could not find Service spec or ports'')
      else case find_node_port a (svc_ports svc) of
        Some n \<Rightarrow> Inr n
      | None \<Rightarrow> Inl (PyException ''Unable to find NodePort''))"

definition build_listener_service_name :: "K8sManager \<Rightarrow> auth_map \<Rightarrow> string" where
  "build_listener_service_name m a =
     pod_name m @ ''-'' @ protocol_slug (fst a) @ ''-'' @ short_auth_mechanism_mapping (snd a)"

definition get_listener_nodeport :: "k8s_api \<Rightarrow> K8sManager \<Rightarrow> auth_map \<Rightarrow> exn + int" where
  "get_listener_nodeport api m a =
     bindE (api_get_service api (build_listener_service_name m a)) (\<lambda>svc.
       case svc of
         None \<Rightarrow> Inl (PyException ''Unable to find Service'')
       | Some s \<Rightarrow> get_node_port s a)"

definition get_bootstrap_nodeport :: "k8s_api \<Rightarrow> K8sManager \<Rightarrow> auth_map \<Rightarrow> exn + int" where
  "get_bootstrap_nodeport api m a =
     bindE (api_get_service api (bootstrap_service_name m)) (\<lambda>svc.
       case svc of
         None \<Rightarrow> Inl (PyException ''Unable to find bootstrap Service'')
       | Some s \<Rightarrow> get_node_port s a)"

definition bootstrap_port :: "auth_map \<times> ports \<Rightarrow> service_port" where
  "bootstrap_port e =
     \<lparr>sp_port = external_port (snd e), target_port = external_port (snd e),
      sp_name = protocol_slug (fst (fst e)) @ ''-'' @ short_auth_mechanism_mapping (snd (fst e)) @ ''-bootstrap-port'',
      nodePort = 0\<rparr>"

definition build_bootstrap_services :: "k8s_api \<Rightarrow> K8sManager \<Rightarrow> exn + service" where
  "build_bootstrap_services api m =
     bindE (api_get_pod api (pod_name m)) (\<lambda>p.
       Inr \<lparr>svc_name = bootstrap_service_name m, svc_owner = pod_owners p,
            selector = [(''app.kubernetes.io/name'', k8s_app_name m)],
            svc_ports = map bootstrap_port SECURITY_PROTOCOL_PORTS\<rparr>)"

definition build_listener_service :: "k8s_api \<Rightarrow> K8sManager \<Rightarrow> auth_map \<Rightarrow> exn + service" where
  "build_listener_service api m a =
     bindE (api_get_pod api (pod_name m)) (\<lambda>p.
       let service_name = build_listener_service_name m a
       in bindE (ports_of a) (\<lambda>ps.
            Inr \<lparr>svc_name = service_name, svc_owner = pod_uid p,
                 selector = [(''statefulset.kubernetes.io/pod-name'', pod_name m)],
                 svc_ports =
                   [\<lparr>sp_port = external_port ps, target_port = external_port ps,
                     sp_name = service_name @ ''-port'', nodePort = 0\<rparr>]\<rparr>))"

definition apply_service :: "k8s_api \<Rightarrow> service \<Rightarrow> exn + unit" where
  "apply_service api svc =
     (case api_apply api svc of
        Inr _ \<Rightarrow> Inr ()
      | Inl (ApiError code msg) \<Rightarrow>
          if code = 403 then Inr ()
          else if code = 422 \<and> contains ''port is already allocated'' msg then Inr ()
          else Inl (ApiError code msg)
      | Inl e \<Rightarrow> Inl e)"

definition get_pod :: "k8s_api \<Rightarrow> K8sManager \<Rightarrow> string \<Rightarrow> exn + pod" where
  "get_pod api m name = api_get_pod api (if name = [] then pod_name m else name)"

definition get_node :: "k8s_api \<Rightarrow> K8sManager \<Rightarrow> string \<Rightarrow> exn + node" where
  "get_node api m name =
     bindE (get_pod api m name) (\<lambda>p.
       if nodeName p = [] then Inl (PyException ''Could not find podSpec or nodeName'')
       else api_get_node api (nodeName p))"

fun first_address :: "(string \<times> string) list \<Rightarrow> string" where
  "first_address [] = ''''"
| "first_address ((t, a) # as) =
     (if t \<in> {''ExternalIP'', ''InternalIP'', ''Hostname''} then a else first_address as)"

definition get_node_ip :: "k8s_api \<Rightarrow> K8sManager \<Rightarrow> string \<Rightarrow> exn + string" where
  "get_node_ip api m name =
     bindE (get_node api m name) (\<lambda>n.
       if addresses n = [] then Inl (PyException ''No status found'')
       else Inr (first_address (addresses n)))"


section \<open>Properties\<close>

lemma protocol_slug_simps [simp]:
  "protocol_slug SASL_PLAINTEXT = ''sasl-plaintext''"
  "protocol_slug SASL_SSL = ''sasl-ssl''"
  "protocol_slug SSL = ''ssl''"
  by code_simp+

text \<open>
  The cluster assigns node ports: the API returns the services as they were applied, with
  \<^verbatim>\<open>nodePort\<close> filled in by some allocation.
\<close>

definition allocate :: "(int \<Rightarrow> int) \<Rightarrow> service \<Rightarrow> service" where
  "allocate f svc = svc\<lparr>svc_ports := map (\<lambda>p. p\<lparr>nodePort := f (sp_port p)\<rparr>) (svc_ports svc)\<rparr>"

text \<open>With the bootstrap service that the charm builds, whatever node ports the cluster
  assigns, the lookup finds the port of the requested protocol and mechanism for every SASL
  combination; for mTLS (SSL with SSL) it finds the port of \<^verbatim>\<open>SASL_SSL\<close> with SCRAM instead, because
  the names are compared by substring.\<close>

theorem bootstrap_nodeport_lookup:
  assumes "build_bootstrap_services api m = Inr svc"
    and "api_get_service api' (bootstrap_service_name m) = Inr (Some (allocate f svc))"
    and "ports_of a = Inr ps"
  shows "get_bootstrap_nodeport api' m a = Inr (f (if a = (SSL, SSL_MECH) then 29093 else external_port ps))"
proof -
  from assms(1) have ports: "svc_ports svc = map bootstrap_port SECURITY_PROTOCOL_PORTS"
    by (auto simp: build_bootstrap_services_def bindE_Inr)
  have "supported_auth a" using assms(3) by (auto simp: supported_auth_def ports_of_def split: option.splits)
  then consider "a = (SASL_PLAINTEXT, SCRAM_SHA_512)" | "a = (SASL_SSL, SCRAM_SHA_512)" | "a = (SSL, SSL_MECH)"
    | "a = (SASL_PLAINTEXT, OAUTHBEARER)" | "a = (SASL_SSL, OAUTHBEARER)"
    by (auto simp: supported_auth_iff)
  then show ?thesis
    by cases (use assms(2,3) ports in \<open>auto simp: get_bootstrap_nodeport_def get_node_port_def allocate_def
      SECURITY_PROTOCOL_PORTS_def bootstrap_port_def\<close>)
qed

text \<open>A small cluster for concrete runs.\<close>

definition sample_manager :: K8sManager where
  "sample_manager = \<lparr>pod_name = ''kafka-k8s-0'', namespace = ''test''\<rparr>"

definition sample_api :: "service option \<Rightarrow> k8s_api" where
  "sample_api svc =
     \<lparr>api_get_pod = (\<lambda>_. Inr \<lparr>pod_uid = ''uid'', pod_owners = ''sts'', nodeName = ''n1''\<rparr>),
      api_get_node = (\<lambda>_. Inr \<lparr>addresses = [(''InternalIP'', ''10.0.0.1'')]\<rparr>),
      api_get_service = (\<lambda>_. Inr svc), api_apply = (\<lambda>_. Inr ())\<rparr>"

theorem bootstrap_nodeport_lookup_witness:
  "\<exists>svc. build_bootstrap_services (sample_api None) sample_manager = Inr svc \<and>
     get_bootstrap_nodeport (sample_api (Some (allocate (\<lambda>p. p + 2000) svc))) sample_manager
       (SASL_SSL, SCRAM_SHA_512) = Inr 31093"
proof -
  obtain svc where svc: "build_bootstrap_services (sample_api None) sample_manager = Inr svc"
    by (simp add: build_bootstrap_services_def sample_api_def)
  have "get_bootstrap_nodeport (sample_api (Some (allocate (\<lambda>p. p + 2000) svc))) sample_manager
      (SASL_SSL, SCRAM_SHA_512) = Inr 31093"
    using bootstrap_nodeport_lookup [OF svc, of "sample_api (Some (allocate (\<lambda>p. p + 2000) svc))" "\<lambda>p. p + 2000"
      "(SASL_SSL, SCRAM_SHA_512)"]
    by (simp add: sample_api_def)
  with svc show ?thesis by blast
qed

lemma contains_middle [simp]: "contains p (a @ p @ b)"
  unfolding contains_iff by blast

lemma contains_middle2 [simp]: "contains p (a @ q @ p @ b)"
  using contains_middle [of p "a @ q" b] by simp

text \<open>The service of one listener, applied and read back, gives its node port for the
  protocol and mechanism it was built for, and a pod's services of different protocols or
  mechanisms have different names.\<close>

theorem listener_service_roundtrip:
  assumes "build_listener_service api m a = Inr svc"
    and "api_get_service api' (build_listener_service_name m a) = Inr (Some (allocate f svc))"
  shows "\<exists>ps. ports_of a = Inr ps \<and> get_listener_nodeport api' m a = Inr (f (external_port ps)) \<and>
    (\<forall>b. build_listener_service_name m b = svc_name svc \<longleftrightarrow> b = a)"
proof -
  obtain ps where ps: "ports_of a = Inr ps" and svc: "svc_name svc = build_listener_service_name m a"
    "svc_ports svc = [\<lparr>sp_port = external_port ps, target_port = external_port ps,
       sp_name = build_listener_service_name m a @ ''-port'', nodePort = 0\<rparr>]"
    using assms(1) by (auto simp: build_listener_service_def bindE_Inr Let_def)
  let ?n = "build_listener_service_name m a @ ''-port''"
  have "contains (protocol_slug (fst a)) ?n"
    using contains_middle2 [of "protocol_slug (fst a)" "pod_name m" "''-''"]
    by (simp add: build_listener_service_name_def)
  moreover have "contains (short_auth_mechanism_mapping (snd a)) ?n"
    using contains_middle [of "short_auth_mechanism_mapping (snd a)" "pod_name m @ ''-'' @ protocol_slug (fst a) @ ''-''"]
    by (simp add: build_listener_service_name_def)
  ultimately have "get_listener_nodeport api' m a = Inr (f (external_port ps))"
    using assms(2) svc by (simp add: get_listener_nodeport_def get_node_port_def allocate_def)
  moreover have "build_listener_service_name m b = svc_name svc \<longleftrightarrow> b = a" for b
    using svc by (cases a; cases b; cases "fst a"; cases "snd a"; cases "fst b"; cases "snd b")
      (simp_all add: build_listener_service_name_def)
  ultimately show ?thesis using ps by blast
qed

theorem listener_service_roundtrip_witness:
  "\<exists>svc. build_listener_service (sample_api None) sample_manager (SSL, SSL_MECH) = Inr svc \<and>
     get_listener_nodeport (sample_api (Some (allocate (\<lambda>p. p + 2000) svc))) sample_manager (SSL, SSL_MECH)
       = Inr 31094"
proof -
  obtain svc where svc: "build_listener_service (sample_api None) sample_manager (SSL, SSL_MECH) = Inr svc"
    by (simp add: build_listener_service_def sample_api_def Let_def)
  have "get_listener_nodeport (sample_api (Some (allocate (\<lambda>p. p + 2000) svc))) sample_manager (SSL, SSL_MECH)
      = Inr 31094"
    using listener_service_roundtrip [OF svc, of "sample_api (Some (allocate (\<lambda>p. p + 2000) svc))" "\<lambda>p. p + 2000"]
    by (simp add: sample_api_def)
  with svc show ?thesis by blast
qed

end
