(* ===== verification/Json.thy ===== *)
theory Json
  imports Kafka_Prelude
begin

text \<open>
  \<^verbatim>\<open>json.dumps\<close> and \<^verbatim>\<open>json.loads\<close> of Python's standard library, which the charm uses to keep
  structured values (certificate chains, trust lists, broker capacities, storages) in databags
  that hold strings only. Printing follows the defaults of \<^verbatim>\<open>json.dumps\<close> (separators with a
  space, ASCII output); parsing accepts optional whitespace and raises \<^verbatim>\<open>ValueError\<close> (of which
  \<^verbatim>\<open>JSONDecodeError\<close> is a subclass) on anything else. A float keeps its literal text, since the
  charm only passes floats through. The main result is that parsing what was printed gives the
  value back.
\<close>

section \<open>Values\<close>

datatype json =
    JNull
  | JBool bool
  | JInt int
  | JFloat string
  | JStr string
  | JList "json list"
  | JDict "(string \<times> json) list"

section \<open>Printing\<close>

definition hex_char :: "nat \<Rightarrow> char" where
  "hex_char n = (if n < 10 then char_of (48 + n) else char_of (87 + n))"

definition hex_val :: "char \<Rightarrow> nat option" where
  "hex_val c =
     (let n = of_char c :: nat in
      if 48 \<le> n \<and> n \<le> 57 then Some (n - 48)
      else if 97 \<le> n \<and> n \<le> 102 then Some (n - 87)
      else if 65 \<le> n \<and> n \<le> 70 then Some (n - 55)
      else None)"

definition QUOTE :: char where "QUOTE = CHR 0x22"
definition BACKSLASH :: char where "BACKSLASH = CHR 0x5C"

definition escape_char :: "char \<Rightarrow> string" where
  "escape_char c =
     (let n = of_char c :: nat in
      if c = QUOTE \<or> c = BACKSLASH then [BACKSLASH, c]
      else if n = 8 then [BACKSLASH, CHR ''b'']
      else if n = 9 then [BACKSLASH, CHR ''t'']
      else if n = 10 then [BACKSLASH, CHR ''n'']
      else if n = 12 then [BACKSLASH, CHR ''f'']
      else if n = 13 then [BACKSLASH, CHR ''r'']
      else if n < 32 \<or> 126 < n then
        [BACKSLASH, CHR ''u'', CHR ''0'', CHR ''0'', hex_char (n div 16), hex_char (n mod 16)]
      else [c])"

definition dump_str :: "string \<Rightarrow> string" where
  "dump_str s = QUOTE # concat (map escape_char s) @ [QUOTE]"

fun dumps :: "json \<Rightarrow> string" where
  "dumps JNull = ''null''"
| "dumps (JBool b) = (if b then ''true'' else ''false'')"
| "dumps (JInt i) = str_int i"
| "dumps (JFloat t) = t"
| "dumps (JStr s) = dump_str s"
| "dumps (JList xs) = ''['' @ join '', '' (map dumps xs) @ '']''"
| "dumps (JDict kvs) =
     ''{'' @ join '', '' (map (\<lambda>kv. dump_str (fst kv) @ '': '' @ dumps (snd kv)) kvs) @ ''}''"


section \<open>Parsing\<close>

definition json_space :: "char \<Rightarrow> bool" where
  "json_space c \<longleftrightarrow> c \<in> {CHR '' '', CHR 0x09, CHR 0x0A, CHR 0x0D}"

definition skip_ws :: "string \<Rightarrow> string" where
  "skip_ws s = dropWhile json_space s"

text \<open>The body of a string literal, after its opening quote.\<close>

definition unescape :: "char \<Rightarrow> char option" where
  "unescape c =
     (if c \<in> {QUOTE, BACKSLASH, CHR ''/''} then Some c
      else if c = CHR ''b'' then Some (CHR 0x08)
      else if c = CHR ''t'' then Some (CHR 0x09)
      else if c = CHR ''n'' then Some (CHR 0x0A)
      else if c = CHR ''f'' then Some (CHR 0x0C)
      else if c = CHR ''r'' then Some (CHR 0x0D)
      else None)"

fun hex4 :: "char list \<Rightarrow> nat option" where
  "hex4 [a, b, c, d] =
     (case (hex_val a, hex_val b, hex_val c, hex_val d) of
        (Some x, Some y, Some z, Some w) \<Rightarrow> Some (4096 * x + 256 * y + 16 * z + w)
      | _ \<Rightarrow> None)"
| "hex4 _ = None"

fun parse_str :: "string \<Rightarrow> string \<Rightarrow> (string \<times> string) option" where
  "parse_str acc [] = None"
| "parse_str acc (c # s) =
     (if c = QUOTE then Some (rev acc, s)
      else if c = BACKSLASH then
        (case s of
           [] \<Rightarrow> None
         | d # s' \<Rightarrow>
             if d = CHR ''u'' then
               (case hex4 (take 4 s') of
                  None \<Rightarrow> None
                | Some n \<Rightarrow> if n < 256 then parse_str (char_of n # acc) (drop 4 s') else None)
             else (case unescape d of None \<Rightarrow> None | Some e \<Rightarrow> parse_str (e # acc) s'))
      else if (of_char c :: nat) < 32 then None
      else parse_str (c # acc) s)"

definition num_char :: "char \<Rightarrow> bool" where
  "num_char c \<longleftrightarrow> is_digit c \<or> c \<in> set ''+-.eE''"

text \<open>A number literal: an optional sign, digits without a leading zero, fraction, exponent.\<close>

definition is_int_lit :: "string \<Rightarrow> bool" where
  "is_int_lit t \<longleftrightarrow>
     (let d = (if t \<noteq> [] \<and> hd t = CHR ''-'' then tl t else t)
      in isdigit d \<and> (hd d = CHR ''0'' \<longrightarrow> length d = 1))"

definition is_float_lit :: "string \<Rightarrow> bool" where
  "is_float_lit t \<longleftrightarrow>
     (let mant = takeWhile (\<lambda>c. c \<notin> set ''eE'') t;
          ex = dropWhile (\<lambda>c. c \<notin> set ''eE'') t;
          whole = takeWhile (\<lambda>c. c \<noteq> CHR ''.'') mant;
          frac = dropWhile (\<lambda>c. c \<noteq> CHR ''.'') mant
      in is_int_lit whole \<and> (frac \<noteq> [] \<or> ex \<noteq> []) \<and>
         (frac = [] \<or> isdigit (tl frac)) \<and>
         (ex = [] \<or>
          (let e = tl ex in isdigit (if e \<noteq> [] \<and> hd e \<in> set ''+-'' then tl e else e))))"

definition parse_num :: "string \<Rightarrow> (json \<times> string) option" where
  "parse_num s =
     (let t = takeWhile num_char s; rest = dropWhile num_char s
      in if is_int_lit t then map_option (\<lambda>i. (JInt i, rest)) (py_int t)
         else if is_float_lit t then Some (JFloat t, rest)
         else None)"

definition literal :: "string \<Rightarrow> json \<Rightarrow> string \<Rightarrow> (json \<times> string) option" where
  "literal w j s = (if startswith s w then Some (j, drop (length w) s) else None)"

text \<open>The fuel bounds the nesting and the number of elements; the length of the text is enough.\<close>

fun parse_value :: "nat \<Rightarrow> string \<Rightarrow> (json \<times> string) option"
  and parse_elems :: "nat \<Rightarrow> string \<Rightarrow> (json list \<times> string) option"
  and parse_members :: "nat \<Rightarrow> string \<Rightarrow> ((string \<times> json) list \<times> string) option" where
  "parse_value 0 s = None"
| "parse_value (Suc n) s =
     (case s of
        [] \<Rightarrow> None
      | c # s' \<Rightarrow>
          if c = QUOTE then map_option (\<lambda>(t, r). (JStr t, r)) (parse_str [] s')
          else if c = CHR ''['' then
            (case skip_ws s' of
               [] \<Rightarrow> None
             | d # r \<Rightarrow>
                 if d = CHR '']'' then Some (JList [], r)
                 else map_option (\<lambda>(xs, r). (JList xs, r)) (parse_elems n (d # r)))
          else if c = CHR ''{'' then
            (case skip_ws s' of
               [] \<Rightarrow> None
             | d # r \<Rightarrow>
                 if d = CHR ''}'' then Some (JDict [], r)
                 else map_option (\<lambda>(kvs, r). (JDict (dmerge [] kvs), r)) (parse_members n (d # r)))
          else if c = CHR ''n'' then literal ''null'' JNull s
          else if c = CHR ''t'' then literal ''true'' (JBool True) s
          else if c = CHR ''f'' then literal ''false'' (JBool False) s
          else parse_num s)"
| "parse_elems 0 s = None"
| "parse_elems (Suc n) s =
     (case parse_value n s of
        None \<Rightarrow> None
      | Some (x, r) \<Rightarrow>
          (case skip_ws r of
             [] \<Rightarrow> None
           | d # r' \<Rightarrow>
               if d = CHR '']'' then Some ([x], r')
               else if d = CHR '','' then
                 map_option (\<lambda>(xs, r). (x # xs, r)) (parse_elems n (skip_ws r'))
               else None))"
| "parse_members 0 s = None"
| "parse_members (Suc n) s =
     (case s of
        [] \<Rightarrow> None
      | q # s' \<Rightarrow>
          if q \<noteq> QUOTE then None
          else case parse_str [] s' of
            None \<Rightarrow> None
          | Some (k, r) \<Rightarrow>
              (case skip_ws r of
                 [] \<Rightarrow> None
               | d # r' \<Rightarrow>
                   if d \<noteq> CHR '':'' then None
                   else case parse_value n (skip_ws r') of
                     None \<Rightarrow> None
                   | Some (v, r'') \<Rightarrow>
                       (case skip_ws r'' of
                          [] \<Rightarrow> None
                        | e # t \<Rightarrow>
                            if e = CHR ''}'' then Some ([(k, v)], t)
                            else if e = CHR '','' then
                              map_option (\<lambda>(kvs, t). ((k, v) # kvs, t)) (parse_members n (skip_ws t))
                            else None)))"

definition loads :: "string \<Rightarrow> exn + json" where
  "loads s =
     (case parse_value (Suc (length s)) (skip_ws s) of
        Some (j, r) \<Rightarrow> if skip_ws r = [] then Inr j else Inl ValueError
      | None \<Rightarrow> Inl ValueError)"


section \<open>Equality and conversions\<close>

text \<open>
  Python compares dictionaries without regard to order. The values compared in the source are texts
  and containers of texts, so the equality of numbers across types (\<^verbatim>\<open>True == 1 == 1.0\<close>) is left out.
\<close>

function json_eq :: "json \<Rightarrow> json \<Rightarrow> bool" where
  "json_eq (JDict a) (JDict b) \<longleftrightarrow>
     length a = length b \<and>
     list_all (\<lambda>kv. case map_of b (fst kv) of None \<Rightarrow> False | Some w \<Rightarrow> json_eq (snd kv) w) a"
| "json_eq (JList a) (JList b) \<longleftrightarrow> length a = length b \<and> list_all (\<lambda>(x, y). json_eq x y) (zip a b)"
| "\<nexists>xs ys. a = JDict xs \<and> b = JDict ys \<Longrightarrow> \<nexists>xs ys. a = JList xs \<and> b = JList ys \<Longrightarrow> json_eq a b \<longleftrightarrow> a = b"
  by atomize_elim auto
termination
proof (relation "measure (\<lambda>(a, b). size a)", goal_cases)
  case (3 a b x y z)
  then show ?case
    by (auto dest!: set_zip_leftD simp: less_Suc_eq_le intro: size_list_estimation')
qed (auto simp: less_Suc_eq_le intro: size_list_estimation')

lemma json_eq_code [code]:
  "json_eq a b \<longleftrightarrow>
     (case (a, b) of
        (JDict xs, JDict ys) \<Rightarrow>
          length xs = length ys \<and>
          list_all (\<lambda>kv. case map_of ys (fst kv) of None \<Rightarrow> False | Some w \<Rightarrow> json_eq (snd kv) w) xs
      | (JList xs, JList ys) \<Rightarrow> length xs = length ys \<and> list_all (\<lambda>(x, y). json_eq x y) (zip xs ys)
      | _ \<Rightarrow> a = b)"
  by (cases a; cases b) simp_all

lemma json_eq_str [simp]: "json_eq (JStr s) (JStr t) \<longleftrightarrow> s = t"
  by simp

definition json_strs :: "string list \<Rightarrow> json" where
  "json_strs xs = JList (map JStr xs)"

text \<open>\<^verbatim>\<open>bool(j)\<close>\<close>

fun json_true :: "json \<Rightarrow> bool" where
  "json_true JNull = False"
| "json_true (JBool b) = b"
| "json_true (JInt i) = (i \<noteq> 0)"
| "json_true (JFloat t) = (\<exists>c \<in> set (takeWhile (\<lambda>c. c \<notin> set ''eE'') t). is_digit c \<and> c \<noteq> CHR ''0'')"
| "json_true (JStr s) = (s \<noteq> [])"
| "json_true (JList xs) = (xs \<noteq> [])"
| "json_true (JDict kvs) = (kvs \<noteq> [])"

text \<open>Well-formed values: keys are distinct at every level and floats are literals.\<close>

fun wf_json :: "json \<Rightarrow> bool" where
  "wf_json (JList xs) \<longleftrightarrow> list_all wf_json xs"
| "wf_json (JDict kvs) \<longleftrightarrow> distinct (map fst kvs) \<and> list_all (\<lambda>kv. wf_json (snd kv)) kvs"
| "wf_json (JFloat t) \<longleftrightarrow> is_float_lit t \<and> \<not> is_int_lit t \<and> (\<forall>c \<in> set t. num_char c) \<and> hd t \<noteq> QUOTE"
| "wf_json _ \<longleftrightarrow> True"


section \<open>Round trip\<close>

lemma hex_val_char: "n < 16 \<Longrightarrow> hex_val (hex_char n) = Some n"
  by (auto simp: hex_char_def hex_val_def Let_def)

lemma hex4_escape: "n < 256 \<Longrightarrow> hex4 [CHR ''0'', CHR ''0'', hex_char (n div 16), hex_char (n mod 16)] = Some n"
proof -
  assume "n < 256"
  then have "n div 16 < 16" "n mod 16 < 16" by auto
  moreover have "hex_val (CHR ''0'') = Some 0" by (simp add: hex_val_def)
  ultimately show ?thesis by (simp add: hex_val_char)
qed

lemma char_of_simps:
  "char_of (8 :: nat) = CHR 0x08" "char_of (9 :: nat) = CHR 0x09" "char_of (10 :: nat) = CHR 0x0A"
  "char_of (12 :: nat) = CHR 0x0C" "char_of (13 :: nat) = CHR 0x0D" "char_of (48 :: nat) = CHR ''0''"
  by (simp_all add: char_of_eq_iff)

lemma of_char_eq_iff: "(of_char c :: nat) = n \<longleftrightarrow> n < 256 \<and> c = char_of n"
  by (auto simp: of_char_of)

lemma take_drop_4: "take 4 (a # b # c # d # r) = [a, b, c, d]" "drop 4 (a # b # c # d # r) = r"
  by (simp_all add: numeral_eq_Suc)

lemma parse_str_escape: "parse_str acc (escape_char c @ r) = parse_str (c # acc) r"
proof -
  let ?n = "of_char c :: nat"
  have n: "?n < 256" by simp
  consider (quote) "c = QUOTE \<or> c = BACKSLASH" | (ctrl) "\<not> (c = QUOTE \<or> c = BACKSLASH)" "?n \<in> {8, 9, 10, 12, 13}"
    | (hex) "\<not> (c = QUOTE \<or> c = BACKSLASH)" "?n \<notin> {8, 9, 10, 12, 13}" "?n < 32 \<or> 126 < ?n"
    | (plain) "\<not> (c = QUOTE \<or> c = BACKSLASH)" "\<not> ?n < 32" "\<not> 126 < ?n"
    by auto
  then show ?thesis
  proof cases
    case quote
    then show ?thesis by (auto simp: escape_char_def Let_def QUOTE_def BACKSLASH_def unescape_def)
  next
    case ctrl
    then have "c = CHR 0x08 \<or> c = CHR 0x09 \<or> c = CHR 0x0A \<or> c = CHR 0x0C \<or> c = CHR 0x0D"
      by (auto simp: of_char_eq_iff char_of_simps)
    then show ?thesis by (auto simp: escape_char_def Let_def QUOTE_def BACKSLASH_def unescape_def)
  next
    case hex
    then have "escape_char c = [BACKSLASH, CHR ''u'', CHR ''0'', CHR ''0'', hex_char (?n div 16), hex_char (?n mod 16)]"
      by (auto simp: escape_char_def Let_def)
    then show ?thesis using hex4_escape [OF n] n
      by (simp add: QUOTE_def BACKSLASH_def take_drop_4 del: hex4.simps)
  next
    case plain
    then have "escape_char c = [c]" by (auto simp: escape_char_def Let_def)
    with plain show ?thesis by simp
  qed
qed

lemma parse_str_escapes: "parse_str acc (concat (map escape_char s) @ r) = parse_str (rev s @ acc) r"
proof (induction s arbitrary: acc)
  case (Cons c s)
  have "parse_str acc (concat (map escape_char (c # s)) @ r) = parse_str (c # acc) (concat (map escape_char s) @ r)"
    by (simp add: parse_str_escape del: parse_str.simps)
  with Cons.IH show ?case by simp
qed simp

lemma parse_str_dump: "parse_str [] (concat (map escape_char s) @ QUOTE # r) = Some (s, r)"
  by (simp add: parse_str_escapes)

lemma str_nat_lead: "n \<noteq> 0 \<Longrightarrow> hd (str_nat n) \<noteq> CHR ''0''"
proof (induction n rule: str_nat.induct)
  case (1 n)
  show ?case
  proof (cases "n < 10")
    case True
    with "1.prems" have "of_char (digit_char n) \<noteq> (of_char (CHR ''0'') :: nat)" by simp
    then have "digit_char n \<noteq> CHR ''0''" by metis
    then show ?thesis using True by (simp add: str_nat.simps [of n])
  next
    case False
    with "1.IH" show ?thesis by (simp add: str_nat.simps [of n])
  qed
qed

lemma str_nat_zero: "str_nat 0 = ''0''"
  by (simp add: str_nat.simps digit_char_def char_of_simps)

lemma is_int_lit_str_nat: "is_int_lit (str_nat n)" "is_int_lit (CHR ''-'' # str_nat n)"
proof -
  have d: "isdigit (str_nat n)" using str_nat_digits by (auto simp: isdigit_def)
  have "hd (str_nat n) \<noteq> CHR ''-''"
    using str_nat_digits [of "hd (str_nat n)" n] digit_facts by (metis hd_in_set str_nat_nonempty)
  moreover have "hd (str_nat n) = CHR ''0'' \<Longrightarrow> length (str_nat n) = 1"
    using str_nat_lead [of n] by (cases "n = 0") (auto simp: str_nat_zero)
  ultimately show "is_int_lit (str_nat n)" "is_int_lit (CHR ''-'' # str_nat n)"
    using d by (auto simp: is_int_lit_def Let_def)
qed

lemma is_int_lit_str_int: "is_int_lit (str_int i)"
  by (simp add: str_int_def is_int_lit_str_nat)

lemma num_char_str_int: "\<forall>c \<in> set (str_int i). num_char c"
  using str_int_chars by (auto simp: num_char_def)

lemma takeWhile_all_append:
  assumes "\<forall>c \<in> set t. P c" and "rest = [] \<or> \<not> P (hd rest)"
  shows "takeWhile P (t @ rest) = t" "dropWhile P (t @ rest) = rest"
  using assms by (induction t) (cases rest; auto)+

lemma parse_num_int:
  assumes "rest = [] \<or> \<not> num_char (hd rest)"
  shows "parse_num (str_int i @ rest) = Some (JInt i, rest)"
  using takeWhile_all_append [OF num_char_str_int assms] is_int_lit_str_int
  by (simp add: parse_num_def)

lemma parse_num_float:
  assumes "wf_json (JFloat t)" and "rest = [] \<or> \<not> num_char (hd rest)"
  shows "parse_num (t @ rest) = Some (JFloat t, rest)"
  using takeWhile_all_append [of t num_char rest] assms by (simp add: parse_num_def)

text \<open>What separates elements and ends a value is neither whitespace nor part of a number.\<close>

definition ends_value :: "string \<Rightarrow> bool" where
  "ends_value r \<longleftrightarrow> r = [] \<or> \<not> num_char (hd r)"

lemma ends_value_simps [simp]:
  "ends_value (CHR '','' # r)" "ends_value (CHR '']'' # r)" "ends_value (CHR ''}'' # r)" "ends_value []"
  by (simp_all add: ends_value_def num_char_def is_digit_def)

lemma skip_ws_simps [simp]:
  "skip_ws (CHR '','' # r) = CHR '','' # r" "skip_ws (CHR '']'' # r) = CHR '']'' # r"
  "skip_ws (CHR ''}'' # r) = CHR ''}'' # r" "skip_ws (CHR '':'' # r) = CHR '':'' # r"
  "skip_ws (CHR '' '' # r) = skip_ws r" "skip_ws [] = []"
  by (simp_all add: skip_ws_def json_space_def)

lemma first_char_dumps:
  assumes "wf_json j"
  obtains c r where "dumps j = c # r" "\<not> json_space c" "c \<noteq> CHR '']''" "c \<noteq> CHR ''}''"
proof (cases j)
  case (JBool b)
  then show thesis using that by (cases b) (auto simp: json_space_def)
next
  case (JInt i)
  then obtain c r where "dumps j = c # r" by (cases "str_int i") auto
  moreover from this JInt have "is_digit c \<or> c = CHR ''-''" using str_int_chars [of c i] by simp
  then have "\<not> json_space c" "c \<noteq> CHR '']''" "c \<noteq> CHR ''}''" by (auto simp: json_space_def is_digit_def)
  ultimately show thesis using that by blast
next
  case (JFloat t)
  with assms have "t \<noteq> []" by (auto simp: is_float_lit_def is_int_lit_def isdigit_def Let_def)
  then obtain c r where "dumps j = c # r" "num_char c" using JFloat assms by (cases t) auto
  moreover from this have "\<not> json_space c" "c \<noteq> CHR '']''" "c \<noteq> CHR ''}''"
    by (auto simp: json_space_def num_char_def is_digit_def)
  ultimately show thesis using that by blast
qed (auto simp: dump_str_def QUOTE_def json_space_def intro: that)

lemma skip_ws_dumps [simp]: "wf_json j \<Longrightarrow> skip_ws (dumps j @ r) = dumps j @ r"
  by (rule first_char_dumps [of j]) (auto simp: skip_ws_def)

lemma skip_ws_dump_str [simp]: "skip_ws (dump_str k @ r) = dump_str k @ r"
  by (simp add: skip_ws_def dump_str_def QUOTE_def json_space_def)

lemma parse_members_step:
  "parse_members (Suc n) (dump_str k @ '': '' @ s) =
     (case parse_value n (skip_ws s) of
        None \<Rightarrow> None
      | Some (v, r'') \<Rightarrow>
          (case skip_ws r'' of
             [] \<Rightarrow> None
           | e # t \<Rightarrow>
               if e = CHR ''}'' then Some ([(k, v)], t)
               else if e = CHR '','' then
                 map_option (\<lambda>(kvs, t). ((k, v) # kvs, t)) (parse_members n (skip_ws t))
               else None))"
proof -
  have "dump_str k @ '': '' @ s = QUOTE # (concat (map escape_char k) @ QUOTE # '': '' @ s)"
    by (simp add: dump_str_def)
  then show ?thesis using parse_str_dump [of k "'': '' @ s"] by (simp del: parse_str.simps)
qed

lemma parse_elems_dumps:
  assumes "\<And>x n r. x \<in> set xs \<Longrightarrow> length (dumps x) \<le> n \<Longrightarrow> ends_value r \<Longrightarrow> parse_value n (dumps x @ r) = Some (x, r)"
    and "\<forall>x \<in> set xs. wf_json x" and "xs \<noteq> []" and "length (join '', '' (map dumps xs)) < n"
  shows "parse_elems n (join '', '' (map dumps xs) @ '']'' @ r) = Some (xs, r)"
  using assms
proof (induction xs arbitrary: n)
  case (Cons x xs)
  obtain m where n: "n = Suc m" using Cons.prems(4) by (cases n) auto
  show ?case
  proof (cases "xs = []")
    case True
    with Cons.prems n show ?thesis by simp
  next
    case False
    let ?rest = "join '', '' (map dumps xs) @ '']'' @ r"
    have j: "join '', '' (map dumps (x # xs)) @ '']'' @ r = dumps x @ '', '' @ ?rest"
      using False by (simp add: join_Cons)
    have "parse_value m (dumps x @ '', '' @ ?rest) = Some (x, '', '' @ ?rest)"
      using Cons.prems(1,4) False n by (auto simp: join_Cons)
    moreover have "skip_ws ?rest = ?rest"
      using False Cons.prems(2) by (cases xs; cases "tl xs") auto
    moreover have "parse_elems m ?rest = Some (xs, r)"
      using Cons.IH [of m] Cons.prems False n by (auto simp: join_Cons)
    ultimately show ?thesis unfolding j n by simp
  qed
qed simp

lemma parse_members_dumps:
  fixes f defines "f \<equiv> \<lambda>kv. dump_str (fst kv) @ '': '' @ dumps (snd kv)"
  assumes "\<And>kv n r. kv \<in> set kvs \<Longrightarrow> length (dumps (snd kv)) \<le> n \<Longrightarrow> ends_value r \<Longrightarrow>
      parse_value n (dumps (snd kv) @ r) = Some (snd kv, r)"
    and "\<forall>kv \<in> set kvs. wf_json (snd kv)" and "kvs \<noteq> []" and "length (join '', '' (map f kvs)) < n"
  shows "parse_members n (join '', '' (map f kvs) @ ''}'' @ r) = Some (kvs, r)"
  using assms(2-)
proof (induction kvs arbitrary: n)
  case (Cons kv kvs)
  obtain m where n: "n = Suc m" using Cons.prems(4) by (cases n) auto
  obtain k v where kv: "kv = (k, v)" by fastforce
  show ?case
  proof (cases "kvs = []")
    case True
    have "parse_value m (dumps v @ ''}'' @ r) = Some (v, ''}'' @ r)"
      using Cons.prems(1,4) True n by (auto simp: f_def kv)
    with Cons.prems(2) True show ?thesis
      using parse_members_step [of m k "dumps v @ ''}'' @ r"] by (simp add: f_def kv n del: parse_members.simps)
  next
    case False
    let ?rest = "join '', '' (map f kvs) @ ''}'' @ r"
    have j: "join '', '' (map f (kv # kvs)) @ ''}'' @ r = dump_str k @ '': '' @ dumps v @ '', '' @ ?rest"
      using False by (simp add: join_Cons f_def kv)
    have "parse_value m (dumps v @ '', '' @ ?rest) = Some (v, '', '' @ ?rest)"
      using Cons.prems(1) [of kv m "'', '' @ ?rest"] Cons.prems(4) False n by (simp add: join_Cons f_def kv)
    moreover have "skip_ws ?rest = ?rest"
      using False by (cases kvs; cases "tl kvs") (auto simp: f_def)
    moreover have "parse_members m ?rest = Some (kvs, r)"
      using Cons.IH [of m] Cons.prems False n by (auto simp: join_Cons)
    ultimately show ?thesis using Cons.prems(2)
      unfolding j n parse_members_step by (simp add: kv del: parse_members.simps)
  qed
qed simp

lemma dmerge_distinct: "distinct (map fst kvs) \<Longrightarrow> dmerge [] kvs = kvs"
proof -
  have "distinct (map fst (acc @ kvs)) \<Longrightarrow> fold (\<lambda>(k, v). dset k v) kvs acc = acc @ kvs" for acc
  proof (induction kvs arbitrary: acc)
    case (Cons kv kvs)
    obtain k v where kv: "kv = (k, v)" by fastforce
    with Cons.prems have "k \<notin> set (map fst acc)" by auto
    then have "AList.update k v acc = acc @ [(k, v)]" by (induction acc) auto
    with Cons.IH [of "acc @ [(k, v)]"] Cons.prems kv show ?case by (simp add: dset_def)
  qed simp
  from this [of "[]"] show "distinct (map fst kvs) \<Longrightarrow> ?thesis" by (simp add: dmerge_def)
qed

lemma dumps_nonempty [simp]: "wf_json j \<Longrightarrow> dumps j \<noteq> []"
  by (rule first_char_dumps [of j]) auto

lemma parse_value_num:
  assumes "num_char c" "c \<noteq> CHR ''e''" "c \<noteq> CHR ''E''"
  shows "parse_value (Suc n) (c # s) = parse_num (c # s)"
proof -
  have "c \<notin> {QUOTE, CHR ''['', CHR ''{'', CHR ''n'', CHR ''t'', CHR ''f''}"
    using assms by (auto simp: QUOTE_def num_char_def is_digit_def)
  then show ?thesis by simp
qed

lemma num_lit_first:
  assumes "is_int_lit t" shows "t \<noteq> []" "hd t \<noteq> CHR ''e''" "hd t \<noteq> CHR ''E''"
  using assms by (cases t; auto simp: is_int_lit_def isdigit_def is_digit_def Let_def split: if_splits)+

lemma float_lit_first:
  assumes "is_float_lit t" shows "t \<noteq> []" "hd t \<noteq> CHR ''e''" "hd t \<noteq> CHR ''E''"
proof -
  let ?w = "takeWhile (\<lambda>c. c \<noteq> CHR ''.'') (takeWhile (\<lambda>c. c \<notin> set ''eE'') t)"
  have w: "is_int_lit ?w" using assms by (simp add: is_float_lit_def Let_def)
  then have "?w \<noteq> []" by (rule num_lit_first)
  then obtain c r where "t = c # r" "c \<notin> set ''eE''" by (cases t) (auto split: if_splits)
  then show "t \<noteq> []" "hd t \<noteq> CHR ''e''" "hd t \<noteq> CHR ''E''" by auto
qed

lemma parse_value_dumps:
  "wf_json j \<Longrightarrow> length (dumps j) \<le> n \<Longrightarrow> ends_value r \<Longrightarrow> parse_value n (dumps j @ r) = Some (j, r)"
proof (induction j arbitrary: n r)
  case JNull
  then obtain m where "n = Suc m" by (cases n) simp_all
  then show ?case by (simp add: QUOTE_def literal_def)
next
  case (JBool b)
  then obtain m where "n = Suc m" by (cases n; cases b) simp_all
  then show ?case by (cases b) (simp_all add: QUOTE_def literal_def)
next
  case (JInt i)
  obtain c s where cs: "str_int i = c # s" by (cases "str_int i") auto
  obtain m where n: "n = Suc m" using JInt cs by (cases n) auto
  have "num_char c" using num_char_str_int [of i] cs by simp
  moreover have "c \<noteq> CHR ''e''" "c \<noteq> CHR ''E''" using num_lit_first [OF is_int_lit_str_int [of i]] cs by simp_all
  ultimately have "parse_value n (str_int i @ r) = parse_num (str_int i @ r)"
    unfolding n cs append_Cons by (rule parse_value_num)
  then show ?case using parse_num_int JInt by (simp add: ends_value_def)
next
  case (JFloat t)
  then have lit: "is_float_lit t" by simp
  then obtain c s where cs: "t = c # s" using float_lit_first(1) by (cases t) auto
  obtain m where n: "n = Suc m" using JFloat cs by (cases n) auto
  have "num_char c" using JFloat(1) cs by simp
  moreover have "c \<noteq> CHR ''e''" "c \<noteq> CHR ''E''" using float_lit_first [OF lit] cs by simp_all
  ultimately have "parse_value n (t @ r) = parse_num (t @ r)"
    unfolding n cs append_Cons by (rule parse_value_num)
  then show ?case using parse_num_float JFloat by (simp add: ends_value_def)
next
  case (JStr s)
  then obtain m where "n = Suc m" by (cases n) (simp_all add: dump_str_def)
  then show ?case using parse_str_dump [of s r] by (simp add: dump_str_def del: parse_str.simps)
next
  case (JList xs)
  obtain m where n: "n = Suc m" using JList.prems by (cases n) auto
  have wf: "\<forall>x \<in> set xs. wf_json x" using JList.prems by (simp add: list_all_iff)
  show ?case
  proof (cases "xs = []")
    case True
    then show ?thesis by (simp add: n QUOTE_def)
  next
    case False
    let ?b = "join '', '' (map dumps xs) @ '']'' @ r"
    have e: "parse_elems m ?b = Some (xs, r)"
    proof (rule parse_elems_dumps [OF _ wf False])
      show "parse_value k (dumps x @ t) = Some (x, t)"
        if "x \<in> set xs" "length (dumps x) \<le> k" "ends_value t" for x k t
        using JList.IH [OF that(1)] wf that by blast
      show "length (join '', '' (map dumps xs)) < m" using JList.prems(2) n by simp
    qed
    obtain c s where "?b = c # s" "\<not> json_space c" "c \<noteq> CHR '']''"
      using False wf by (cases xs; cases "tl xs"; auto elim!: first_char_dumps)
    with e show ?thesis by (simp add: n QUOTE_def skip_ws_def)
  qed
next
  case (JDict kvs)
  obtain m where n: "n = Suc m" using JDict.prems by (cases n) auto
  have wf: "\<forall>kv \<in> set kvs. wf_json (snd kv)" using JDict.prems by (simp add: list_all_iff)
  show ?case
  proof (cases "kvs = []")
    case True
    then show ?thesis by (simp add: n QUOTE_def)
  next
    case False
    let ?b = "join '', '' (map (\<lambda>kv. dump_str (fst kv) @ '': '' @ dumps (snd kv)) kvs) @ ''}'' @ r"
    have e: "parse_members m ?b = Some (kvs, r)"
    proof (rule parse_members_dumps [OF _ wf False])
      show "parse_value k (dumps (snd kv) @ t) = Some (snd kv, t)"
        if "kv \<in> set kvs" "length (dumps (snd kv)) \<le> k" "ends_value t" for kv k t
        using JDict.IH [OF that(1), of "snd kv"] wf that by (metis snds.intros)
      show "length (join '', '' (map (\<lambda>kv. dump_str (fst kv) @ '': '' @ dumps (snd kv)) kvs)) < m"
        using JDict.prems(2) n by simp
    qed
    obtain s where "?b = QUOTE # s"
      using False by (cases kvs; cases "tl kvs") (auto simp: dump_str_def)
    with e show ?thesis using JDict.prems(1)
      by (simp add: n QUOTE_def skip_ws_def json_space_def dmerge_distinct)
  qed
qed

text \<open>Parsing the text that was printed for a value gives the value back.\<close>

lemma loads_dumps:
  assumes "wf_json j"
  shows "loads (dumps j) = Inr j"
  using parse_value_dumps [OF assms, of "Suc (length (dumps j))" "[]"] skip_ws_dumps [OF assms, of "[]"]
  by (simp add: loads_def)

text \<open>A list of strings, as the charm keeps chains and trust lists.\<close>

fun str_items :: "json list \<Rightarrow> exn + string list" where
  "str_items [] = Inr []"
| "str_items (JStr s # xs) = bindE (str_items xs) (\<lambda>ys. Inr (s # ys))"
| "str_items (_ # xs) = Inl TypeError"

text \<open>\<^verbatim>\<open>json.loads(text) or []\<close> for such a list; a falsy value counts as the empty list.\<close>

definition loads_strs :: "string \<Rightarrow> exn + string list" where
  "loads_strs t =
     bindE (loads t) (\<lambda>j.
       if \<not> json_true j then Inr []
       else case j of JList xs \<Rightarrow> str_items xs | _ \<Rightarrow> Inl TypeError)"

lemma str_items_strs [simp]: "str_items (map JStr xs) = Inr xs"
  by (induction xs) simp_all

lemma wf_json_strs [simp]: "wf_json (json_strs xs)"
  by (simp add: json_strs_def list_all_iff)

lemma loads_strs_dumps [simp]: "loads_strs (dumps (json_strs xs)) = Inr xs"
  by (cases xs) (simp_all add: loads_strs_def loads_dumps, simp_all add: json_strs_def)

lemma loads_null [simp]: "loads ''null'' = Inr JNull"
  using loads_dumps [of JNull] by simp

lemma loads_strs_null [simp]: "loads_strs ''null'' = Inr []"
  by (simp add: loads_strs_def)

section \<open>Parsed values are well formed\<close>

lemma parse_num_wf: "parse_num s = Some (j, r) \<Longrightarrow> wf_json j"
proof -
  assume a: "parse_num s = Some (j, r)"
  let ?t = "takeWhile num_char s"
  have num: "\<forall>c \<in> set ?t. num_char c" by (meson set_takeWhileD)
  show ?thesis
  proof (cases "is_int_lit ?t")
    case True
    with a show ?thesis by (auto simp: parse_num_def Let_def)
  next
    case False
    with a have t: "is_float_lit ?t" "j = JFloat ?t" by (auto simp: parse_num_def Let_def split: if_splits)
    then have "?t \<noteq> []" using float_lit_first(1) by blast
    then have "num_char (hd ?t)" using num by (metis hd_in_set)
    then have "hd ?t \<noteq> QUOTE" by (auto simp: num_char_def is_digit_def QUOTE_def)
    with t False num show ?thesis by simp
  qed
qed

lemma map_of_dmerge_Nil_keys:
  "set (dmerge [] kvs) \<subseteq> set kvs"
proof -
  have "set (fold (\<lambda>(k, v). dset k v) kvs acc) \<subseteq> set acc \<union> set kvs" for acc :: "('a \<times> 'b) list"
  proof (induction kvs arbitrary: acc)
    case (Cons kv kvs)
    obtain k v where kv: "kv = (k, v)" by fastforce
    have "set (AList.update k v acc) \<subseteq> insert (k, v) (set acc)" by (induction acc) auto
    with Cons.IH [of "dset k v acc"] show ?case by (auto simp: kv dset_def)
  qed simp
  from this [of "[]"] show ?thesis by (simp add: dmerge_def)
qed

lemma parse_wf:
  "parse_value n s = Some (j, r) \<Longrightarrow> wf_json j"
  "parse_elems n s = Some (xs, r) \<Longrightarrow> list_all wf_json xs"
  "parse_members n s = Some (kvs, r) \<Longrightarrow> list_all (\<lambda>kv. wf_json (snd kv)) kvs"
proof (induction n s and n s and n s arbitrary: j r and xs r and kvs r
    rule: parse_value_parse_elems_parse_members.induct)
  case (2 n s)
  from "2.prems" obtain c s' where s: "s = c # s'" by (cases s) auto
  show ?case
  proof (cases "c = QUOTE \<or> c = CHR ''n'' \<or> c = CHR ''t'' \<or> c = CHR ''f''")
    case True
    with "2.prems" s show ?thesis
      by (auto simp: literal_def QUOTE_def simp del: parse_str.simps split: if_splits)
  next
    case other: False
    show ?thesis
    proof (cases "c = CHR ''[''")
      case True
      with "2.prems" "2.IH"(1) other s show ?thesis
        by (auto split: list.splits if_splits simp: list_all_iff)
    next
      case nl: False
      show ?thesis
      proof (cases "c = CHR ''{''")
        case True
        with "2.prems" other nl s obtain d r0 where sk: "skip_ws s' = d # r0"
          by (auto split: list.splits)
        show ?thesis
        proof (cases "d = CHR ''}''")
          case True
          with \<open>c = CHR ''{''\<close> "2.prems" other s sk show ?thesis by (auto simp: QUOTE_def)
        next
          case False
          with \<open>c = CHR ''{''\<close> "2.prems" other s sk obtain kvs where
            kvs: "parse_members n (d # r0) = Some (kvs, r)" "j = JDict (dmerge [] kvs)"
            by (auto simp: QUOTE_def)
          have "list_all (\<lambda>kv. wf_json (snd kv)) kvs"
            using "2.IH"(2) \<open>c = CHR ''{''\<close> other s sk False kvs(1) by (simp add: QUOTE_def)
          then have "list_all (\<lambda>kv. wf_json (snd kv)) (dmerge [] kvs)"
            using map_of_dmerge_Nil_keys [of kvs] by (auto simp: list_all_iff)
          moreover have "distinct (map fst (dmerge [] kvs))"
            using wf_dict_dmerge [of "[]" kvs] by (simp add: wf_dict_def keys_def)
          ultimately show ?thesis using kvs(2) by simp
        qed
      next
        case False
        with "2.prems" other nl s show ?thesis using parse_num_wf by (auto simp: QUOTE_def)
      qed
    qed
  qed
next
  case (4 n s)
  then show ?case by (auto split: option.splits list.splits if_splits)
next
  case (6 n s)
  then show ?case by (auto split: option.splits list.splits if_splits simp del: parse_str.simps)
qed auto

lemma loads_wf: "loads s = Inr j \<Longrightarrow> wf_json j"
  by (auto simp: loads_def simp del: parse_value.simps dest: parse_wf(1) split: option.splits if_splits)

end
