(* ===== verification/Databag.thy ===== *)
theory Databag
  imports Literals Json
begin

text \<open>
  Relation data as the charm sees it through the data-interfaces library
  (\<^verbatim>\<open>lib/charms/data_platform_libs/v0/data_interfaces.py\<close>): every databag has a part that is
  published in the relation and a part kept in Juju secrets, and the library decides per field
  where it goes. The library falls back to the published part when a secret field is already
  there. On top of it are \<^verbatim>\<open>RelationState.update\<close> for the unit's databag and
  \<^verbatim>\<open>KafkaCluster.update\<close> for the application's (\<^verbatim>\<open>core/models.py\<close>).

  The locale \<open>field_store\<close> is the contract the rest of the charm relies on: a field reads as
  it was last written. Both databags satisfy it.
\<close>

section \<open>Databags with secrets\<close>

record bag =
  plain :: "(string, string) dict"
  secret :: "(string, string) dict"

definition empty_bag :: bag where
  "empty_bag = \<lparr>plain = [], secret = []\<rparr>"

definition fallback_to_databag :: "string list \<Rightarrow> bool \<Rightarrow> bag \<Rightarrow> bool" where
  "fallback_to_databag secs leader b \<longleftrightarrow>
     secs \<noteq> [] \<and> leader \<and> list_ex (\<lambda>f. f \<in> set (keys (plain b))) secs"

text \<open>\<^verbatim>\<open>_process_secret_fields\<close>: whether a field is handled as a secret.\<close>

definition as_secret :: "string list \<Rightarrow> bool \<Rightarrow> bag \<Rightarrow> string \<Rightarrow> bool" where
  "as_secret secs leader b k \<longleftrightarrow> k \<in> set secs \<and> \<not> fallback_to_databag secs leader b"

text \<open>
  \<^verbatim>\<open>DataDict.get(k, "")\<close>: a field that is not found as a secret gets a second chance as a
  normal one.
\<close>

definition fetch_field :: "string list \<Rightarrow> bool \<Rightarrow> bag \<Rightarrow> string \<Rightarrow> string" where
  "fetch_field secs leader b k =
     (case (if as_secret secs leader b k then map_of (secret b) k else None) of
        Some v \<Rightarrow> v
      | None \<Rightarrow> dget (plain b) k '''')"

definition update_field :: "string list \<Rightarrow> bool \<Rightarrow> string \<Rightarrow> string \<Rightarrow> bag \<Rightarrow> bag" where
  "update_field secs leader k v b =
     (if as_secret secs leader b k then b\<lparr>secret := dset k v (secret b)\<rparr>
      else if v = [] then b\<lparr>plain := ddel k (plain b)\<rparr>
      else b\<lparr>plain := dset k v (plain b)\<rparr>)"

definition delete_field :: "string list \<Rightarrow> bool \<Rightarrow> string \<Rightarrow> bag \<Rightarrow> bag" where
  "delete_field secs leader k b =
     (if as_secret secs leader b k \<and> k \<in> set (keys (secret b)) then b\<lparr>secret := ddel k (secret b)\<rparr>
      else b\<lparr>plain := ddel k (plain b)\<rparr>)"


section \<open>The contract\<close>

locale field_store =
  fixes get :: "'s \<Rightarrow> string \<Rightarrow> string"
    and put :: "string \<Rightarrow> string \<Rightarrow> 's \<Rightarrow> 's"
    and inv :: "'s \<Rightarrow> bool"
  assumes get_put: "inv s \<Longrightarrow> get (put k v s) k' = (if k' = k then v else get s k')"
    and inv_put: "inv s \<Longrightarrow> inv (put k v s)"
begin

lemma inv_fold: "inv s \<Longrightarrow> inv (fold (\<lambda>(k, v). put k v) items s)"
  by (induction items arbitrary: s) (auto simp: inv_put)

lemma get_fold:
  "inv s \<Longrightarrow> get (fold (\<lambda>(k, v). put k v) items s) k =
     (case map_of (rev items) k of None \<Rightarrow> get s k | Some v \<Rightarrow> v)"
  by (induction items rule: rev_induct) (auto simp: get_put inv_fold)

lemma get_fold_other:
  "inv s \<Longrightarrow> k \<notin> set (keys items) \<Longrightarrow> get (fold (\<lambda>(k, v). put k v) items s) k = get s k"
proof -
  assume "inv s" "k \<notin> set (keys items)"
  then have "map_of (rev items) k = None"
    by (simp add: map_of_eq_None_iff keys_def del: set_keys)
  with \<open>inv s\<close> show ?thesis by (simp add: get_fold)
qed

end


section \<open>The unit's databag\<close>

text \<open>\<^verbatim>\<open>RelationState.update\<close>: writes the non-empty values, then removes the empty ones.\<close>

definition unit_update :: "bool \<Rightarrow> (string, string) dict \<Rightarrow> bag \<Rightarrow> bag" where
  "unit_update leader items b =
     (let update_content = filter (\<lambda>(k, v). v \<noteq> []) items;
          delete_fields = map fst (filter (\<lambda>(k, v). v = []) items);
          b = fold (\<lambda>(k, v). update_field SECRETS_UNIT leader k v) update_content b
      in fold (delete_field SECRETS_UNIT leader) delete_fields b)"

definition unit_get :: "bool \<Rightarrow> bag \<Rightarrow> string \<Rightarrow> string" where
  "unit_get leader b k = fetch_field SECRETS_UNIT leader b k"

definition unit_put :: "bool \<Rightarrow> string \<Rightarrow> string \<Rightarrow> bag \<Rightarrow> bag" where
  "unit_put leader k v b =
     (if v = [] then delete_field SECRETS_UNIT leader k b else update_field SECRETS_UNIT leader k v b)"

definition unit_bag_ok :: "bag \<Rightarrow> bool" where
  "unit_bag_ok b \<longleftrightarrow> (\<forall>k \<in> set SECRETS_UNIT. k \<notin> set (keys (plain b)))"


section \<open>The application's databag\<close>

definition app_secret_key :: "string \<Rightarrow> bool" where
  "app_secret_key k \<longleftrightarrow> k \<in> set SECRETS_APP \<or> startswith k ''relation-''"

text \<open>
  The peer application interface has no static secret fields: its secret fields are those
  present in the secret, and the one just being set.
\<close>

definition app_get :: "bool \<Rightarrow> bag \<Rightarrow> string \<Rightarrow> string" where
  "app_get leader b k = fetch_field (keys (secret b)) leader b k"

definition set_secret :: "bool \<Rightarrow> string \<Rightarrow> string \<Rightarrow> bag \<Rightarrow> bag" where
  "set_secret leader k v b =
     (if \<not> leader then b
      else update_field (if k \<in> set (keys (secret b)) then keys (secret b) else keys (secret b) @ [k]) leader k v b)"

definition delete_secret :: "bool \<Rightarrow> string \<Rightarrow> bag \<Rightarrow> bag" where
  "delete_secret leader k b =
     (if k \<notin> set (keys (secret b)) then b
      else if \<not> leader then b
      else delete_field (keys (secret b)) leader k b)"

definition update_relation_data :: "bool \<Rightarrow> string \<Rightarrow> string \<Rightarrow> bag \<Rightarrow> bag" where
  "update_relation_data leader k v b =
     (if \<not> leader then b else update_field (keys (secret b)) leader k v b)"

definition app_put :: "bool \<Rightarrow> string \<Rightarrow> string \<Rightarrow> bag \<Rightarrow> bag" where
  "app_put leader k v b =
     (if app_secret_key k then
        (if v \<noteq> [] then set_secret leader k v b else delete_secret leader k b)
      else update_relation_data leader k v b)"

text \<open>\<^verbatim>\<open>KafkaCluster.update\<close>\<close>

definition app_update :: "bool \<Rightarrow> (string, string) dict \<Rightarrow> bag \<Rightarrow> bag" where
  "app_update leader items b = fold (\<lambda>(k, v). app_put leader k v) items b"

definition app_items :: "bag \<Rightarrow> (string, string) dict" where
  "app_items b = dmerge (plain b) (secret b)"

definition app_bag_ok :: "bag \<Rightarrow> bool" where
  "app_bag_ok b \<longleftrightarrow>
     (\<forall>k \<in> set (keys (plain b)). \<not> app_secret_key k) \<and> (\<forall>k \<in> set (keys (secret b)). app_secret_key k)"


section \<open>Both databags meet the contract\<close>

lemma fallback_unit: "unit_bag_ok b \<Longrightarrow> \<not> fallback_to_databag SECRETS_UNIT leader b"
  by (auto simp: unit_bag_ok_def fallback_to_databag_def list_ex_iff)

lemma fallback_app: "app_bag_ok b \<Longrightarrow> (\<forall>k \<in> set secs. app_secret_key k) \<Longrightarrow> \<not> fallback_to_databag secs leader b"
  by (auto simp: app_bag_ok_def fallback_to_databag_def list_ex_iff)

interpretation unit_store: field_store "unit_get leader" "unit_put leader" unit_bag_ok for leader
proof unfold_locales
  fix b :: bag and k v k' :: string
  assume ok: "unit_bag_ok b"
  note f = fallback_unit [OF ok, of leader]
  show ok': "unit_bag_ok (unit_put leader k v b)"
    using ok f by (auto simp: unit_put_def unit_bag_ok_def update_field_def delete_field_def as_secret_def)
  note f' = fallback_unit [OF ok', of leader]
  show "unit_get leader (unit_put leader k v b) k' = (if k' = k then v else unit_get leader b k')"
    using ok f f' unfolding unit_get_def fetch_field_def as_secret_def
    by (auto simp: unit_put_def update_field_def delete_field_def as_secret_def dget_def unit_bag_ok_def
          split: option.splits)
qed

lemma app_get_ok:
  assumes "app_bag_ok b"
  shows "app_get leader b k = (if app_secret_key k then dget (secret b) k [] else dget (plain b) k [])"
proof -
  have "\<not> fallback_to_databag (keys (secret b)) leader b"
    using fallback_app [OF assms] assms by (auto simp: app_bag_ok_def)
  moreover have "app_secret_key k \<Longrightarrow> map_of (plain b) k = None" "\<not> app_secret_key k \<Longrightarrow> map_of (secret b) k = None"
    using assms by (auto simp: app_bag_ok_def dom_def)
  ultimately show ?thesis
    by (auto simp: app_get_def fetch_field_def as_secret_def dget_def split: option.splits)
qed

lemma app_put_ok:
  assumes "app_bag_ok b"
  shows "app_put True k v b =
    (if app_secret_key k then
       (if v \<noteq> [] then b\<lparr>secret := dset k v (secret b)\<rparr>
        else if k \<in> set (keys (secret b)) then b\<lparr>secret := ddel k (secret b)\<rparr> else b)
     else if v = [] then b\<lparr>plain := ddel k (plain b)\<rparr> else b\<lparr>plain := dset k v (plain b)\<rparr>)"
proof -
  have secs: "\<forall>x \<in> set (keys (secret b)). app_secret_key x" using assms by (auto simp: app_bag_ok_def)
  have f: "\<not> fallback_to_databag (keys (secret b)) True b"
    and fk: "app_secret_key k \<Longrightarrow> \<not> fallback_to_databag (keys (secret b) @ [k]) True b"
    using fallback_app [OF assms] secs by auto
  from secs have "\<not> app_secret_key k \<Longrightarrow> k \<notin> set (keys (secret b))" by blast
  with f fk show ?thesis
    by (simp add: app_put_def set_secret_def delete_secret_def update_relation_data_def update_field_def
      delete_field_def as_secret_def)
qed

lemma app_bag_ok_put: "app_bag_ok b \<Longrightarrow> app_bag_ok (app_put True k v b)"
  by (simp add: app_put_ok) (auto simp: app_bag_ok_def)

interpretation app_store: field_store "app_get True" "app_put True" app_bag_ok
proof unfold_locales
  fix b :: bag and k v k' :: string
  assume ok: "app_bag_ok b"
  then show "app_bag_ok (app_put True k v b)" by (rule app_bag_ok_put)
  show "app_get True (app_put True k v b) k' = (if k' = k then v else app_get True b k')"
    unfolding app_get_ok [OF app_bag_ok_put [OF ok]] app_get_ok [OF ok]
    unfolding app_put_ok [OF ok] by (auto simp: dget_def dom_def split: option.splits)
qed

text \<open>What a unit that is not the leader does with the application databag has no effect.\<close>

lemma app_put_nonleader [simp]: "app_put False k v b = b"
  by (simp add: app_put_def set_secret_def delete_secret_def update_relation_data_def)

lemma app_update_nonleader [simp]: "app_update False items b = b"
  by (induction items arbitrary: b) (auto simp: app_update_def)

lemma app_bag_ok_update: "app_bag_ok b \<Longrightarrow> app_bag_ok (app_update leader items b)"
  using app_store.inv_fold [of b items] by (cases leader) (simp_all add: app_update_def [of True])

text \<open>With distinct keys the two passes of \<^verbatim>\<open>RelationState.update\<close> amount to one.\<close>

lemma unit_update_get:
  assumes "unit_bag_ok b" and "wf_dict items"
  shows "unit_get leader (unit_update leader items b) k =
      (case map_of items k of None \<Rightarrow> unit_get leader b k | Some v \<Rightarrow> v)"
    and "unit_bag_ok (unit_update leader items b)"
proof -
  let ?u = "filter (\<lambda>(k, v). v \<noteq> []) items" and ?d = "filter (\<lambda>(k, v). v = []) items"
  let ?put = "\<lambda>(k, v). unit_put leader k v"
  have u: "fold (\<lambda>(k, v). update_field SECRETS_UNIT leader k v) ?u b = fold ?put ?u b"
    by (rule fold_cong) (auto simp: unit_put_def)
  have d: "fold (delete_field SECRETS_UNIT leader) (map fst ?d) c = fold ?put ?d c" for c
    by (simp add: fold_map comp_def) (rule fold_cong, auto simp: unit_put_def)
  have eq: "unit_update leader items b = fold ?put (?u @ ?d) b"
    by (simp add: unit_update_def u d Let_def)
  show "unit_bag_ok (unit_update leader items b)"
    unfolding eq by (rule unit_store.inv_fold) (rule assms)
  have dist: "distinct (map fst (?u @ ?d))"
    using assms(2) by (auto simp: wf_dict_def keys_def distinct_map inj_on_def)
  have "map_of (rev (?u @ ?d)) k = map_of items k"
  proof -
    have "map_of (rev (?u @ ?d)) = map_of (?u @ ?d)"
      using dist by (intro map_of_rev_wf) (simp add: wf_dict_def keys_def)
    also have "map_of (?u @ ?d) = map_of items"
      using dist assms(2) by (intro map_of_inject_set [THEN iffD2]) (auto simp: wf_dict_def keys_def)
    finally show ?thesis by simp
  qed
  then show "unit_get leader (unit_update leader items b) k =
      (case map_of items k of None \<Rightarrow> unit_get leader b k | Some v \<Rightarrow> v)"
    unfolding eq unit_store.get_fold [OF assms(1)] by simp
qed

end
