(* ===== verification/World.thy ===== *)
theory World
  imports Databag Structured_Config
begin

text \<open>
  The state one hook of the charm sees and changes: the Juju model (leadership, configuration,
  relations and their databags, storages), the workload container (files, running services)
  and the actions of the current hook on the outside (events it defers or emits, commands it
  runs). One \<open>world\<close> belongs to one unit; what other units and applications write is
  data of their databags.
\<close>

section \<open>Relations\<close>

text \<open>
  A cross-application relation of the \<^verbatim>\<open>peer-cluster\<close> kind: the published fields of both
  application databags, the contents of the secrets each side shares (by secret group), and
  the fields the remote application asked to receive as secrets.
\<close>

record remote_rel =
  rel_id :: int
  rel_app :: "string option"
  rel_units :: "string list"
  remote_data :: "(string, string) dict"
  remote_secrets :: "(string, (string, string) dict) dict"
  requested :: "string list"
  local_data :: "(string, string) dict"
  local_secrets :: "(string, (string, string) dict) dict"

text \<open>A permission asked for by a client, and a client's request.\<close>

record permission =
  resource_name :: string
  resource_type :: string
  privileges :: "string list"

record request =
  req_resource :: string
  req_roles :: string
  req_mtls_cert :: string
  req_id :: "string option"
  req_salt :: string
  req_permissions :: "permission list"

text \<open>
  A client relation. \<open>cr_data\<close> is the client's application databag with the contents of its
  secrets, \<open>cr_requests\<close> the requests parsed from it, \<open>cr_written\<close> what the charm wrote to its
  own side (for version 1 one entry per request).
\<close>

record client_rel =
  cr_id :: int
  cr_app :: "string option"
  cr_units :: "string list"
  cr_active :: bool
  cr_data :: "(string, string) dict"
  cr_requests :: "request list"
  cr_written :: "(string, string) dict"
  cr_written_requests :: "(string, string) dict list option"


section \<open>The world\<close>

text \<open>
  The events the handlers observe, as Juju or the charm itself emits them. Certificates come with the
  certificate, its authority and its chain; a rebalance with its mode and broker.
\<close>

datatype event =
    InstallEvent
  | StartEvent
  | PebbleReadyEvent
  | ConfigChangedEvent
  | UpdateStatusEvent
  | LeaderElectedEvent
  | SecretChangedEvent "string option"
  | PeerChanged
  | PeerDeparted string
  | StorageAttachedEvent
  | StorageDetachingEvent
  | PeerClusterCreated
  | PeerClusterChanged
  | OrchestratorChanged
  | ClientCreated
  | ClientBroken string int
  | TopicRequested int
  | MtlsCertUpdated int
  | OauthChanged
  | CertificatesBroken tls_scope
  | CertificateAvailable tls_scope string string "string list"
  | TransferUpdated int
  | TransferRemoved
  | RebalanceEvent string "int option"
  | RebalanceAction string "int option" bool
  | GetListenersAction
  | RestartLock

text \<open>What a hook does to the outside, in order. A command has its working directory and environment.\<close>

datatype action =
    Exec "string option" "string list" "(string \<times> string) list"
  | Generated
  | Started string
  | Stopped string
  | Deferred event
  | AcquireLock "string option"
  | RefreshCertificates
  | AppliedService string
  | SetPorts "int list"
  | Responded int "(string \<times> string) list"
  | SetPartition int
  | ActionFailed string
  | ActionResult "(string \<times> string) list"
  | Http string string "(string \<times> string) list"
  | Slept

text \<open>
  What the refresh library answers while an application is refreshed: whether a refresh is in
  progress, whether the workload may start and the next unit may refresh, and the statuses it
  wants shown.
\<close>

record refresh_state =
  in_progress :: bool
  workload_allowed_to_start :: bool
  next_unit_allowed_to_refresh :: bool
  status_higher_priority :: "string option"
  status_lower_priority :: "string option"

record world =
  unit_name :: string
  model_name :: string
  leader :: bool
  cfg :: charm_config
  peer_rel :: bool
  app_bag :: bag
  unit_bag :: bag
  other_units :: "(string \<times> (string, string) dict) list"
  orchestrator_rel :: "remote_rel option"
  peer_cluster_rel :: "remote_rel option"
  client_rels :: "client_rel list"
  tls_rel :: bool
  internal_tls_rel :: bool
  oauth_rel :: "(string, string) dict option"
  cert_transfer_rels :: "int list"
  storage_dirs :: "string list"
  planned_units :: nat
  can_connect :: bool
  files :: "(string, string) dict"
  running :: "string list"
  pending :: "status list"
  certs_updated :: bool
  refresh :: "refresh_state option"
  transferred_certs :: "string list"
  actions :: "action list"

type_synonym 'a hook = "(world, 'a) prog"

definition do_action :: "action \<Rightarrow> unit hook" where
  "do_action a = modM (\<lambda>w. w\<lparr>actions := actions w @ [a]\<rparr>)"

lemma do_action_apply [simp, prog_simps]: "do_action a w = (Inr (), w\<lparr>actions := actions w @ [a]\<rparr>)"
  by (simp add: do_action_def)


section \<open>Reading and writing the peer databags\<close>

text \<open>\<^verbatim>\<open>self.cluster.relation_data.get(k, "")\<close>\<close>

definition cluster_get :: "world \<Rightarrow> string \<Rightarrow> string" where
  "cluster_get w k = (if peer_rel w then app_get (leader w) (app_bag w) k else [])"

text \<open>\<^verbatim>\<open>self.cluster.update(items)\<close>\<close>

definition cluster_update :: "(string, string) dict \<Rightarrow> world \<Rightarrow> world" where
  "cluster_update items w =
     (if \<not> peer_rel w then w else w\<lparr>app_bag := app_update (leader w) items (app_bag w)\<rparr>)"

text \<open>
  \<^verbatim>\<open>self.unit_broker.relation_data.get(k, "")\<close>. Without a peer relation the data is an empty
  dictionary of the one state object.
\<close>

definition broker_get :: "world \<Rightarrow> string \<Rightarrow> string" where
  "broker_get w k = (if peer_rel w then unit_get (leader w) (unit_bag w) k else [])"

definition broker_update :: "(string, string) dict \<Rightarrow> world \<Rightarrow> world" where
  "broker_update items w =
     (if \<not> peer_rel w then w else w\<lparr>unit_bag := unit_update (leader w) items (unit_bag w)\<rparr>)"

text \<open>Facts about the databags that hold in every world the charm produces.\<close>

definition bags_ok :: "world \<Rightarrow> bool" where
  "bags_ok w \<longleftrightarrow> app_bag_ok (app_bag w) \<and> unit_bag_ok (unit_bag w)"

lemma bags_ok_cluster_update [simp, intro]: "bags_ok w \<Longrightarrow> bags_ok (cluster_update items w)"
  by (simp add: bags_ok_def cluster_update_def app_bag_ok_update)

lemma bags_ok_broker_update [intro]: "bags_ok w \<Longrightarrow> wf_dict items \<Longrightarrow> bags_ok (broker_update items w)"
  by (simp add: bags_ok_def broker_update_def unit_update_get)

lemma cluster_get_update:
  assumes "bags_ok w" and "peer_rel w" and "leader w"
  shows "cluster_get (cluster_update items w) k =
     (case map_of (rev items) k of None \<Rightarrow> cluster_get w k | Some v \<Rightarrow> v)"
  using assms app_store.get_fold [of "app_bag w" items k]
  by (simp add: cluster_get_def cluster_update_def bags_ok_def app_update_def split: option.splits)

lemma cluster_update_nonleader [simp]: "\<not> leader w \<Longrightarrow> cluster_update items w = w"
  by (simp add: cluster_update_def)

lemma broker_get_update:
  assumes "bags_ok w" and "peer_rel w" and "wf_dict items"
  shows "broker_get (broker_update items w) k =
     (case map_of items k of None \<Rightarrow> broker_get w k | Some v \<Rightarrow> v)"
  using assms unit_update_get(1) [of "unit_bag w" items "leader w" k]
  by (simp add: broker_get_def broker_update_def bags_ok_def split: option.splits)

lemma updates_frame [simp]:
  "leader (cluster_update i w) = leader w" "peer_rel (cluster_update i w) = peer_rel w"
  "unit_bag (cluster_update i w) = unit_bag w" "cfg (cluster_update i w) = cfg w"
  "unit_name (cluster_update i w) = unit_name w" "other_units (cluster_update i w) = other_units w"
  "leader (broker_update i w) = leader w" "peer_rel (broker_update i w) = peer_rel w"
  "app_bag (broker_update i w) = app_bag w" "cfg (broker_update i w) = cfg w"
  "unit_name (broker_update i w) = unit_name w" "other_units (broker_update i w) = other_units w"
  "peer_cluster_rel (cluster_update i w) = peer_cluster_rel w"
  "orchestrator_rel (cluster_update i w) = orchestrator_rel w"
  "peer_cluster_rel (broker_update i w) = peer_cluster_rel w"
  "orchestrator_rel (broker_update i w) = orchestrator_rel w"
  by (simp_all add: cluster_update_def broker_update_def)

lemma gets_frame [simp]:
  "cluster_get (broker_update i w) k = cluster_get w k"
  "broker_get (cluster_update i w) k = broker_get w k"
  by (simp_all add: cluster_get_def broker_get_def)


section \<open>Concrete worlds\<close>

text \<open>The configuration of a single-application cluster with the charm's default options.\<close>

definition default_config :: charm_config where
  "default_config =
     \<lparr>compression_type = ''producer'', log_flush_interval_messages = 9223372036854775807,
      log_flush_interval_ms = None, log_flush_offset_checkpoint_interval_ms = 60000,
      log_retention_bytes = -1, log_retention_ms = 604800000, log_segment_bytes = 1073741824,
      message_max_bytes = 1048588, offsets_topic_num_partitions = 50,
      transaction_state_log_num_partitions = 50, unclean_leader_election_enable = False,
      log_cleaner_delete_retention_ms = 86400000, log_cleaner_min_compaction_lag_ms = 0,
      log_cleanup_policy = ''delete'', log_message_timestamp_type = ''CreateTime'',
      ssl_cipher_suites = None, ssl_principal_mapping_rules = ''DEFAULT'',
      replication_quota_window_num = 11, cfg_roles = ''broker,controller'', profile = ''production'',
      certificate_extra_sans = [], cfg_extra_listeners = [], expose_external = None,
      cfg_log_level = ''INFO'', network_bandwidth = 50000, cruisecontrol_balance_threshold = ''1.1'',
      cruisecontrol_capacity_threshold = ''0.8'', system_users = None, tls_private_key = None\<rparr>"

definition blank_world :: world where
  "blank_world =
     \<lparr>unit_name = ''kafka-k8s/0'', model_name = ''testing'', leader = True, cfg = default_config, peer_rel = True,
      app_bag = empty_bag, unit_bag = empty_bag, other_units = [], orchestrator_rel = None,
      peer_cluster_rel = None, client_rels = [], tls_rel = False, internal_tls_rel = False,
      oauth_rel = None, cert_transfer_rels = [], storage_dirs = [''/var/lib/kafka/0''],
      planned_units = 1, can_connect = True, files = [], running = [], pending = [],
      certs_updated = False, refresh = None, transferred_certs = [], actions = []\<rparr>"

lemma bags_ok_blank [simp]: "bags_ok blank_world"
  by (simp add: bags_ok_def blank_world_def empty_bag_def app_bag_ok_def unit_bag_ok_def)

lemma blank_world_sel [simp]:
  "unit_name blank_world = ''kafka-k8s/0''" "model_name blank_world = ''testing''" "leader blank_world" "cfg blank_world = default_config"
  "peer_rel blank_world" "app_bag blank_world = empty_bag" "unit_bag blank_world = empty_bag"
  "other_units blank_world = []" "orchestrator_rel blank_world = None" "peer_cluster_rel blank_world = None"
  "client_rels blank_world = []" "\<not> tls_rel blank_world" "\<not> internal_tls_rel blank_world"
  "oauth_rel blank_world = None" "cert_transfer_rels blank_world = []"
  "storage_dirs blank_world = [''/var/lib/kafka/0'']" "planned_units blank_world = 1"
  "can_connect blank_world" "files blank_world = []" "running blank_world = []"
  "pending blank_world = []" "\<not> certs_updated blank_world" "refresh blank_world = None" "transferred_certs blank_world = []" "actions blank_world = []"
  by (simp_all add: blank_world_def)

end
