(* ===== verification/Models.thy ===== *)
theory Models
  imports World K8s_Manager "HOL-Library.Multiset"
begin

text \<open>
  \<^verbatim>\<open>core/models.py\<close>: the state objects over relation data. \<^verbatim>\<open>PeerCluster\<close> reads the application at
  the other end of a peer-cluster relation, \<^verbatim>\<open>KafkaCluster\<close> the application databag,
  \<^verbatim>\<open>TLSState\<close> and \<^verbatim>\<open>KafkaBroker\<close> the databag of a unit, \<^verbatim>\<open>KafkaClient\<close> one request of a client
  relation, \<^verbatim>\<open>OAuth\<close> the identity provider's databag.
\<close>

section \<open>Permission model\<close>

definition RESOURCE_TYPES :: "string list" where "RESOURCE_TYPES = [''TOPIC'', ''GROUP'']"

definition VALID_OPERATIONS :: "string list" where
  "VALID_OPERATIONS = [''READ'', ''WRITE'', ''CREATE'', ''DELETE'', ''DESCRIBE'']"

definition validate_resource_type :: "string \<Rightarrow> exn + string" where
  "validate_resource_type v = (if upper v \<notin> {''TOPIC'', ''GROUP''} then Inl ValueError else Inr (upper v))"

fun validate_privileges :: "string list \<Rightarrow> exn + string list" where
  "validate_privileges [] = Inr []"
| "validate_privileges (op # ops) =
     (if op \<notin> set VALID_OPERATIONS then Inl ValueError
      else bindE (validate_privileges ops) (\<lambda>r. Inr (op # r)))"

definition KafkaPermissionModel :: "permission \<Rightarrow> exn + permission" where
  "KafkaPermissionModel p =
     bindE (validate_resource_type (resource_type p)) (\<lambda>t.
     bindE (validate_privileges (privileges p)) (\<lambda>ops.
       Inr (p\<lparr>resource_type := t, privileges := ops\<rparr>)))"


section \<open>Peer cluster\<close>

definition SECRET_LABEL_MAP :: "(string, string) dict" where
  "SECRET_LABEL_MAP =
     [(''broker-username'', ''broker''), (''broker-password'', ''broker''),
      (''controller-password'', ''controller''), (''broker-uris'', ''broker''),
      (''balancer-username'', ''balancer''), (''balancer-password'', ''balancer''),
      (''balancer-uris'', ''balancer'')]"

record PeerCluster =
  pc_rel :: "remote_rel option"
  pc_leader :: bool
  pc_broker_username :: string
  pc_broker_password :: string
  pc_broker_uris :: string
  pc_cluster_uuid :: string
  pc_bootstrap_controller :: string
  pc_bootstrap_unit_id :: string
  pc_bootstrap_replica_id :: string
  pc_racks :: int
  pc_broker_capacities :: json
  pc_balancer_username :: string
  pc_balancer_password :: string
  pc_balancer_uris :: string
  pc_controller_password :: string

text \<open>A state object of a relation, without any data supplied by this application.\<close>

definition mk_peer_cluster :: "remote_rel option \<Rightarrow> bool \<Rightarrow> PeerCluster" where
  "mk_peer_cluster r ld =
     \<lparr>pc_rel = r, pc_leader = ld, pc_broker_username = [], pc_broker_password = [], pc_broker_uris = [],
      pc_cluster_uuid = [], pc_bootstrap_controller = [], pc_bootstrap_unit_id = [],
      pc_bootstrap_replica_id = [], pc_racks = 0, pc_broker_capacities = JDict [],
      pc_balancer_username = [], pc_balancer_password = [], pc_balancer_uris = [],
      pc_controller_password = []\<rparr>"

text \<open>\<^verbatim>\<open>fetch_relation_field\<close> of a published field of the remote application.\<close>

definition remote_field :: "remote_rel \<Rightarrow> string \<Rightarrow> string" where
  "remote_field r k = (case rel_app r of None \<Rightarrow> [] | Some _ \<Rightarrow> dget (remote_data r) k [])"

definition fetch_from_secrets :: "PeerCluster \<Rightarrow> string \<Rightarrow> string \<Rightarrow> string" where
  "fetch_from_secrets pc grp field =
     (case pc_rel pc of
        None \<Rightarrow> []
      | Some r \<Rightarrow>
          (case map_of (remote_secrets r) grp of
             None \<Rightarrow> []
           | Some content \<Rightarrow> dget content field []))"

text \<open>
  \<^verbatim>\<open>_fetch_relation_data_with_secrets(component=relation.app, req_secret_fields, relation, fields)\<close>
  of the data interface: the requested fields that are secrets come from their groups, fields
  that are not found there and normal fields from the remote databag.
\<close>

definition secret_group :: "string \<Rightarrow> string" where
  "secret_group k = dget SECRET_LABEL_MAP k ''extra''"

definition fetch_with_secrets :: "bool \<Rightarrow> remote_rel \<Rightarrow> string list \<Rightarrow> string list \<Rightarrow> (string, string) dict" where
  "fetch_with_secrets ld r req flds =
     (let fallback = req \<noteq> [] \<and> ld \<and> list_ex (\<lambda>f. f \<in> set (keys (local_data r))) req;
          secs = (if fallback then [] else filter (\<lambda>f. f \<in> set req) flds);
          content = (\<lambda>g. case map_of (remote_secrets r) g of
                           None \<Rightarrow> [] | Some c \<Rightarrow> filter (\<lambda>kv. fst kv \<in> set secs) c);
          groups = remdups (map secret_group secs);
          result = concat (map content groups);
          normal = filter (\<lambda>f. f \<notin> set secs \<or> content (secret_group f) = []) flds
      in dmerge result (filter (\<lambda>kv. fst kv \<in> set normal) (remote_data r)))"

definition pc_roles :: "PeerCluster \<Rightarrow> string" where
  "pc_roles pc = (case pc_rel pc of None \<Rightarrow> [] | Some r \<Rightarrow> remote_field r ''roles'')"

text \<open>The pattern of the getters: a value of our own, or one of the related application.\<close>

definition own_or_remote :: "PeerCluster \<Rightarrow> string \<Rightarrow> (remote_rel \<Rightarrow> string) \<Rightarrow> string" where
  "own_or_remote pc own f =
     (if own \<noteq> [] then own
      else case pc_rel pc of
        None \<Rightarrow> []
      | Some r \<Rightarrow> (case rel_app r of None \<Rightarrow> [] | Some _ \<Rightarrow> f r))"

definition broker_username :: "PeerCluster \<Rightarrow> string" where
  "broker_username pc =
     own_or_remote pc (pc_broker_username pc) (\<lambda>r. fetch_from_secrets pc ''broker'' ''broker-username'')"

definition broker_password :: "PeerCluster \<Rightarrow> string" where
  "broker_password pc =
     own_or_remote pc (pc_broker_password pc) (\<lambda>r. fetch_from_secrets pc ''broker'' ''broker-password'')"

definition broker_uris :: "PeerCluster \<Rightarrow> string" where
  "broker_uris pc =
     own_or_remote pc (pc_broker_uris pc)
       (\<lambda>r. dget (fetch_with_secrets (pc_leader pc) r (requested_secrets BALANCER) (requested_secrets BALANCER))
              ''broker-uris'' [])"

definition controller_password :: "PeerCluster \<Rightarrow> string" where
  "controller_password pc =
     own_or_remote pc (pc_controller_password pc)
       (\<lambda>r. fetch_from_secrets pc ''controller'' ''controller-password'')"

definition cluster_uuid :: "PeerCluster \<Rightarrow> string" where
  "cluster_uuid pc = own_or_remote pc (pc_cluster_uuid pc) (\<lambda>r. remote_field r ''cluster-uuid'')"

definition bootstrap_controller :: "PeerCluster \<Rightarrow> string" where
  "bootstrap_controller pc =
     own_or_remote pc (pc_bootstrap_controller pc) (\<lambda>r. remote_field r ''bootstrap-controller'')"

definition bootstrap_unit_id :: "PeerCluster \<Rightarrow> string" where
  "bootstrap_unit_id pc =
     own_or_remote pc (pc_bootstrap_unit_id pc) (\<lambda>r. remote_field r ''bootstrap-unit-id'')"

definition bootstrap_replica_id :: "PeerCluster \<Rightarrow> string" where
  "bootstrap_replica_id pc =
     own_or_remote pc (pc_bootstrap_replica_id pc) (\<lambda>r. remote_field r ''bootstrap-replica-id'')"

definition py_int_or :: "string \<Rightarrow> int \<Rightarrow> exn + int" where
  "py_int_or s d = (if s = [] then Inr d else case py_int s of None \<Rightarrow> Inl ValueError | Some i \<Rightarrow> Inr i)"

definition racks_of :: "PeerCluster \<Rightarrow> exn + int" where
  "racks_of pc =
     (if pc_racks pc \<noteq> 0 then Inr (pc_racks pc)
      else case pc_rel pc of None \<Rightarrow> Inr 0 | Some r \<Rightarrow> py_int_or (remote_field r ''racks'') 0)"

definition broker_capacities_of :: "PeerCluster \<Rightarrow> exn + json" where
  "broker_capacities_of pc =
     (if json_true (pc_broker_capacities pc) then Inr (pc_broker_capacities pc)
      else case pc_rel pc of
        None \<Rightarrow> Inr (JDict [])
      | Some r \<Rightarrow>
          let t = remote_field r ''broker-capacities''
          in loads (if t = [] then ''{}'' else t))"

definition balancer_username :: "PeerCluster \<Rightarrow> string" where
  "balancer_username pc =
     own_or_remote pc (pc_balancer_username pc)
       (\<lambda>r. dget (fetch_with_secrets (pc_leader pc) r (requested_secrets BROKER) (requested_secrets BALANCER))
              ''balancer-username'' [])"

definition balancer_password :: "PeerCluster \<Rightarrow> string" where
  "balancer_password pc =
     own_or_remote pc (pc_balancer_password pc)
       (\<lambda>r. dget (fetch_with_secrets (pc_leader pc) r (requested_secrets BROKER) (requested_secrets BALANCER))
              ''balancer-password'' [])"

definition balancer_uris :: "PeerCluster \<Rightarrow> string" where
  "balancer_uris pc =
     own_or_remote pc (pc_balancer_uris pc)
       (\<lambda>r. dget (fetch_with_secrets (pc_leader pc) r (requested_secrets BROKER) (requested_secrets BALANCER))
              ''balancer-uris'' [])"

definition broker_connected :: "PeerCluster \<Rightarrow> exn + bool" where
  "broker_connected pc =
     bindE (broker_capacities_of pc) (\<lambda>caps.
       Inr (broker_username pc \<noteq> [] \<and> broker_password pc \<noteq> [] \<and> broker_uris pc \<noteq> [] \<and> json_true caps))"

definition broker_connected_kraft_mode :: "PeerCluster \<Rightarrow> bool" where
  "broker_connected_kraft_mode pc \<longleftrightarrow>
     broker_username pc \<noteq> [] \<and> broker_password pc \<noteq> [] \<and> cluster_uuid pc \<noteq> []"

text \<open>
  \<^verbatim>\<open>relation_data.get(k)\<close> of a cross-application relation: the leader sees its own side first.
\<close>

definition own_field :: "bool \<Rightarrow> remote_rel \<Rightarrow> string \<Rightarrow> string" where
  "own_field ld r k =
     (if k \<in> set (requested r) \<and> \<not> list_ex (\<lambda>f. f \<in> set (keys (local_data r))) (requested r)
         \<and> map_of (dget (local_secrets r) (secret_group k) []) k \<noteq> None
      then dget (dget (local_secrets r) (secret_group k) []) k []
      else dget (local_data r) k [])"

definition pc_get :: "PeerCluster \<Rightarrow> string \<Rightarrow> string" where
  "pc_get pc k =
     (case pc_rel pc of
        None \<Rightarrow> []
      | Some r \<Rightarrow>
          let own = (if pc_leader pc then own_field True r k else [])
          in if own \<noteq> [] then own else remote_field r k)"

definition pc_super_users :: "PeerCluster \<Rightarrow> string" where
  "pc_super_users pc =
     (case pc_rel pc of
        None \<Rightarrow> []
      | Some r \<Rightarrow> (case rel_app r of None \<Rightarrow> [] | Some _ \<Rightarrow> pc_get pc ''super-users''))"

text \<open>
  \<^verbatim>\<open>RelationState.update\<close> on such a relation. The data interface writes only on the leader
  and sends the fields the remote side asked for as secrets; then every labelled field is
  also written to the secret of its group.
\<close>

definition set_group_secret :: "string \<Rightarrow> string \<Rightarrow> remote_rel \<Rightarrow> remote_rel" where
  "set_group_secret k v r =
     r\<lparr>local_secrets := dset (secret_group k) (dset k v (dget (local_secrets r) (secret_group k) [])) (local_secrets r)\<rparr>"

definition rel_as_secret :: "remote_rel \<Rightarrow> string \<Rightarrow> bool" where
  "rel_as_secret r k \<longleftrightarrow>
     k \<in> set (requested r) \<and> \<not> list_ex (\<lambda>f. f \<in> set (keys (local_data r))) (requested r)"

definition rel_put :: "string \<Rightarrow> string \<Rightarrow> remote_rel \<Rightarrow> remote_rel" where
  "rel_put k v r =
     (if rel_as_secret r k then set_group_secret k v r
      else r\<lparr>local_data := dset k v (local_data r)\<rparr>)"

definition rel_delete :: "string \<Rightarrow> remote_rel \<Rightarrow> remote_rel" where
  "rel_delete k r =
     (if rel_as_secret r k \<and> map_of (dget (local_secrets r) (secret_group k) []) k \<noteq> None
      then r\<lparr>local_secrets := dset (secret_group k) (ddel k (dget (local_secrets r) (secret_group k) [])) (local_secrets r)\<rparr>
      else r\<lparr>local_data := ddel k (local_data r)\<rparr>)"

definition rel_update :: "bool \<Rightarrow> (string, string) dict \<Rightarrow> remote_rel \<Rightarrow> remote_rel" where
  "rel_update ld items r =
     (let update_content = filter (\<lambda>(k, v). v \<noteq> []) items;
          delete_fields = map fst (filter (\<lambda>(k, v). v = []) items);
          r = (if ld then fold rel_delete delete_fields (fold (\<lambda>(k, v). rel_put k v) update_content r) else r)
      in fold (\<lambda>(k, v). set_group_secret k v)
           (filter (\<lambda>(k, v). k \<in> set (keys SECRET_LABEL_MAP)) update_content) r)"


section \<open>Kafka cluster: the application databag\<close>

definition internal_user_credentials :: "world \<Rightarrow> (string, string) dict" where
  "internal_user_credentials w =
     (let credentials = filter (\<lambda>(u, p). p \<noteq> [])
            (map (\<lambda>user. (user, cluster_get w (user @ ''-password''))) INTERNAL_USERS)
      in if length credentials \<noteq> length INTERNAL_USERS then [] else credentials)"

definition client_passwords :: "world \<Rightarrow> (string, string) dict" where
  "client_passwords w =
     (if peer_rel w then filter (\<lambda>(k, v). contains ''relation-'' k) (app_items (app_bag w)) else [])"

text \<open>\<^verbatim>\<open>TLS_RELATION\<close> exists and is active.\<close>

definition tls_enabled :: "world \<Rightarrow> bool" where
  "tls_enabled w = tls_rel w"

fun int_keys :: "(string \<times> json) list \<Rightarrow> exn + (int, json) dict" where
  "int_keys [] = Inr []"
| "int_keys ((k, v) # kvs) =
     (case py_int k of
        None \<Rightarrow> Inl ValueError
      | Some i \<Rightarrow> bindE (int_keys kvs) (\<lambda>r. Inr ((i, v) # r)))"

definition broker_capacities_snapshot :: "world \<Rightarrow> exn + (int, json) dict" where
  "broker_capacities_snapshot w =
     (let t = cluster_get w ''broker-capacities-snapshot''
      in bindE (loads (if t = [] then ''{}'' else t)) (\<lambda>j.
           case j of
             JDict kvs \<Rightarrow> bindE (int_keys kvs) (\<lambda>d. Inr (dmerge [] d))
           | _ \<Rightarrow> Inl AttributeError))"

text \<open>\<^verbatim>\<open>json.dumps(snapshot)\<close>: integer keys are printed as strings.\<close>

definition dump_snapshot :: "(int, json) dict \<Rightarrow> string" where
  "dump_snapshot d = dumps (JDict (map (\<lambda>(k, v). (str_int k, v)) d))"

definition broker_capacity :: "world \<Rightarrow> json \<Rightarrow> string \<Rightarrow> json" where
  "broker_capacity w storages cores =
     JDict [(''DISK'', storages), (''CPU'', JDict [(''num.cores'', JStr cores)]),
            (''NW_IN'', JStr (str_int (network_bandwidth (cfg w)))),
            (''NW_OUT'', JStr (str_int (network_bandwidth (cfg w))))]"

text \<open>
  \<^verbatim>\<open>add_broker\<close> and \<^verbatim>\<open>remove_broker\<close> of the capacity snapshot; the broker comes as its id,
  storages and cores.
\<close>

definition add_broker :: "int \<Rightarrow> json \<Rightarrow> string \<Rightarrow> unit hook" where
  "add_broker broker_id storages cores =
     bindM (readM (\<lambda>w. w)) (\<lambda>w.
       if \<not> (cores \<noteq> [] \<and> json_true storages) then skip
       else bindM (liftE (broker_capacities_snapshot w)) (\<lambda>snapshot.
         let updated = broker_capacity w storages cores;
             current = (case map_of snapshot broker_id of None \<Rightarrow> JDict [] | Some j \<Rightarrow> j)
         in if json_eq updated current then skip
            else modM (cluster_update
                   [(''broker-capacities-snapshot'', dump_snapshot (dset broker_id updated snapshot))])))"

definition remove_broker :: "int \<Rightarrow> unit hook" where
  "remove_broker broker_id =
     bindM (readM (\<lambda>w. w)) (\<lambda>w.
       bindM (liftE (broker_capacities_snapshot w)) (\<lambda>snapshot.
         if broker_id \<notin> set (keys snapshot) then skip
         else modM (cluster_update
                [(''broker-capacities-snapshot'', dump_snapshot (ddel broker_id snapshot))])))"


section \<open>TLS state of a unit\<close>

definition tls_key :: "tls_scope \<Rightarrow> string \<Rightarrow> string" where
  "tls_key sc field = scope_value sc @ ''-'' @ field"

definition private_key :: "world \<Rightarrow> tls_scope \<Rightarrow> string" where
  "private_key w sc = broker_get w (tls_key sc ''private-key'')"

definition csr :: "world \<Rightarrow> tls_scope \<Rightarrow> string" where
  "csr w sc = broker_get w (tls_key sc ''csr'')"

definition certificate :: "world \<Rightarrow> tls_scope \<Rightarrow> string" where
  "certificate w sc = broker_get w (tls_key sc ''certificate'')"

definition ca :: "world \<Rightarrow> tls_scope \<Rightarrow> string" where
  "ca w sc = broker_get w (tls_key sc ''ca-cert'')"

definition chain_of :: "world \<Rightarrow> tls_scope \<Rightarrow> exn + string list" where
  "chain_of w sc =
     (let t = broker_get w (tls_key sc ''chain'') in loads_strs (if t = [] then ''null'' else t))"

definition tls_set :: "tls_scope \<Rightarrow> string \<Rightarrow> string \<Rightarrow> world \<Rightarrow> world" where
  "tls_set sc field v = broker_update [(tls_key sc field, v)]"

text \<open>\<^verbatim>\<open>sorted(set(bundle), key=bundle.index)\<close> keeps the first occurrence of every element.\<close>

fun stable_unique :: "'a list \<Rightarrow> 'a list" where
  "stable_unique [] = []"
| "stable_unique (x # xs) = x # stable_unique (filter (\<lambda>y. y \<noteq> x) xs)"

definition tls_bundle :: "world \<Rightarrow> tls_scope \<Rightarrow> exn + string list" where
  "tls_bundle w sc =
     (if certificate w sc = [] \<or> ca w sc = [] then Inr []
      else bindE (chain_of w sc) (\<lambda>c. Inr (stable_unique ([certificate w sc, ca w sc] @ c))))"

definition rotate_of :: "world \<Rightarrow> tls_scope \<Rightarrow> bool" where
  "rotate_of w sc \<longleftrightarrow> broker_get w (tls_key sc ''rotation'') \<noteq> []"

definition set_rotate :: "tls_scope \<Rightarrow> bool \<Rightarrow> world \<Rightarrow> world" where
  "set_rotate sc v = tls_set sc ''rotation'' (if v then ''true'' else [])"

definition trusted_certificates :: "world \<Rightarrow> tls_scope \<Rightarrow> exn + string set" where
  "trusted_certificates w sc =
     (let t = broker_get w (tls_key sc ''trust'')
      in bindE (loads_strs (if t = [] then ''null'' else t)) (\<lambda>xs. Inr (set xs)))"

definition set_trusted_certificates :: "tls_scope \<Rightarrow> string list \<Rightarrow> unit hook" where
  "set_trusted_certificates sc val =
     bindM (readM (\<lambda>w. w)) (\<lambda>w.
       bindM (liftE (trusted_certificates w sc)) (\<lambda>current.
         if set val = current then skip
         else modM (tls_set sc ''trust'' (dumps (json_strs (sort val))))))"

definition tls_ready :: "world \<Rightarrow> tls_scope \<Rightarrow> bool" where
  "tls_ready w sc \<longleftrightarrow> certificate w sc \<noteq> [] \<and> ca w sc \<noteq> [] \<and> private_key w sc \<noteq> []"

record SelfSignedCertificate =
  ss_ca :: string
  ss_csr :: string
  ss_certificate :: string
  ss_private_key :: string

definition set_self_signed :: "tls_scope \<Rightarrow> SelfSignedCertificate \<Rightarrow> world \<Rightarrow> world" where
  "set_self_signed sc v w =
     tls_set sc ''csr'' (ss_csr v)
       (tls_set sc ''ca-cert'' (ss_ca v)
         (tls_set sc ''certificate'' (ss_certificate v)
           (tls_set sc ''private-key'' (ss_private_key v) w)))"


section \<open>Brokers\<close>

definition unit_id_of :: "string \<Rightarrow> exn + int" where
  "unit_id_of name =
     (case split_char (CHR ''/'') name of
        _ # n # _ \<Rightarrow> (case py_int n of None \<Rightarrow> Inl ValueError | Some i \<Rightarrow> Inr i)
      | _ \<Rightarrow> Inl IndexError)"

definition broker_id_of :: "string \<Rightarrow> exn + int" where
  "broker_id_of name = bindE (unit_id_of name) (\<lambda>i. Inr (KRAFT_NODE_ID_OFFSET + i))"

text \<open>On Kubernetes, e.g. \<^verbatim>\<open>kafka-k8s-0.kafka-k8s-endpoints\<close>.\<close>

definition internal_address :: "string \<Rightarrow> exn + string" where
  "internal_address name =
     bindE (unit_id_of name) (\<lambda>i.
       let app = hd (split_char (CHR ''/'') name)
       in Inr (app @ ''-'' @ str_int i @ ''.'' @ app @ ''-endpoints''))"

definition peer_ip_address :: "world \<Rightarrow> string" where
  "peer_ip_address w = broker_get w ''ip''"

definition update_peer_ip_address :: "string \<Rightarrow> unit hook" where
  "update_peer_ip_address ip =
     bindM (readM (\<lambda>w. w)) (\<lambda>w.
       bindM (if ip \<noteq> [] then ret ip else liftE (internal_address (unit_name w))) (\<lambda>addr.
         modM (broker_update [(''ip'', addr)])))"

definition relation_ip_address :: "string \<Rightarrow> exn + string" where
  "relation_ip_address name = internal_address name"

definition update_relation_ip_address :: "int \<Rightarrow> string \<Rightarrow> world \<Rightarrow> world" where
  "update_relation_ip_address rid addr = broker_update [(''ip-'' @ str_int rid, addr)]"

definition private_key_kind :: "world \<Rightarrow> string" where
  "private_key_kind w = (let v = broker_get w ''private-key-kind'' in if v = [] then ''lib'' else v)"

definition keystore_password :: "world \<Rightarrow> string" where
  "keystore_password w = broker_get w ''keystore-password''"

definition truststore_password :: "world \<Rightarrow> string" where
  "truststore_password w = broker_get w ''truststore-password''"

definition storages :: "world \<Rightarrow> exn + json" where
  "storages w = (let t = broker_get w ''storages'' in loads (if t = [] then ''{}'' else t))"

definition cores :: "world \<Rightarrow> string" where
  "cores w = broker_get w ''cores''"

definition pod_name_of :: "string \<Rightarrow> string" where
  "pod_name_of name = replace ''/'' ''-'' name"

definition metadata_directory_id :: "world \<Rightarrow> string" where
  "metadata_directory_id w = broker_get w ''metadata-directory-id''"

definition added_to_quorum :: "world \<Rightarrow> bool" where
  "added_to_quorum w \<longleftrightarrow> broker_get w ''added-to-quorum'' \<noteq> []"

text \<open>
  All units of the peer relation with the fields other units can read: this unit's own data
  and the published data of the others.
\<close>

definition brokers :: "world \<Rightarrow> (string \<times> (string \<Rightarrow> string)) list" where
  "brokers w =
     (if peer_rel w then map (\<lambda>(n, d). (n, \<lambda>k. dget d k [])) (other_units w) else [])
     @ [(unit_name w, broker_get w)]"


section \<open>Clients\<close>

record KafkaClient =
  kc_rel_id :: int
  kc_app :: string
  kc_units :: "string list"
  kc_active :: bool
  kc_request :: request
  kc_data :: "(string, string) dict"
  kc_bootstrap_server :: string
  kc_password :: string
  kc_tls :: string
  kc_written :: "(string, string) dict"
  kc_written_requests :: "(string, string) dict list option"

definition generate_username :: "int \<Rightarrow> string option \<Rightarrow> string" where
  "generate_username rid req =
     (let postfix = (case req of None \<Rightarrow> [] | Some r \<Rightarrow> if r = [] then [] else ''-'' @ r)
      in ''relation-'' @ str_int rid @ postfix)"

definition generate_alias :: "string \<Rightarrow> int \<Rightarrow> string" where
  "generate_alias app rid = app @ ''-'' @ str_int rid"

definition kc_username :: "KafkaClient \<Rightarrow> string" where
  "kc_username c = generate_username (kc_rel_id c) (req_id (kc_request c))"

definition mtls_cert :: "KafkaClient \<Rightarrow> string" where
  "mtls_cert c = req_mtls_cert (kc_request c)"

definition bootstrap_server :: "KafkaClient \<Rightarrow> exn + string" where
  "bootstrap_server c =
     (if kc_tls c = [] \<or> mtls_cert c = [] then Inr (kc_bootstrap_server c)
      else bindE (ports_of (SASL_SSL, SCRAM_SHA_512)) (\<lambda>scram.
           bindE (ports_of (SSL, SSL_MECH)) (\<lambda>mtls.
             Inr (replace ('':'' @ str_int (client_port scram)) ('':'' @ str_int (client_port mtls))
                    (kc_bootstrap_server c)))))"

definition extra_user_roles :: "KafkaClient \<Rightarrow> string" where
  "extra_user_roles c = req_roles (kc_request c)"

definition consumer_group_prefix :: "KafkaClient \<Rightarrow> string" where
  "consumer_group_prefix c =
     dget (kc_data c) ''consumer-group-prefix''
       (if contains ''consumer'' (extra_user_roles c) then kc_username c @ ''-'' else [])"

definition kc_version :: "KafkaClient \<Rightarrow> string" where
  "kc_version c = dget (kc_data c) ''version'' ''v0''"

text \<open>\<open>secret_content\<close> answers \<^verbatim>\<open>model.get_secret(id).get_content()\<close>.\<close>

definition SECRET_PREFIX :: string where "SECRET_PREFIX = ''secret-''"

definition written_data :: "(string \<Rightarrow> (string, string) dict option) \<Rightarrow> KafkaClient \<Rightarrow> (string, string) dict" where
  "written_data secret_content c =
     (if kc_version c = ''v0'' then kc_written c
      else case kc_written_requests c of
        None \<Rightarrow> []
      | Some rs \<Rightarrow>
          (case filter (\<lambda>r. map_of r ''request-id'' = req_id (kc_request c)) rs of
             [] \<Rightarrow> []
           | d # _ \<Rightarrow>
               fold (\<lambda>(k, uri) acc.
                       if uri = [] then acc
                       else case secret_content uri of None \<Rightarrow> acc | Some content \<Rightarrow> dmerge acc content)
                 (filter (\<lambda>(k, v). startswith k SECRET_PREFIX) d) d))"

definition needs_update :: "(string \<Rightarrow> (string, string) dict option) \<Rightarrow> KafkaClient \<Rightarrow> string \<Rightarrow> exn + bool" where
  "needs_update secret_content c broker_ca =
     bindE (bootstrap_server c) (\<lambda>bs.
       let state = written_data secret_content c
       in Inr (\<not> (map_of state ''username'' = Some (kc_username c) \<and>
                  map_of state ''password'' = Some (kc_password c) \<and>
                  map_of state ''endpoints'' = Some bs \<and>
                  map_of state ''tls'' = Some (kc_tls c) \<and>
                  dget state ''tls-ca'' [] = broker_ca)))"

definition permissions :: "KafkaClient \<Rightarrow> permission list" where
  "permissions c =
     (case mapE KafkaPermissionModel (req_permissions (kc_request c)) of
        Inl e \<Rightarrow> []
      | Inr ps \<Rightarrow> ps)"


section \<open>OAuth\<close>

definition oauth_get :: "world \<Rightarrow> string \<Rightarrow> string" where
  "oauth_get w k = (case oauth_rel w of None \<Rightarrow> [] | Some d \<Rightarrow> dget d k [])"

definition jwt_access_token :: "world \<Rightarrow> bool" where
  "jwt_access_token w \<longleftrightarrow>
     lower (case oauth_rel w of None \<Rightarrow> ''false'' | Some d \<Rightarrow> dget d ''jwt_access_token'' ''false'') = ''true''"

section \<open>Properties\<close>

subsection \<open>Databags\<close>

text \<open>C11: \<^verbatim>\<open>KafkaCluster.update\<close> never publishes a secret field, does nothing on a unit that is not
  the leader, and on the leader makes every field read as the last value given for it.\<close>

theorem cluster_update_contract:
  assumes "bags_ok w"
  shows "bags_ok (cluster_update items w) \<and>
    (\<forall>k. app_secret_key k \<longrightarrow> map_of (plain (app_bag (cluster_update items w))) k = None) \<and>
    (\<not> leader w \<longrightarrow> cluster_update items w = w) \<and>
    (leader w \<and> peer_rel w \<longrightarrow>
       (\<forall>k. cluster_get (cluster_update items w) k =
              (case map_of (rev items) k of None \<Rightarrow> cluster_get w k | Some v \<Rightarrow> v)))"
proof -
  have ok: "bags_ok (cluster_update items w)" using assms by blast
  then have "map_of (plain (app_bag (cluster_update items w))) k = None" if "app_secret_key k" for k
    using that by (auto simp: bags_ok_def app_bag_ok_def dom_def)
  with ok show ?thesis using cluster_get_update [OF assms] by simp
qed

theorem cluster_update_contract_witness:
  "map_of (plain (app_bag (cluster_update [(''operator-password'', ''s3cret''), (''cluster-uuid'', ''u'')] blank_world)))
     ''operator-password'' = None \<and>
   cluster_get (cluster_update [(''operator-password'', ''s3cret''), (''cluster-uuid'', ''u'')] blank_world)
     ''operator-password'' = ''s3cret''"
  using cluster_update_contract [OF bags_ok_blank, of "[(''operator-password'', ''s3cret''), (''cluster-uuid'', ''u'')]"]
  by (simp add: app_secret_key_def SECRETS_APP_def INTERNAL_USERS_def ADMIN_USER_def)

text \<open>The internal credentials are all or nothing: they are the passwords of all internal
  users once every one of them is set, and empty otherwise.\<close>

theorem internal_user_credentials_all_or_nothing:
  "(if list_all (\<lambda>u. cluster_get w (u @ ''-password'') \<noteq> []) INTERNAL_USERS
    then keys (internal_user_credentials w) = INTERNAL_USERS \<and>
         list_all (\<lambda>u. map_of (internal_user_credentials w) u = Some (cluster_get w (u @ ''-password''))) INTERNAL_USERS
    else internal_user_credentials w = [])"
  by (auto simp: internal_user_credentials_def INTERNAL_USERS_def INTER_BROKER_USER_def ADMIN_USER_def
        keys_def Let_def)

subsection \<open>Identities\<close>

lemma digits_before_dash:
  assumes "i \<ge> 0" "j \<ge> 0" and "str_int i @ a = str_int j @ b"
    and "a = [] \<or> hd a = CHR ''-''" and "b = [] \<or> hd b = CHR ''-''"
  shows "i = j \<and> a = b"
proof -
  have d: "\<forall>c \<in> set (str_int k). is_digit c" if "k \<ge> 0" for k
    using that str_nat_digits by (auto simp: str_int_def)
  have "takeWhile is_digit (str_int k @ c) = str_int k" if "k \<ge> 0" "c = [] \<or> hd c = CHR ''-''" for k c
    using d [OF that(1)] that(2) by (cases c) (auto simp: takeWhile_append2 takeWhile_eq_all_conv is_digit_def)
  then have "str_int i = str_int j" using assms by metis
  with assms(3) show ?thesis by simp
qed

text \<open>The user names of two client requests are equal only for the same relation and the same
  request, and the field that keeps such a user's password is a secret field.\<close>

theorem client_usernames_unique:
  assumes "rid \<ge> 0" and "rid' \<ge> 0"
    and "generate_username rid req = generate_username rid' req'"
  shows "rid = rid' \<and> (case req of None \<Rightarrow> [] | Some r \<Rightarrow> r) = (case req' of None \<Rightarrow> [] | Some r \<Rightarrow> r) \<and>
    app_secret_key (generate_username rid req)"
proof -
  let ?p = "\<lambda>q. case q of None \<Rightarrow> [] | Some r \<Rightarrow> if r = [] then [] else ''-'' @ r"
  have post: "?p q = [] \<or> hd (?p q) = CHR ''-''" for q by (auto split: option.splits)
  have "str_int rid @ ?p req = str_int rid' @ ?p req'"
    using assms(3) by (simp add: generate_username_def Let_def)
  then have "rid = rid' \<and> ?p req = ?p req'"
    by (rule digits_before_dash [OF assms(1,2)]) (rule post)+
  moreover have "app_secret_key (generate_username rid req)"
    by (simp add: app_secret_key_def generate_username_def Let_def)
  ultimately show ?thesis by (auto split: option.splits if_splits)
qed

theorem client_usernames_unique_witness:
  "generate_username 7 (Some ''ab'') = ''relation-7-ab'' \<and> app_secret_key (generate_username 7 (Some ''ab''))"
proof
  show "generate_username 7 (Some ''ab'') = ''relation-7-ab''" by code_simp
  show "app_secret_key (generate_username 7 (Some ''ab''))"
    using client_usernames_unique [of 7 7 "Some ''ab''" "Some ''ab''"] by simp
qed

lemma unit_id_of_unit: "CHR ''/'' \<notin> set app \<Longrightarrow> unit_id_of (app @ ''/'' @ str_int n) = Inr n"
proof -
  assume a: "CHR ''/'' \<notin> set app"
  have "CHR ''/'' \<notin> set (str_int n)" using str_int_chars digit_facts by fastforce
  with a have "split_char (CHR ''/'') (app @ ''/'' @ str_int n) = [app, str_int n]"
    by (simp add: split_char_append split_char_no_sep)
  then show ?thesis by (simp add: unit_id_of_def)
qed

text \<open>Units of one application have their own broker id, 100 more than the number in their
  name, and their own address inside the cluster.\<close>

theorem broker_identity:
  assumes "CHR ''/'' \<notin> set app"
  shows "broker_id_of (app @ ''/'' @ str_int n) = Inr (100 + n) \<and>
    internal_address (app @ ''/'' @ str_int n) = Inr (app @ ''-'' @ str_int n @ ''.'' @ app @ ''-endpoints'') \<and>
    (internal_address (app @ ''/'' @ str_int n) = internal_address (app @ ''/'' @ str_int m) \<longleftrightarrow> n = m)"
proof -
  have addr: "internal_address (app @ ''/'' @ str_int k) = Inr (app @ ''-'' @ str_int k @ ''.'' @ app @ ''-endpoints'')" for k
  proof -
    have "CHR ''/'' \<notin> set (str_int k)" using str_int_chars digit_facts by fastforce
    with assms have "split_char (CHR ''/'') (app @ ''/'' @ str_int k) = [app, str_int k]"
      by (simp add: split_char_append split_char_no_sep)
    then show ?thesis using unit_id_of_unit [OF assms, of k] by (simp add: internal_address_def Let_def)
  qed
  then show ?thesis using unit_id_of_unit [OF assms, of n]
    by (simp add: broker_id_of_def KRAFT_NODE_ID_OFFSET_def)
qed

theorem broker_identity_witness:
  "broker_id_of (''kafka'' @ ''/'' @ str_int 3) = Inr 103"
  using broker_identity [of "''kafka''" 3 3] by simp

subsection \<open>Values kept as text\<close>

lemma tls_key_simps: "tls_key sc f = tls_key sc' f' \<longleftrightarrow> sc = sc' \<and> f = f'"
  by (cases sc; cases sc') (simp_all add: tls_key_def)

lemma wf_dict_single [simp]: "wf_dict [(k, v)]"
  by (simp add: wf_dict_def keys_def)

lemma bags_ok_tls_set [intro]: "bags_ok w \<Longrightarrow> bags_ok (tls_set sc f v w)"
  by (simp add: tls_set_def bags_ok_broker_update)

lemma broker_get_tls_set:
  "bags_ok w \<Longrightarrow> peer_rel w \<Longrightarrow>
   broker_get (tls_set sc f v w) k = (if k = tls_key sc f then v else broker_get w k)"
  by (simp add: tls_set_def broker_get_update)

lemma tls_set_frame [simp]:
  "peer_rel (tls_set sc f v w) = peer_rel w" "leader (tls_set sc f v w) = leader w"
  by (simp_all add: tls_set_def)

lemma dumps_strs_nonempty [simp]: "dumps (json_strs xs) \<noteq> []"
  by (simp add: json_strs_def)

text \<open>What a unit records as trusted is what it reads back, and what it recorded for the other
  scope stays.\<close>

theorem trusted_certificates_roundtrip:
  assumes "bags_ok w" and "peer_rel w" and "trusted_certificates w sc = Inr old"
  shows "trusted_certificates (snd (set_trusted_certificates sc v w)) sc = Inr (set v) \<and>
    (sc' \<noteq> sc \<longrightarrow> trusted_certificates (snd (set_trusted_certificates sc v w)) sc' = trusted_certificates w sc')"
proof (cases "set v = old")
  case True
  with assms(3) show ?thesis by (simp add: set_trusted_certificates_def prog_simps)
next
  case False
  let ?w = "tls_set sc ''trust'' (dumps (json_strs (sort v))) w"
  have w: "snd (set_trusted_certificates sc v w) = ?w"
    using False assms(3) by (simp add: set_trusted_certificates_def prog_simps)
  show ?thesis unfolding w using assms
    by (simp add: trusted_certificates_def broker_get_tls_set tls_key_simps)
qed

theorem trusted_certificates_roundtrip_witness:
  "trusted_certificates (snd (set_trusted_certificates PEER_SCOPE [''b'', ''a''] blank_world)) PEER_SCOPE
     = Inr {''a'', ''b''}"
proof -
  have "trusted_certificates blank_world PEER_SCOPE = Inr {}" by code_simp
  then show ?thesis
    using trusted_certificates_roundtrip [of blank_world PEER_SCOPE "{}" "[''b'', ''a'']"]
    by (simp add: insert_commute)
qed

text \<open>Reading and printing the capacity snapshot.\<close>

lemma int_keys_print: "int_keys (map (\<lambda>(k, v). (str_int k, v)) d) = Inr d"
  by (induction d) auto

lemma int_keys_values: "int_keys kvs = Inr d \<Longrightarrow> snd ` set d \<subseteq> snd ` set kvs"
proof (induction kvs arbitrary: d)
  case (Cons kv kvs)
  obtain k v where kv: "kv = (k, v)" by fastforce
  from Cons.prems obtain i d' where "d = (i, v) # d'" "int_keys kvs = Inr d'"
    by (cases "py_int k") (auto simp: kv bindE_Inr)
  with Cons.IH [of d'] show ?case by (auto simp: kv)
qed simp

lemma snapshot_cases:
  assumes "broker_capacities_snapshot w = Inr s"
  obtains t kvs d where "loads t = Inr (JDict kvs)" "int_keys kvs = Inr d" "s = dmerge [] d"
proof -
  let ?t = "if cluster_get w ''broker-capacities-snapshot'' = [] then ''{}''
    else cluster_get w ''broker-capacities-snapshot''"
  obtain j where j: "loads ?t = Inr j"
      "(case j of JDict kvs \<Rightarrow> bindE (int_keys kvs) (\<lambda>d. Inr (dmerge [] d)) | _ \<Rightarrow> Inl AttributeError) = Inr s"
    using assms unfolding broker_capacities_snapshot_def Let_def bindE_Inr by blast
  then obtain kvs d where "j = JDict kvs" "int_keys kvs = Inr d" "s = dmerge [] d"
    by (cases j) (auto simp: bindE_Inr)
  with j(1) that show thesis by blast
qed

lemma snapshot_wf:
  assumes "broker_capacities_snapshot w = Inr s"
  shows "wf_dict s" and "\<forall>kv \<in> set s. wf_json (snd kv)"
proof -
  obtain t kvs d where j: "loads t = Inr (JDict kvs)" "int_keys kvs = Inr d" "s = dmerge [] d"
    using assms by (rule snapshot_cases)
  show "wf_dict s" using j(3) by simp
  have kvs: "\<forall>v \<in> snd ` set kvs. wf_json v" using loads_wf [OF j(1)] by (simp add: list_all_iff)
  show "\<forall>kv \<in> set s. wf_json (snd kv)"
  proof
    fix kv assume "kv \<in> set s"
    then have "snd kv \<in> snd ` set d" using map_of_dmerge_Nil_keys [of d] j(3) by auto
    then have "snd kv \<in> snd ` set kvs" using int_keys_values [OF j(2)] by (rule rev_subsetD)
    then show "wf_json (snd kv)" by (rule bspec [OF kvs])
  qed
qed

lemma snapshot_print:
  assumes "wf_dict d" and "\<forall>kv \<in> set d. wf_json (snd kv)"
    and "bags_ok w" "peer_rel w" "leader w"
  shows "broker_capacities_snapshot (cluster_update [(''broker-capacities-snapshot'', dump_snapshot d)] w) = Inr d"
proof -
  let ?j = "JDict (map (\<lambda>(k, v). (str_int k, v)) d)"
  have "distinct (map fst d)" using assms(1) by (simp add: wf_dict_def keys_def)
  moreover have "map fst (map (\<lambda>(k, v). (str_int k, v)) d) = map str_int (map fst d)" by auto
  ultimately have "wf_json ?j" using assms(2) by (auto simp: list_all_iff distinct_map inj_on_def)
  then have "loads (dump_snapshot d) = Inr ?j" unfolding dump_snapshot_def by (rule loads_dumps)
  moreover have "dump_snapshot d \<noteq> []" by (simp add: dump_snapshot_def)
  ultimately show ?thesis using assms
    by (simp add: broker_capacities_snapshot_def cluster_get_update int_keys_print dmerge_distinct wf_dict_def keys_def)
qed

text \<open>C36: on the leader, \<^verbatim>\<open>add_broker\<close> makes the snapshot of broker capacities hold the broker's
  current capacity and keeps the other brokers; \<^verbatim>\<open>remove_broker\<close> removes just that broker.
  Both go through the JSON text in the application databag.\<close>

theorem capacity_snapshot_updates:
  assumes "bags_ok w" "peer_rel w" "leader w" and "broker_capacities_snapshot w = Inr s"
    and "wf_json st" and "json_true st" and "nc \<noteq> []"
  shows "(\<exists>s' cap. broker_capacities_snapshot (snd (add_broker i st nc w)) = Inr s' \<and>
           map_of s' i = Some cap \<and> json_eq (broker_capacity w st nc) cap \<and>
           (\<forall>j. j \<noteq> i \<longrightarrow> map_of s' j = map_of s j)) \<and>
    (\<exists>s'. broker_capacities_snapshot (snd (remove_broker i w)) = Inr s' \<and>
           map_of s' = (map_of s)(i := None))"
proof
  note wf = snapshot_wf [OF assms(4)]
  let ?cap = "broker_capacity w st nc"
  have wcap: "wf_json ?cap" using assms(5) by (simp add: broker_capacity_def)
  have refl: "json_eq ?cap ?cap"
  proof -
    have "json_eq j j" if "wf_json j" for j
      using that
    proof (induction j)
      case (JList xs)
      then have "\<forall>x \<in> set xs. json_eq x x" by (simp add: list_all_iff)
      moreover have "(a, b) \<in> set (zip xs xs) \<Longrightarrow> a = b \<and> a \<in> set xs" for a b
        by (auto simp: zip_same)
      ultimately show ?case by (auto simp: list_all_iff)
    next
      case (JDict kvs)
      have "map_of kvs (fst kv) = Some (snd kv)" if "kv \<in> set kvs" for kv
        using JDict.prems that by (simp add: map_of_is_SomeI)
      moreover have "json_eq (snd kv) (snd kv)" if "kv \<in> set kvs" for kv
        using JDict.IH [OF that, of "snd kv"] JDict.prems that by (simp add: list_all_iff snds.intros)
      ultimately show ?case by (simp add: list_all_iff)
    qed simp_all
    then show ?thesis using wcap .
  qed
  show "\<exists>s' cap. broker_capacities_snapshot (snd (add_broker i st nc w)) = Inr s' \<and>
           map_of s' i = Some cap \<and> json_eq ?cap cap \<and> (\<forall>j. j \<noteq> i \<longrightarrow> map_of s' j = map_of s j)"
  proof (cases "json_eq ?cap (case map_of s i of None \<Rightarrow> JDict [] | Some j \<Rightarrow> j)")
    case True
    then obtain c where "map_of s i = Some c" "json_eq ?cap c"
      by (cases "map_of s i") (auto simp: broker_capacity_def)
    with True assms show ?thesis by (simp add: add_broker_def prog_simps Let_def)
  next
    case False
    have "\<forall>kv \<in> set (dset i ?cap s). wf_json (snd kv)" using set_dset [of i ?cap s] wf(2) wcap by auto
    then have "broker_capacities_snapshot (snd (add_broker i st nc w)) = Inr (dset i ?cap s)"
      using False assms wf(1) snapshot_print [of "dset i ?cap s" w] by (simp add: add_broker_def prog_simps Let_def)
    with refl show ?thesis by (intro exI conjI) auto
  qed
  show "\<exists>s'. broker_capacities_snapshot (snd (remove_broker i w)) = Inr s' \<and> map_of s' = (map_of s)(i := None)"
  proof (cases "i \<in> set (keys s)")
    case True
    have "\<forall>kv \<in> set (ddel i s). wf_json (snd kv)" using set_ddel [of i s] wf(2) by auto
    then have "broker_capacities_snapshot (snd (remove_broker i w)) = Inr (ddel i s)"
      using True assms wf(1) snapshot_print [of "ddel i s" w] by (simp add: remove_broker_def prog_simps)
    then show ?thesis by simp
  next
    case False
    then have "(map_of s)(i := None) = map_of s" by (auto simp: dom_def)
    with False assms show ?thesis by (simp add: remove_broker_def prog_simps)
  qed
qed

theorem capacity_snapshot_updates_witness:
  "\<exists>s' cap. broker_capacities_snapshot (snd (add_broker 100 (JDict [(''/data'', JStr ''9'')]) ''4'' blank_world)) = Inr s' \<and>
     map_of s' 100 = Some cap"
proof -
  have "broker_capacities_snapshot blank_world = Inr []" by code_simp
  then show ?thesis
    using capacity_snapshot_updates [of blank_world "[]" "JDict [(''/data'', JStr ''9'')]" "''4''" 100] by auto
qed


fun py_index :: "'a list \<Rightarrow> 'a \<Rightarrow> nat" where
  "py_index [] y = 0"
| "py_index (x # xs) y = (if x = y then 0 else Suc (py_index xs y))"

lemma stable_unique_set [simp]: "set (stable_unique xs) = set xs"
  by (induction xs rule: stable_unique.induct) auto

lemma stable_unique_distinct [simp]: "distinct (stable_unique xs)"
  by (induction xs rule: stable_unique.induct) auto

lemma py_index_filter:
  "\<not> P z \<Longrightarrow> x \<noteq> z \<Longrightarrow> y \<noteq> z \<Longrightarrow> x \<in> set xs \<Longrightarrow> y \<in> set xs \<Longrightarrow>
   py_index (filter (\<lambda>y. y \<noteq> z) xs) x < py_index (filter (\<lambda>y. y \<noteq> z) xs) y \<Longrightarrow> py_index xs x < py_index xs y"
  by (induction xs) (auto split: if_splits)

lemma stable_unique_sorted: "sorted_wrt (\<lambda>x y. py_index xs x < py_index xs y) (stable_unique xs)"
proof (induction xs rule: stable_unique.induct)
  case (2 x xs)
  have "sorted_wrt (\<lambda>a b. py_index xs a < py_index xs b) (stable_unique (filter (\<lambda>y. y \<noteq> x) xs))"
    using "2.IH" by (rule sorted_wrt_mono_rel [rotated]) (auto intro: py_index_filter [of "\<lambda>_. False"])
  then have "sorted_wrt (\<lambda>a b. py_index (x # xs) a < py_index (x # xs) b) (stable_unique (filter (\<lambda>y. y \<noteq> x) xs))"
    by (rule sorted_wrt_mono_rel [rotated]) auto
  then show ?case by auto
qed simp

lemma py_index_inj: "x \<in> set zs \<Longrightarrow> y \<in> set zs \<Longrightarrow> py_index zs x = py_index zs y \<Longrightarrow> x = y"
  by (induction zs) (auto split: if_splits)

lemma sort_key_py_index:
  fixes bs enum :: "'a list"
  assumes "distinct enum" and "set enum = set bs"
  shows "sort_key (py_index bs) enum = stable_unique bs"
proof (rule properties_for_sort_key)
  show "mset (stable_unique bs) = mset enum"
    using assms by (simp add: set_eq_iff_mset_eq_distinct [symmetric])
  have "sorted_wrt (\<lambda>x y. py_index bs x \<le> py_index bs y) (stable_unique bs)"
    by (rule sorted_wrt_mono_rel [OF _ stable_unique_sorted]) simp
  then show "sorted (map (py_index bs) (stable_unique bs))" by (simp add: sorted_wrt_map)
  show "filter (\<lambda>x. py_index bs k = py_index bs x) (stable_unique bs)
      = filter (\<lambda>x. py_index bs k = py_index bs x) enum" if "k \<in> set (stable_unique bs)" for k
  proof -
    have eq: "filter (\<lambda>x. py_index bs k = py_index bs x) zs = filter (\<lambda>x. x = k) zs" if "set zs = set bs" for zs
      using that \<open>k \<in> _\<close> by (intro filter_cong) (auto dest: py_index_inj)
    show ?thesis using that assms by (simp add: eq filter_one)
  qed
qed

text \<open>The bundle of a unit's certificate, CA and chain, written in the code as
  \<^verbatim>\<open>sorted(set(bundle), key=bundle.index)\<close>, does not depend on the order in which the set is
  enumerated, has no duplicates, and starts with the certificate, followed by its CA unless
  they are the same.\<close>

theorem bundle_is_sorted_set:
  assumes "certificate w sc \<noteq> []" and "ca w sc \<noteq> []" and "chain_of w sc = Inr cs"
    and "distinct enum" and "set enum = set ([certificate w sc, ca w sc] @ cs)"
  shows "tls_bundle w sc = Inr (sort_key (py_index ([certificate w sc, ca w sc] @ cs)) enum) \<and>
    (\<exists>rest. tls_bundle w sc = Inr (certificate w sc # rest) \<and> distinct (certificate w sc # rest) \<and>
       (certificate w sc \<noteq> ca w sc \<longrightarrow> rest \<noteq> [] \<and> hd rest = ca w sc))"
proof -
  let ?b = "[certificate w sc, ca w sc] @ cs"
  have b: "tls_bundle w sc = Inr (stable_unique ?b)"
    using assms(1-3) by (simp add: tls_bundle_def)
  moreover have "stable_unique ?b = certificate w sc # stable_unique (filter (\<lambda>y. y \<noteq> certificate w sc) (ca w sc # cs))"
    by simp
  moreover have "certificate w sc \<noteq> ca w sc \<Longrightarrow>
      stable_unique (filter (\<lambda>y. y \<noteq> certificate w sc) (ca w sc # cs)) \<noteq> [] \<and>
      hd (stable_unique (filter (\<lambda>y. y \<noteq> certificate w sc) (ca w sc # cs))) = ca w sc" by simp
  ultimately show ?thesis using sort_key_py_index [OF assms(4,5)] by (auto simp del: stable_unique.simps)
qed

theorem bundle_is_sorted_set_witness:
  "\<exists>w. tls_bundle w CLIENT_SCOPE = Inr [''c'', ''a'', ''r'']"
proof -
  let ?w = "blank_world\<lparr>unit_bag := \<lparr>plain = [], secret = [(''client-certificate'', ''c''), (''client-ca-cert'', ''a''),
     (''client-chain'', dumps (json_strs [''a'', ''r'', ''c'']))]\<rparr>\<rparr>"
  have "certificate ?w CLIENT_SCOPE = ''c''" "ca ?w CLIENT_SCOPE = ''a''"
      "chain_of ?w CLIENT_SCOPE = Inr [''a'', ''r'', ''c'']"
    by code_simp+
  then have "tls_bundle ?w CLIENT_SCOPE =
      Inr (sort_key (py_index [''c'', ''a'', ''a'', ''r'', ''c'']) [''r'', ''c'', ''a''])"
    using bundle_is_sorted_set [of ?w CLIENT_SCOPE "[''a'', ''r'', ''c'']" "[''r'', ''c'', ''a'']"] by auto
  moreover have "sort_key (py_index [''c'', ''a'', ''a'', ''r'', ''c'']) [''r'', ''c'', ''a''] = [''c'', ''a'', ''r'']"
    by code_simp
  ultimately show ?thesis by auto
qed

lemma fetch_with_secrets_fields:
  assumes "k \<notin> set flds"
  shows "map_of (fetch_with_secrets ld r req flds) k = None"
proof -
  let ?secs = "if req \<noteq> [] \<and> ld \<and> list_ex (\<lambda>f. f \<in> set (keys (local_data r))) req then []
    else filter (\<lambda>f. f \<in> set req) flds"
  let ?content = "\<lambda>g. case map_of (remote_secrets r) g of
    None \<Rightarrow> [] | Some c \<Rightarrow> filter (\<lambda>kv. fst kv \<in> set ?secs) c"
  let ?normal = "filter (\<lambda>f. f \<notin> set ?secs \<or> ?content (secret_group f) = []) flds"
  have "k \<notin> set ?secs" using assms by simp
  then have "k \<notin> fst ` set (?content g)" for g by (auto split: option.splits)
  then have "map_of (concat (map ?content gs)) k = None" for gs
    using assms by (auto simp: map_of_eq_None_iff split: option.splits)
  moreover have "map_of (rev (filter (\<lambda>kv. fst kv \<in> set ?normal) (remote_data r))) k = None"
    using assms by (auto simp: map_of_eq_None_iff)
  moreover have "fetch_with_secrets ld r req flds =
      dmerge (concat (map ?content (remdups (map secret_group ?secs))))
        (filter (\<lambda>kv. fst kv \<in> set ?normal) (remote_data r))"
    unfolding fetch_with_secrets_def Let_def by (rule refl)
  ultimately show ?thesis by (simp add: map_add_None del: set_filter)
qed

text \<open>An application without balancer credentials of its own never gets those of the related
  balancer: whatever the remote databag and secrets hold, they read as empty, because the
  fields looked up are not the ones that hold them.\<close>

theorem remote_balancer_credentials_unreadable:
  fixes pc :: PeerCluster
  assumes "pc_balancer_username pc = []" and "pc_balancer_password pc = []" and "pc_balancer_uris pc = []"
  shows "balancer_username pc = [] \<and> balancer_password pc = [] \<and> balancer_uris pc = []"
proof -
  have "map_of (fetch_with_secrets ld r (requested_secrets BROKER) (requested_secrets BALANCER)) k = None"
    if "k \<in> {''balancer-username'', ''balancer-password'', ''balancer-uris''}" for ld r k
    using that by (intro fetch_with_secrets_fields) (auto simp: BALANCER_def)
  then show ?thesis
    using assms by (auto simp: balancer_username_def balancer_password_def balancer_uris_def own_or_remote_def
        dget_def split: option.splits)
qed

theorem remote_balancer_credentials_unreadable_witness:
  "balancer_password (mk_peer_cluster
     (Some \<lparr>rel_id = 4, rel_app = Some ''cc'', rel_units = [], remote_data = [(''balancer-password'', ''pw'')],
        remote_secrets = [(''balancer'', [(''balancer-password'', ''pw'')])], requested = [],
        local_data = [], local_secrets = []\<rparr>) True) = []"
  using remote_balancer_credentials_unreadable by (simp add: mk_peer_cluster_def)

end
