(* ===== verification/Cluster_State.thy ===== *)
theory Cluster_State
  imports Models
begin

text \<open>
  \<^verbatim>\<open>core/cluster.py\<close>: \<^verbatim>\<open>ClusterState\<close>, the view of the whole deployment that one unit computes from
  its databags and relations: which roles the application runs, who its super users are,
  which addresses and authentication methods it offers, whether it is ready to start, and
  the state of TLS trust and rotation shared with the application at the other end of the
  peer-cluster relation.
\<close>

section \<open>Roles\<close>

definition runs_balancer :: "world \<Rightarrow> bool" where
  "runs_balancer w = contains (role_value BALANCER) (cfg_roles (cfg w))"

definition runs_broker :: "world \<Rightarrow> bool" where
  "runs_broker w = contains (role_value BROKER) (cfg_roles (cfg w))"

definition runs_controller :: "world \<Rightarrow> bool" where
  "runs_controller w = contains (role_value CONTROLLER) (cfg_roles (cfg w))"

definition runs_broker_only :: "world \<Rightarrow> bool" where
  "runs_broker_only w \<longleftrightarrow> runs_broker w \<and> \<not> runs_controller w"

definition runs_controller_only :: "world \<Rightarrow> bool" where
  "runs_controller_only w \<longleftrightarrow> runs_controller w \<and> \<not> runs_broker w"


section \<open>General values\<close>

definition default_auth :: "world \<Rightarrow> auth_map" where
  "default_auth w =
     (if tls_enabled w \<and> certificate w CLIENT_SCOPE \<noteq> [] then SASL_SSL else SASL_PLAINTEXT, SCRAM_SHA_512)"

definition internal_auth :: auth_map where
  "internal_auth = (SASL_SSL, SCRAM_SHA_512)"

definition kraft_unit_id :: "world \<Rightarrow> exn + int" where
  "kraft_unit_id w =
     bindE (unit_id_of (unit_name w)) (\<lambda>i.
       Inr (if runs_broker w \<and> runs_controller w then KRAFT_NODE_ID_OFFSET + i else i))"

text \<open>\<^verbatim>\<open>f"{broker.internal_address}:{port}"\<close> for every broker, sorted and joined.\<close>

definition host_port :: "string \<Rightarrow> int \<Rightarrow> string" where
  "host_port h p = h @ '':'' @ str_int p"

definition bootstrap_server_internal :: "world \<Rightarrow> exn + string" where
  "bootstrap_server_internal w =
     (if \<not> peer_rel w then Inr []
      else bindE (ports_of internal_auth) (\<lambda>p.
           bindE (mapE (\<lambda>(n, _). internal_address n) (brokers w)) (\<lambda>addrs.
             Inr (join '','' (sort (map (\<lambda>a. host_port a (internal_port p)) addrs))))))"

definition manager_of :: "world \<Rightarrow> string \<Rightarrow> K8sManager" where
  "manager_of w name = \<lparr>pod_name = pod_name_of name, namespace = model_name w\<rparr>"

definition bootstrap_servers_external :: "k8s_api \<Rightarrow> world \<Rightarrow> exn + string" where
  "bootstrap_servers_external api w =
     bindE (mapE (\<lambda>(n, _).
              bindE (get_node_ip api (manager_of w n) (pod_name_of n)) (\<lambda>ip.
              bindE (get_bootstrap_nodeport api (manager_of w (unit_name w)) (default_auth w)) (\<lambda>port.
                Inr (host_port ip port)))) (brokers w)) (\<lambda>servers.
       Inr (join '','' (sort (remdups servers))))"

definition bootstrap_server_client :: "k8s_api \<Rightarrow> world \<Rightarrow> exn + string" where
  "bootstrap_server_client api w =
     (if \<not> peer_rel w then Inr []
      else if expose_external (cfg w) \<noteq> None then
        (case bootstrap_servers_external api w of
           Inl (ApiError _ _) \<Rightarrow> Inr []
         | r \<Rightarrow> r)
      else bindE (ports_of (default_auth w)) (\<lambda>p.
           bindE (mapE (\<lambda>(n, _). relation_ip_address n) (brokers w)) (\<lambda>addrs.
             Inr (join '','' (sort (map (\<lambda>a. host_port a (client_port p)) addrs))))))"

definition own_bootstrap_controller :: "world \<Rightarrow> exn + string" where
  "own_bootstrap_controller w =
     (if runs_controller w then
        bindE (internal_address (unit_name w)) (\<lambda>a.
        bindE (ports_of internal_auth) (\<lambda>p. Inr (host_port a (controller_port p))))
      else Inr [])"

definition log_dirs :: "world \<Rightarrow> string" where
  "log_dirs w = join '','' (map (\<lambda>d. d @ ''/log'') (storage_dirs w))"

definition metadata_log_dir :: "world \<Rightarrow> string" where
  "metadata_log_dir w = rstrip (hd (split_char (CHR '','') (log_dirs w))) ''/log'' @ ''/metadata''"

definition rack_count :: "world \<Rightarrow> int" where
  "rack_count w = int (length (remdups (filter (\<lambda>r. r \<noteq> []) (map (\<lambda>(_, get). get ''rack'') (brokers w)))))"

definition broker_capacities :: "world \<Rightarrow> exn + json" where
  "broker_capacities w =
     bindE (broker_capacities_snapshot w) (\<lambda>snapshot.
       Inr (JDict [(''brokerCapacities'',
         JList (map (\<lambda>i. JDict [(''brokerId'', JStr (str_int i)), (''capacity'', dget snapshot i JNull), (''doc'', JStr [])])
           (rev (sort (keys snapshot)))))]))"


section \<open>Related applications\<close>

definition peer_cluster_orchestrator :: "world \<Rightarrow> PeerCluster" where
  "peer_cluster_orchestrator w =
     (let pc = mk_peer_cluster (peer_cluster_rel w) (leader w);
          pc = (if runs_balancer w
                then pc\<lparr>pc_balancer_username := cluster_get w ''balancer-username'',
                        pc_balancer_password := cluster_get w ''balancer-password'',
                        pc_balancer_uris := cluster_get w ''balancer-uris''\<rparr>
                else pc)
      in if runs_controller w
         then pc\<lparr>pc_controller_password := cluster_get w ''controller-password'',
                 pc_bootstrap_controller := cluster_get w ''bootstrap-controller'',
                 pc_bootstrap_unit_id := cluster_get w ''bootstrap-unit-id'',
                 pc_bootstrap_replica_id := cluster_get w ''bootstrap-replica-id''\<rparr>
         else pc)"

definition peer_cluster :: "world \<Rightarrow> exn + PeerCluster" where
  "peer_cluster w =
     (if \<not> runs_broker w then Inr (peer_cluster_orchestrator w)
      else
        bindE (bootstrap_server_internal w) (\<lambda>uris.
        bindE (broker_capacities w) (\<lambda>caps.
          let pc = (mk_peer_cluster (orchestrator_rel w) (leader w))
                     \<lparr>pc_broker_username := ADMIN_USER,
                      pc_broker_password := dget (internal_user_credentials w) ADMIN_USER [],
                      pc_broker_uris := uris,
                      pc_cluster_uuid := cluster_get w ''cluster-uuid'',
                      pc_racks := rack_count w,
                      pc_broker_capacities := caps\<rparr>
          in Inr (if runs_controller w \<or> runs_balancer w
             then pc\<lparr>pc_balancer_username := cluster_get w ''balancer-username'',
                     pc_balancer_password := cluster_get w ''balancer-password'',
                     pc_balancer_uris := cluster_get w ''balancer-uris'',
                     pc_controller_password := cluster_get w ''controller-password'',
                     pc_bootstrap_controller := cluster_get w ''bootstrap-controller'',
                     pc_bootstrap_unit_id := cluster_get w ''bootstrap-unit-id'',
                     pc_bootstrap_replica_id := cluster_get w ''bootstrap-replica-id''\<rparr>
             else pc))))"

definition balancer_exists :: "world \<Rightarrow> exn + bool" where
  "balancer_exists w =
     bindE (peer_cluster w) (\<lambda>pc. Inr (runs_balancer w \<or> contains (role_value BALANCER) (pc_roles pc)))"

definition clients :: "k8s_api \<Rightarrow> world \<Rightarrow> exn + KafkaClient list" where
  "clients api w =
     bindE (mapE (\<lambda>r.
         case cr_app r of
           None \<Rightarrow> Inr []
         | Some app \<Rightarrow>
             mapE (\<lambda>q.
               bindE (bootstrap_server_client api w) (\<lambda>bs.
                 Inr \<lparr>kc_rel_id = cr_id r, kc_app = app, kc_units = cr_units r, kc_active = cr_active r, kc_request = q, kc_data = cr_data r,
                      kc_bootstrap_server = bs,
                      kc_password = dget (client_passwords w) (generate_username (cr_id r) (req_id q)) [],
                      kc_tls = (if tls_enabled w then ''enabled'' else ''disabled''),
                      kc_written = cr_written r, kc_written_requests = cr_written_requests r\<rparr>))
               (cr_requests r)) (client_rels w)) (\<lambda>css. Inr (concat css))"

definition has_mtls_clients :: "k8s_api \<Rightarrow> world \<Rightarrow> exn + bool" where
  "has_mtls_clients api w =
     bindE (clients api w) (\<lambda>cs. Inr (list_ex (\<lambda>c. mtls_cert c \<noteq> []) cs \<or> cert_transfer_rels w \<noteq> []))"

definition enabled_auth :: "k8s_api \<Rightarrow> world \<Rightarrow> exn + auth_map list" where
  "enabled_auth api w =
     bindE (has_mtls_clients api w) (\<lambda>mtls.
       Inr ((if client_rels w \<noteq> [] \<or> runs_balancer w \<or>
                contains (role_value BALANCER) (pc_roles (peer_cluster_orchestrator w))
             then [default_auth w] else [])
            @ (if oauth_rel w \<noteq> None then [(fst (default_auth w), OAUTHBEARER)] else [])
            @ (if mtls then [(SSL, SSL_MECH)] else [])))"

definition client_admin :: "world \<Rightarrow> client_rel \<Rightarrow> bool" where
  "client_admin w r \<longleftrightarrow>
     cr_app r \<noteq> None \<and> contains ''admin'' (dget (cr_data r) ''extra-user-roles'' []) \<and>
     cluster_get w (''relation-'' @ str_int (cr_id r)) \<noteq> []"

definition super_users :: "world \<Rightarrow> exn + string" where
  "super_users w =
     (if runs_controller_only w then bindE (peer_cluster w) (\<lambda>pc. Inr (pc_super_users pc))
      else
        let users = INTERNAL_USERS @ [CONTROLLER_USER]
                    @ map (\<lambda>r. ''relation-'' @ str_int (cr_id r)) (filter (client_admin w) (client_rels w))
        in Inr (join '';'' (sort (map (\<lambda>u. ''User:'' @ u) (remdups users)))))"

definition active_brokers_on_relation :: "world \<Rightarrow> exn + int set" where
  "active_brokers_on_relation w =
     (if runs_broker w then
        bindE (mapE (\<lambda>(n, _). broker_id_of n) (brokers w)) (\<lambda>ids. Inr (set ids))
      else case peer_cluster_rel w of
        None \<Rightarrow> Inr {}
      | Some r \<Rightarrow> bindE (mapE broker_id_of (rel_units r)) (\<lambda>ids. Inr (set ids)))"


section \<open>The KRaft cluster object\<close>

text \<open>
  \<^verbatim>\<open>kraft_cluster\<close> is the application databag when this application runs both brokers and
  controllers, and the peer-cluster relation otherwise.
\<close>

definition single_app :: "world \<Rightarrow> bool" where
  "single_app w \<longleftrightarrow> runs_broker w \<and> runs_controller w"

definition kraft_rel :: "world \<Rightarrow> remote_rel option" where
  "kraft_rel w = (if runs_broker w then orchestrator_rel w else peer_cluster_rel w)"

definition kraft_get :: "world \<Rightarrow> string \<Rightarrow> exn + string" where
  "kraft_get w k =
     (if single_app w then Inr (cluster_get w k)
      else bindE (peer_cluster w) (\<lambda>pc. Inr (pc_get pc k)))"

definition kraft_update :: "(string, string) dict \<Rightarrow> world \<Rightarrow> world" where
  "kraft_update items w =
     (if single_app w then cluster_update items w
      else if runs_broker w then w\<lparr>orchestrator_rel := map_option (rel_update (leader w) items) (orchestrator_rel w)\<rparr>
      else w\<lparr>peer_cluster_rel := map_option (rel_update (leader w) items) (peer_cluster_rel w)\<rparr>)"

text \<open>\<^verbatim>\<open>relation.data[relation.app].get(k)\<close> of that object's relation, empty without one.\<close>

definition kraft_app_data :: "world \<Rightarrow> string \<Rightarrow> string" where
  "kraft_app_data w k =
     (if single_app w then (if peer_rel w then dget (plain (app_bag w)) k [] else [])
      else case kraft_rel w of None \<Rightarrow> [] | Some r \<Rightarrow> dget (remote_data r) k [])"

definition kraft_related :: "world \<Rightarrow> bool" where
  "kraft_related w = (if single_app w then peer_rel w else kraft_rel w \<noteq> None)"


section \<open>TLS\<close>

definition use_internal_tls :: "world \<Rightarrow> bool" where
  "use_internal_tls w = (\<not> internal_tls_rel w)"

definition internal_ca_key :: "world \<Rightarrow> string option" where
  "internal_ca_key w = (let k = cluster_get w ''internal-ca-key'' in if k = [] then None else Some k)"

definition internal_ca :: "world \<Rightarrow> string option" where
  "internal_ca w =
     (let c = cluster_get w ''internal-ca'' in if c = [] \<or> internal_ca_key w = None then None else Some c)"

definition set_internal_ca :: "string \<Rightarrow> world \<Rightarrow> world" where
  "set_internal_ca v = cluster_update [(''internal-ca'', v)]"

definition set_internal_ca_key :: "string \<Rightarrow> world \<Rightarrow> world" where
  "set_internal_ca_key v = cluster_update [(''internal-ca-key'', v)]"

definition loads_or_empty :: "string \<Rightarrow> exn + string list" where
  "loads_or_empty t = loads_strs (if t = [] then ''null'' else t)"

definition peer_cluster_ca :: "world \<Rightarrow> exn + string list" where
  "peer_cluster_ca w =
     (if runs_broker_only w then bindE (kraft_get w ''controller-ca'') loads_or_empty
      else if runs_controller_only w then bindE (kraft_get w ''broker-ca'') loads_or_empty
      else tls_bundle w PEER_SCOPE)"

definition set_peer_cluster_ca :: "string list \<Rightarrow> world \<Rightarrow> world" where
  "set_peer_cluster_ca v w =
     (let t = dumps (json_strs v)
      in if runs_broker_only w then kraft_update [(''broker-ca'', t)] w
         else if runs_controller_only w then kraft_update [(''controller-ca'', t)] w
         else w)"

definition broker_trust :: "(string \<Rightarrow> string) \<Rightarrow> exn + string set" where
  "broker_trust get = bindE (loads_or_empty (get (tls_key PEER_SCOPE ''trust''))) (\<lambda>xs. Inr (set xs))"

definition trusted_by_our_app :: "world \<Rightarrow> exn + string set" where
  "trusted_by_our_app w =
     bindE (trusted_certificates w PEER_SCOPE) (\<lambda>own.
     bindE (mapE (\<lambda>(n, get). broker_trust get) (brokers w)) (\<lambda>sets.
       Inr (fold (\<lambda>s acc. acc \<inter> s) sets own)))"

definition trusted_by_peer_cluster_app :: "world \<Rightarrow> exn + string set" where
  "trusted_by_peer_cluster_app w =
     (if \<not> kraft_related w then Inr {}
      else bindE (loads_or_empty (kraft_app_data w ''trust'')) (\<lambda>xs. Inr (set xs)))"

definition refresh_peer_cluster_trust_state :: "unit hook" where
  "refresh_peer_cluster_trust_state =
     bindM (readM (\<lambda>w. w)) (\<lambda>w.
     bindM (liftE (trusted_by_our_app w)) (\<lambda>trust.
       modM (kraft_update [(''trust'', dumps (json_strs (sorted_list_of_set trust)))])))"

definition tls_rotate :: "world \<Rightarrow> bool" where
  "tls_rotate w \<longleftrightarrow> rotate_of w CLIENT_SCOPE \<or> rotate_of w PEER_SCOPE"

definition set_tls_rotate :: "bool \<Rightarrow> world \<Rightarrow> world" where
  "set_tls_rotate v w = set_rotate PEER_SCOPE v (set_rotate CLIENT_SCOPE v w)"

definition balancer_tls_rotate :: "world \<Rightarrow> bool" where
  "balancer_tls_rotate w \<longleftrightarrow> cluster_get w ''balancer-rotation'' \<noteq> []"

definition set_balancer_tls_rotate :: "bool \<Rightarrow> world \<Rightarrow> world" where
  "set_balancer_tls_rotate v = cluster_update [(''balancer-rotation'', if v then ''true'' else [])]"

definition peer_cluster_tls_rotate :: "world \<Rightarrow> bool" where
  "peer_cluster_tls_rotate w \<longleftrightarrow> kraft_related w \<and> kraft_app_data w ''peer-cluster-rotate'' = ''true''"

definition set_peer_cluster_tls_rotate :: "bool \<Rightarrow> world \<Rightarrow> world" where
  "set_peer_cluster_tls_rotate v w =
     (if \<not> leader w then w
      else let items = [(''peer-cluster-rotate'', if v then ''true'' else [])]
           in cluster_update items (kraft_update items w))"

definition both_sides_rotating :: "world \<Rightarrow> bool" where
  "both_sides_rotating w \<longleftrightarrow>
     \<not> (runs_broker w \<and> runs_controller w) \<and> kraft_related w \<and>
     kraft_app_data w ''peer-cluster-rotate'' = ''true'' \<and>
     list_ex (\<lambda>(n, get). get (tls_key PEER_SCOPE ''rotation'') \<noteq> []) (brokers w)"


section \<open>Readiness\<close>

definition broker_status :: "world \<Rightarrow> exn + status" where
  "broker_status w =
     (if \<not> runs_broker w then Inr ACTIVE
      else bindE (peer_cluster w) (\<lambda>pc.
        if bootstrap_controller pc = [] then Inr NO_BOOTSTRAP_CONTROLLER
        else if controller_password pc = [] then Inr MISSING_CONTROLLER_PASSWORD
        else if cluster_get w ''cluster-uuid'' = [] then Inr NO_CLUSTER_UUID
        else bindE (if runs_broker_only w then bindE (peer_cluster_ca w) (\<lambda>cas. Inr (cas = [])) else Inr False) (\<lambda>no_ca.
          if no_ca then Inr NO_PEER_CLUSTER_CA
          else if tls_enabled w \<and> certificate w CLIENT_SCOPE = [] then Inr NO_CERT
          else if internal_user_credentials w = [] then Inr NO_BROKER_CREDS
          else Inr ACTIVE)))"

definition controller_status :: "world \<Rightarrow> exn + status" where
  "controller_status w =
     (if \<not> runs_controller w then Inr ACTIVE
      else if peer_cluster_rel w = None \<and> \<not> runs_broker w then Inr NO_PEER_CLUSTER_RELATION
      else bindE (peer_cluster w) (\<lambda>pc.
        if controller_password pc = [] then Inr MISSING_CONTROLLER_PASSWORD
        else bindE (if runs_controller_only w then bindE (peer_cluster_ca w) (\<lambda>cas. Inr (cas = [])) else Inr False) (\<lambda>no_ca.
          if no_ca then Inr NO_PEER_CLUSTER_CA
          else if \<not> broker_connected_kraft_mode pc then Inr NO_BROKER_DATA
          else Inr ACTIVE)))"

definition ready_to_start :: "world \<Rightarrow> exn + status" where
  "ready_to_start w =
     (if \<not> peer_rel w then Inr NO_PEER_RELATION
      else if runs_broker_only w \<and> orchestrator_rel w = None then Inr MISSING_MODE
      else if \<not> tls_ready w PEER_SCOPE then Inr NO_INTERNAL_TLS
      else bindE (broker_status w) (\<lambda>b.
           bindE (controller_status w) (\<lambda>c.
             Inr (if b \<noteq> ACTIVE then b else if c \<noteq> ACTIVE then c else ACTIVE))))"

definition capacities_list :: "json \<Rightarrow> exn + json list" where
  "capacities_list j =
     (case j of
        JDict kvs \<Rightarrow>
          (case map_of kvs ''brokerCapacities'' of
             None \<Rightarrow> Inr []
           | Some (JList xs) \<Rightarrow> Inr xs
           | Some _ \<Rightarrow> Inl TypeError)
      | _ \<Rightarrow> Inl AttributeError)"

definition balancer_status :: "world \<Rightarrow> exn + status" where
  "balancer_status w =
     (if \<not> peer_rel w then Inr NO_PEER_RELATION
      else if \<not> runs_balancer w \<or> \<not> leader w then Inr ACTIVE
      else if peer_cluster_rel w = None \<and> \<not> runs_broker w then Inr NO_PEER_CLUSTER_RELATION
      else if \<not> tls_ready w PEER_SCOPE then Inr NO_INTERNAL_TLS
      else bindE (peer_cluster w) (\<lambda>pc.
           bindE (broker_connected pc) (\<lambda>connected.
             if \<not> connected then Inr NO_BROKER_DATA
             else bindE (broker_capacities_of pc) (\<lambda>caps.
                  bindE (capacities_list caps) (\<lambda>xs.
                    if length xs < MIN_REPLICAS then Inr NOT_ENOUGH_BROKERS else Inr ACTIVE)))))"

section \<open>Properties\<close>

subsection \<open>Readiness\<close>

lemma role_values [simp]:
  "role_value BROKER = ''broker''" "role_value CONTROLLER = ''controller''" "role_value BALANCER = ''balancer''"
  by (simp_all add: BROKER_def CONTROLLER_def BALANCER_def)

lemma own_or_remote_own [simp]: "own \<noteq> [] \<Longrightarrow> own_or_remote pc own f = own"
  by (simp add: own_or_remote_def)

lemma peer_cluster_broker:
  assumes "runs_broker w" and "peer_cluster w = Inr pc"
  shows "broker_username pc = ADMIN_USER"
    and "dget (internal_user_credentials w) ADMIN_USER [] \<noteq> [] \<Longrightarrow>
         broker_password pc = dget (internal_user_credentials w) ADMIN_USER []"
    and "cluster_get w ''cluster-uuid'' \<noteq> [] \<Longrightarrow> cluster_uuid pc = cluster_get w ''cluster-uuid''"
    and "pc_rel pc = orchestrator_rel w"
  using assms
  by (auto simp: peer_cluster_def bindE_Inr Let_def mk_peer_cluster_def broker_username_def broker_password_def
      cluster_uuid_def ADMIN_USER_def split: if_splits)

lemma credentials_admin:
  "internal_user_credentials w \<noteq> [] \<Longrightarrow> dget (internal_user_credentials w) ADMIN_USER [] \<noteq> []"
  by (auto simp: internal_user_credentials_def Let_def INTERNAL_USERS_def INTER_BROKER_USER_def ADMIN_USER_def
      dget_def split: if_splits)

lemma credentials_iff:
  "internal_user_credentials w \<noteq> [] \<longleftrightarrow>
     cluster_get w ''replication-password'' \<noteq> [] \<and> cluster_get w ''operator-password'' \<noteq> []"
  by (auto simp: internal_user_credentials_def Let_def INTERNAL_USERS_def INTER_BROKER_USER_def ADMIN_USER_def)

text \<open>C17: a unit that is ready to start has its peer relation, its internal certificate, key and CA
  and the controller's password; a broker also knows the bootstrap controller, the cluster
  id, both internal users' passwords, its client certificate when TLS is on and, running
  without controllers, the CA of the controller application; a controller running without
  brokers has the broker credentials and the CA of the broker application.\<close>

theorem ready_to_start_sound:
  assumes "ready_to_start w = Inr ACTIVE" and "peer_cluster w = Inr pc"
  shows "peer_rel w \<and> tls_ready w PEER_SCOPE \<and>
    (runs_broker w \<or> runs_controller w \<longrightarrow> controller_password pc \<noteq> []) \<and>
    (runs_broker w \<longrightarrow>
       bootstrap_controller pc \<noteq> [] \<and> cluster_get w ''cluster-uuid'' \<noteq> [] \<and>
       cluster_get w ''replication-password'' \<noteq> [] \<and> cluster_get w ''operator-password'' \<noteq> [] \<and>
       (tls_enabled w \<longrightarrow> certificate w CLIENT_SCOPE \<noteq> [])) \<and>
    (runs_broker_only w \<longrightarrow> orchestrator_rel w \<noteq> None \<and> (\<exists>c cs. peer_cluster_ca w = Inr (c # cs))) \<and>
    (runs_controller_only w \<longrightarrow>
       peer_cluster_rel w \<noteq> None \<and> (\<exists>c cs. peer_cluster_ca w = Inr (c # cs)) \<and>
       broker_username pc \<noteq> [] \<and> broker_password pc \<noteq> [] \<and> cluster_uuid pc \<noteq> [])"
proof -
  from assms(1) have peer: "peer_rel w" and tls: "tls_ready w PEER_SCOPE"
    and mode: "runs_broker_only w \<Longrightarrow> orchestrator_rel w \<noteq> None"
    and b: "broker_status w = Inr ACTIVE" and c: "controller_status w = Inr ACTIVE"
    by (auto simp: ready_to_start_def bindE_Inr split: if_splits)
  have nonempty: "bindE r (\<lambda>cas. Inr (cas = [])) = Inr False \<Longrightarrow> \<exists>c cs. r = Inr (c # cs)" for r :: "exn + string list"
    by (cases r) (auto simp: neq_Nil_conv)
  have br: "runs_broker w \<Longrightarrow> bootstrap_controller pc \<noteq> [] \<and> controller_password pc \<noteq> [] \<and>
      cluster_get w ''cluster-uuid'' \<noteq> [] \<and> internal_user_credentials w \<noteq> [] \<and>
      (tls_enabled w \<longrightarrow> certificate w CLIENT_SCOPE \<noteq> []) \<and>
      (runs_broker_only w \<longrightarrow> (\<exists>c cs. peer_cluster_ca w = Inr (c # cs)))"
    using b assms(2) nonempty [of "peer_cluster_ca w"]
    by (auto simp: broker_status_def bindE_Inr [of "if _ then _ else _"] split: if_splits)
  have co: "runs_controller w \<Longrightarrow> controller_password pc \<noteq> [] \<and> broker_connected_kraft_mode pc \<and>
      (runs_controller_only w \<longrightarrow> peer_cluster_rel w \<noteq> None \<and> (\<exists>c cs. peer_cluster_ca w = Inr (c # cs)))"
    using c assms(2) nonempty [of "peer_cluster_ca w"]
    by (auto simp: controller_status_def runs_controller_only_def bindE_Inr [of "if _ then _ else _"] split: if_splits)
  show ?thesis
    using peer tls mode br co
    by (auto simp: credentials_iff broker_connected_kraft_mode_def runs_controller_only_def runs_broker_only_def)
qed

text \<open>C32: an application that runs brokers and controllers together and whose data is well formed is
  ready exactly when eight fields are set: three of its internal TLS, the bootstrap
  controller, the cluster id, three passwords (and the client certificate when TLS is on).\<close>

theorem single_app_ready_iff:
  assumes "single_app w" and "peer_cluster w = Inr pc" and "orchestrator_rel w = None"
  shows "ready_to_start w = Inr ACTIVE \<longleftrightarrow>
    peer_rel w \<and> certificate w PEER_SCOPE \<noteq> [] \<and> ca w PEER_SCOPE \<noteq> [] \<and> private_key w PEER_SCOPE \<noteq> [] \<and>
    list_all (\<lambda>k. cluster_get w k \<noteq> [])
      [''bootstrap-controller'', ''cluster-uuid'', ''controller-password'', ''replication-password'', ''operator-password''] \<and>
    (\<not> tls_enabled w \<or> certificate w CLIENT_SCOPE \<noteq> [])"
proof -
  have r: "runs_broker w" "runs_controller w" "\<not> runs_broker_only w" "\<not> runs_controller_only w"
    using assms(1) by (simp_all add: single_app_def runs_broker_only_def runs_controller_only_def)
  have pcs: "bootstrap_controller pc = cluster_get w ''bootstrap-controller''"
      "controller_password pc = cluster_get w ''controller-password''"
    using assms(2,3) r
    by (auto simp: peer_cluster_def bindE_Inr Let_def mk_peer_cluster_def bootstrap_controller_def
        controller_password_def own_or_remote_def)
  have kraft: "internal_user_credentials w \<noteq> [] \<Longrightarrow> cluster_get w ''cluster-uuid'' \<noteq> [] \<Longrightarrow> broker_connected_kraft_mode pc"
    using peer_cluster_broker [OF r(1) assms(2)] credentials_admin [of w]
    by (simp add: broker_connected_kraft_mode_def ADMIN_USER_def)
  have b: "broker_status w = Inr ACTIVE \<longleftrightarrow>
      cluster_get w ''bootstrap-controller'' \<noteq> [] \<and> cluster_get w ''controller-password'' \<noteq> [] \<and>
      cluster_get w ''cluster-uuid'' \<noteq> [] \<and> (tls_enabled w \<longrightarrow> certificate w CLIENT_SCOPE \<noteq> []) \<and>
      internal_user_credentials w \<noteq> []"
    using r assms(2) pcs by (simp add: broker_status_def)
  have c: "broker_status w = Inr ACTIVE \<Longrightarrow> controller_status w = Inr ACTIVE"
    using b r assms(2) pcs kraft by (simp add: controller_status_def)
  have c_def: "\<exists>st. controller_status w = Inr st" and b_def: "\<exists>st. broker_status w = Inr st"
    using r assms(2) by (simp_all add: controller_status_def broker_status_def)
  have "ready_to_start w = Inr ACTIVE \<longleftrightarrow> peer_rel w \<and> tls_ready w PEER_SCOPE \<and> broker_status w = Inr ACTIVE"
    using r c c_def b_def by (auto simp: ready_to_start_def bindE_Inr)
  with b show ?thesis by (auto simp: tls_ready_def credentials_iff)
qed

text \<open>A unit of a single-application cluster with everything set.\<close>

definition ready_world :: world where
  "ready_world = blank_world
     \<lparr>app_bag := \<lparr>plain = [(''cluster-uuid'', ''uuid''), (''bootstrap-controller'', ''kafka-k8s-0.kafka-k8s-endpoints:9098'')],
        secret = [(''controller-password'', ''c''), (''replication-password'', ''r''), (''operator-password'', ''o'')]\<rparr>,
      unit_bag := \<lparr>plain = [],
        secret = [(''peer-certificate'', ''cert''), (''peer-ca-cert'', ''ca''), (''peer-private-key'', ''key'')]\<rparr>\<rparr>"

lemma ready_world_facts:
  "ready_to_start ready_world = Inr ACTIVE" "single_app ready_world" "orchestrator_rel ready_world = None"
  "\<exists>pc. peer_cluster ready_world = Inr pc" "runs_broker ready_world"
proof -
  show "ready_to_start ready_world = Inr ACTIVE" by code_simp
  show "single_app ready_world" by code_simp
  show "orchestrator_rel ready_world = None" by (simp add: ready_world_def)
  show "runs_broker ready_world" by code_simp
  have "case peer_cluster ready_world of Inr _ \<Rightarrow> True | Inl _ \<Rightarrow> False" by code_simp
  then show "\<exists>pc. peer_cluster ready_world = Inr pc" by (cases "peer_cluster ready_world") auto
qed

theorem ready_to_start_sound_witness:
  "cluster_get ready_world ''cluster-uuid'' \<noteq> [] \<and> tls_ready ready_world PEER_SCOPE"
proof -
  obtain pc where "peer_cluster ready_world = Inr pc" using ready_world_facts(4) by blast
  from ready_to_start_sound [OF ready_world_facts(1) this] ready_world_facts(5) show ?thesis by blast
qed

theorem single_app_ready_iff_witness:
  "ready_to_start ready_world = Inr ACTIVE \<and> cluster_get ready_world ''operator-password'' \<noteq> []"
proof -
  obtain pc where "peer_cluster ready_world = Inr pc" using ready_world_facts(4) by blast
  from single_app_ready_iff [OF ready_world_facts(2) this ready_world_facts(3)] ready_world_facts(1)
  show ?thesis by auto
qed

subsection \<open>Values computed from all units\<close>

lemma image_Collect_pairs: "h ` {f r | r. P r} = {h (f r) | r. P r}"
  by blast

definition unit_names :: "world \<Rightarrow> string list" where
  "unit_names w = map fst (brokers w)"

lemma mapE_names: "mapE (\<lambda>(n, _). f n) bs = mapE f (map fst bs)"
  by (induction bs) (auto simp: case_prod_beta)

text \<open>Every unit of the application computes the same internal bootstrap string: it depends on
  which units there are, not on which of them computes it or in which order Juju lists them,
  and its entries are exactly the units' addresses with the internal port.\<close>

theorem bootstrap_server_internal_shared:
  assumes "peer_rel w" and "peer_rel w'" and "mset (unit_names w) = mset (unit_names w')"
    and "\<forall>n \<in> set (unit_names w). internal_address n = Inr (addr n)"
    and "\<forall>n \<in> set (unit_names w). CHR '','' \<notin> set (addr n)"
  shows "\<exists>s. bootstrap_server_internal w = Inr s \<and> bootstrap_server_internal w' = Inr s \<and>
    mset (split_char (CHR '','') s) = mset (map (\<lambda>n. addr n @ '':19093'') (unit_names w))"
proof -
  define entry where "entry n = host_port (addr n) 19093" for n
  define L where "L = sort (map entry (unit_names w))"
  have bs: "bootstrap_server_internal v = Inr (join '','' (sort (map entry (unit_names v))))"
    if "peer_rel v" "set (unit_names v) = set (unit_names w)" for v
    using that assms(4) mapE_total [of "unit_names v" internal_address addr]
    by (simp add: bootstrap_server_internal_def internal_auth_def mapE_names unit_names_def comp_def entry_def)
  have set: "set (unit_names w') = set (unit_names w)" using mset_eq_setD [OF assms(3)] by simp
  have "sort (map entry (unit_names w')) = L"
    by (rule properties_for_sort) (simp_all add: L_def assms(3))
  then have "bootstrap_server_internal w' = Inr (join '','' L)" using bs [OF assms(2) set] by simp
  moreover have "bootstrap_server_internal w = Inr (join '','' L)" using bs [OF assms(1) refl] by (simp add: L_def)
  moreover have "split_char (CHR '','') (join '','' L) = L"
  proof (rule split_char_join)
    have "length L \<noteq> 0" by (simp add: L_def unit_names_def brokers_def)
    then show "L \<noteq> []" by simp
    show "\<forall>x \<in> set L. CHR '','' \<notin> set x"
      using assms(5) str_int_chars [of "CHR '',''" 19093] by (auto simp: L_def entry_def host_port_def is_digit_def)
  qed
  moreover have "str_int 19093 = ''19093''" by code_simp
  then have "entry = (\<lambda>n. addr n @ '':19093'')" by (simp add: entry_def host_port_def fun_eq_iff)
  then have "mset L = mset (map (\<lambda>n. addr n @ '':19093'') (unit_names w))" by (simp add: L_def)
  ultimately show ?thesis by auto
qed

theorem bootstrap_server_internal_shared_witness:
  "\<exists>s. bootstrap_server_internal blank_world = Inr s \<and> split_char (CHR '','') s = [''kafka-k8s-0.kafka-k8s-endpoints:19093'']"
proof -
  have n: "unit_names blank_world = [''kafka-k8s/0'']" by code_simp
  have a: "internal_address ''kafka-k8s/0'' = Inr ''kafka-k8s-0.kafka-k8s-endpoints''" by code_simp
  from bootstrap_server_internal_shared [of blank_world blank_world "\<lambda>_. ''kafka-k8s-0.kafka-k8s-endpoints''"] a n
  show ?thesis by auto
qed

text \<open>The super users of an application with brokers are a sorted list without duplicates of
  the internal users, the controller's user and the clients that asked for the admin role
  and have a password; splitting the setting at semicolons gives them back.\<close>

theorem super_users_content:
  assumes "\<not> runs_controller_only w" and "super_users w = Inr s"
  shows "sorted (split_char (CHR '';'') s) \<and> distinct (split_char (CHR '';'') s) \<and>
    set (split_char (CHR '';'') s) =
      {''User:replication'', ''User:operator'', ''User:controller''} \<union>
      {''User:relation-'' @ str_int (cr_id r) | r. r \<in> set (client_rels w) \<and> client_admin w r}"
proof -
  define rels where "rels = map (\<lambda>r. ''relation-'' @ str_int (cr_id r)) (filter (client_admin w) (client_rels w))"
  define users where "users = INTERNAL_USERS @ [CONTROLLER_USER] @ rels"
  define L where "L = sort (map (\<lambda>u. ''User:'' @ u) (remdups users))"
  have "(Inr (join '';'' L) :: exn + string) = Inr s"
    unfolding L_def users_def rels_def
    using assms(2) unfolding super_users_def Let_def if_not_P [OF assms(1)] .
  then have s: "s = join '';'' L" by simp
  have us: "set users = {''replication'', ''operator'', ''controller''} \<union> set rels"
    by (auto simp: users_def INTERNAL_USERS_def INTER_BROKER_USER_def ADMIN_USER_def CONTROLLER_USER_def)
  have rels: "set rels = {''relation-'' @ str_int (cr_id r) | r. r \<in> set (client_rels w) \<and> client_admin w r}"
    by (auto simp: rels_def)
  have set: "set L = (\<lambda>u. ''User:'' @ u) ` set users" by (simp add: L_def)
  have semi: "CHR '';'' \<notin> set (str_int i)" for i
    using str_int_chars by (fastforce simp: is_digit_def)
  have "\<forall>u \<in> set rels. CHR '';'' \<notin> set u" unfolding rels using semi by auto
  then have "\<forall>u \<in> set users. CHR '';'' \<notin> set u" unfolding us by simp
  then have "\<forall>x \<in> set L. CHR '';'' \<notin> set x" unfolding set by simp
  moreover have "''User:operator'' \<in> set L" unfolding set us by simp
  then have "L \<noteq> []" by (metis empty_iff list.set(1))
  ultimately have "split_char (CHR '';'') s = L" unfolding s by (intro split_char_join)
  moreover have "distinct L" by (simp add: L_def distinct_map inj_on_def)
  moreover have "sorted L" by (simp add: L_def)
  moreover have "set L = {''User:replication'', ''User:operator'', ''User:controller''} \<union>
      {''User:relation-'' @ str_int (cr_id r) | r. r \<in> set (client_rels w) \<and> client_admin w r}"
    unfolding set us rels image_Un image_Collect_pairs by simp
  ultimately show ?thesis by metis
qed

theorem super_users_content_witness:
  "\<exists>s. super_users ready_world = Inr s \<and> ''User:operator'' \<in> set (split_char (CHR '';'') s)"
proof -
  have 1: "\<not> runs_controller_only ready_world" using ready_world_facts(5) by (simp add: runs_controller_only_def)
  then obtain s where 2: "super_users ready_world = Inr s" by (simp add: super_users_def Let_def)
  show ?thesis using super_users_content [OF 1 2] 2 by auto
qed

subsection \<open>Trust shared between applications\<close>

lemma fold_inter: "x \<in> fold (\<lambda>s acc. acc \<inter> s) sets own \<longleftrightarrow> x \<in> own \<and> (\<forall>s \<in> set sets. x \<in> s)"
  by (induction sets arbitrary: own) auto

lemma trusted_by_our_app_iff:
  assumes "trusted_by_our_app w = Inr T"
  shows "x \<in> T \<longleftrightarrow> (\<forall>(n, get) \<in> set (brokers w). \<exists>s. broker_trust get = Inr s \<and> x \<in> s)" and "finite T"
proof -
  obtain own sets where own: "trusted_certificates w PEER_SCOPE = Inr own"
    and sets: "list_all2 (\<lambda>b s. (case b of (n, get) \<Rightarrow> broker_trust get) = Inr s) (brokers w) sets"
    and T: "T = fold (\<lambda>s acc. acc \<inter> s) sets own"
    using assms by (auto simp: trusted_by_our_app_def bindE_Inr mapE_Inr_iff)
  have self: "broker_trust (broker_get w) = Inr own"
    using own by (simp add: broker_trust_def trusted_certificates_def loads_or_empty_def Let_def)
  have all: "(\<forall>s \<in> set sets. x \<in> s) \<longleftrightarrow>
      (\<forall>(n, get) \<in> set (brokers w). \<exists>s. broker_trust get = Inr s \<and> x \<in> s)"
    using sets by (induction rule: list_all2_induct) auto
  moreover have "(unit_name w, broker_get w) \<in> set (brokers w)" by (simp add: brokers_def)
  ultimately show "x \<in> T \<longleftrightarrow> (\<forall>(n, get) \<in> set (brokers w). \<exists>s. broker_trust get = Inr s \<and> x \<in> s)"
    using self T by (auto simp: fold_inter)
  have "finite own" using own by (auto simp: trusted_certificates_def Let_def bindE_Inr)
  then show "finite T" using T fold_inter [of _ sets own] by (auto intro: finite_subset [of _ own])
qed

lemma kraft_trust_written:
  assumes "single_app w" "peer_rel w" "leader w" "bags_ok w"
  shows "kraft_app_data (kraft_update [(''trust'', t)] w) ''trust'' = t"
proof -
  have k: "\<not> app_secret_key ''trust''"
    by (simp add: app_secret_key_def SECRETS_APP_def INTERNAL_USERS_def INTER_BROKER_USER_def ADMIN_USER_def
        BALANCER_WEBSERVER_USER_def CONTROLLER_USER_def)
  have sa: "single_app (kraft_update i w) = single_app w" for i
    using assms(1) by (simp add: kraft_update_def single_app_def runs_broker_def runs_controller_def)
  have ok: "bags_ok (kraft_update [(''trust'', t)] w)" using assms by (simp add: kraft_update_def bags_ok_cluster_update)
  have "kraft_app_data (kraft_update [(''trust'', t)] w) ''trust'' = cluster_get (kraft_update [(''trust'', t)] w) ''trust''"
    using assms ok k sa by (simp add: kraft_app_data_def cluster_get_def app_get_ok bags_ok_def kraft_update_def)
  then show ?thesis using assms by (simp add: kraft_update_def cluster_get_update)
qed

text \<open>The set of certificates published to the related application is exactly what every unit
  of this application has loaded into its truststore, and the published text reads back as
  that set.\<close>

theorem published_trust_is_common_trust:
  assumes "trusted_by_our_app w = Inr T" and "single_app w" "peer_rel w" "leader w" "bags_ok w"
  shows "(x \<in> T \<longleftrightarrow> list_all (\<lambda>(n, get). \<exists>s. broker_trust get = Inr s \<and> x \<in> s) (brokers w)) \<and>
    trusted_by_peer_cluster_app (snd (refresh_peer_cluster_trust_state w)) = Inr T"
proof
  show "x \<in> T \<longleftrightarrow> list_all (\<lambda>(n, get). \<exists>s. broker_trust get = Inr s \<and> x \<in> s) (brokers w)"
    using trusted_by_our_app_iff(1) [OF assms(1)] by (auto simp: list_all_iff)
  let ?t = "dumps (json_strs (sorted_list_of_set T))"
  have w': "snd (refresh_peer_cluster_trust_state w) = kraft_update [(''trust'', ?t)] w"
    using assms(1) by (simp add: refresh_peer_cluster_trust_state_def prog_simps)
  have "kraft_related (kraft_update [(''trust'', ?t)] w)"
    using assms by (simp add: kraft_related_def kraft_update_def single_app_def runs_broker_def runs_controller_def)
  then show "trusted_by_peer_cluster_app (snd (refresh_peer_cluster_trust_state w)) = Inr T"
    unfolding w' trusted_by_peer_cluster_app_def kraft_trust_written [OF assms(2-5)]
    using trusted_by_our_app_iff(2) [OF assms(1)] by (simp add: loads_or_empty_def)
qed

theorem published_trust_is_common_trust_witness:
  "trusted_by_peer_cluster_app (snd (refresh_peer_cluster_trust_state ready_world)) = Inr {}"
proof -
  have t: "trusted_by_our_app ready_world = Inr {}" by code_simp
  have "bags_ok ready_world" by code_simp
  moreover have "peer_rel ready_world" "leader ready_world" by (simp_all add: ready_world_def)
  ultimately show ?thesis using published_trust_is_common_trust [OF t ready_world_facts(2)] by blast
qed

subsection \<open>Storage\<close>

lemma rstrip_stop: "\<forall>c \<in> set t. c \<in> set chars \<Longrightarrow> s \<noteq> [] \<Longrightarrow> last s \<notin> set chars \<Longrightarrow> rstrip (s @ t) chars = s"
proof -
  assume a: "\<forall>c \<in> set t. c \<in> set chars" "s \<noteq> []" "last s \<notin> set chars"
  obtain s' c where s: "s = s' @ [c]" using a(2) by (metis append_butlast_last_id)
  have "dropWhile (\<lambda>c. c \<in> set chars) (rev t @ c # rev s') = c # rev s'"
    using a s by (subst dropWhile_append2) simp_all
  then show ?thesis by (simp add: rstrip_def rstrip_by_def s)
qed

text \<open>The metadata directory sits beside the log directory of the first storage as long as the
  storage's path does not end in one of the characters of \<^verbatim>\<open>/log\<close>; otherwise those characters
  are lost from its name.\<close>

theorem metadata_log_dir_location:
  assumes "storage_dirs w = d # ds" and "CHR '','' \<notin> set d" and "d \<noteq> []"
  shows "(last d \<notin> set ''/log'' \<longrightarrow> metadata_log_dir w = d @ ''/metadata'') \<and>
    (d = ''/data/catalog'' \<longrightarrow> metadata_log_dir w = ''/data/cata/metadata'')"
proof -
  have "hd (split_char (CHR '','') (log_dirs w)) = d @ ''/log''"
  proof (cases ds)
    case Nil
    with assms show ?thesis by (simp add: log_dirs_def split_char_no_sep)
  next
    case (Cons e es)
    then have "log_dirs w = (d @ ''/log'') @ CHR '','' # join '','' (map (\<lambda>d. d @ ''/log'') ds)"
      using assms(1) by (simp add: log_dirs_def)
    moreover have "CHR '','' \<notin> set (d @ ''/log'')" using assms(2) by simp
    ultimately show ?thesis using split_char_append by (metis list.sel(1))
  qed
  then show ?thesis
    using assms(3) rstrip_stop [of "''/log''" "''/log''" d]
    by (auto simp: metadata_log_dir_def) (simp add: rstrip_def rstrip_by_def)
qed

theorem metadata_log_dir_location_witness:
  "metadata_log_dir blank_world = ''/var/lib/kafka/0/metadata''"
  using metadata_log_dir_location [of blank_world "''/var/lib/kafka/0''" "[]"] by simp

end
