(* ===== verification/Workload.thy ===== *)
theory Workload
  imports Cluster_State
begin

text \<open>
  \<^verbatim>\<open>core/workload.py\<close> and \<^verbatim>\<open>workload.py\<close>: the workload container, its files and services, and the
  Kafka command-line tools run in it. What the outside answers is an \<open>env\<close>: the output of a
  command with the files as it leaves them, whether a socket is open, the Kubernetes API,
  freshly generated passwords, the environment variables of the hook, and whether a URL can be
  opened without a certificate error. Each answer may depend on the whole state, so an \<open>env\<close> covers
  services that change while a hook runs.
\<close>

section \<open>The outside\<close>

record env =
  env_exec :: "world \<Rightarrow> string option \<Rightarrow> string list \<Rightarrow> (string \<times> string) list \<Rightarrow> (exn + string) \<times> (string, string) dict"
  env_connect :: "world \<Rightarrow> string \<Rightarrow> int \<Rightarrow> bool"
  env_k8s :: k8s_api
  env_password :: "world \<Rightarrow> string"
  env_environ :: "string \<Rightarrow> string option"
  env_trusted_ca :: "string \<Rightarrow> bool"
  env_secret :: "string \<Rightarrow> (string, string) dict option"
  env_secret_id :: "string \<Rightarrow> int \<Rightarrow> string option \<Rightarrow> string option"
  env_ip :: "int option \<Rightarrow> string"
  env_last_restart :: "string \<Rightarrow> int"
  env_modify_time :: "world \<Rightarrow> string \<Rightarrow> int"


section \<open>Paths\<close>

definition conf_path :: "role \<Rightarrow> string" where "conf_path r = CONF (role_paths r)"
definition binaries_path :: "role \<Rightarrow> string" where "binaries_path r = BIN (role_paths r)"
definition logs_path :: "role \<Rightarrow> string" where "logs_path r = LOGS (role_paths r)"
definition server_properties :: "role \<Rightarrow> string" where "server_properties r = conf_path r @ ''/server.properties''"
definition client_properties :: "role \<Rightarrow> string" where "client_properties r = conf_path r @ ''/client.properties''"
definition kraft_client_properties :: "role \<Rightarrow> string" where
  "kraft_client_properties r = conf_path r @ ''/kraft-client.properties''"
definition balancer_jaas :: "role \<Rightarrow> string" where "balancer_jaas r = conf_path r @ ''/cruise_control_jaas.conf''"
definition keystore :: "role \<Rightarrow> string" where
  "keystore r = conf_path r @ ''/'' @ scope_value CLIENT_SCOPE @ ''-keystore.p12''"
definition truststore :: "role \<Rightarrow> string" where
  "truststore r = conf_path r @ ''/'' @ scope_value CLIENT_SCOPE @ ''-truststore.jks''"
definition peer_keystore :: "role \<Rightarrow> string" where
  "peer_keystore r = conf_path r @ ''/'' @ scope_value PEER_SCOPE @ ''-keystore.p12''"
definition peer_truststore :: "role \<Rightarrow> string" where
  "peer_truststore r = conf_path r @ ''/'' @ scope_value PEER_SCOPE @ ''-truststore.jks''"
definition log4j_properties :: "role \<Rightarrow> string" where "log4j_properties r = conf_path r @ ''/log4j.properties''"
definition tools_log4j_properties :: "role \<Rightarrow> string" where
  "tools_log4j_properties r = conf_path r @ ''/tools-log4j.properties''"
definition jmx_prometheus_javaagent :: "role \<Rightarrow> string" where
  "jmx_prometheus_javaagent r = binaries_path r @ ''/libs/jmx_prometheus_javaagent.jar''"
definition jmx_prometheus_config :: string where
  "jmx_prometheus_config = CONF (role_paths BROKER) @ ''/jmx_prometheus.yaml''"
definition jmx_cc_config :: string where
  "jmx_cc_config = CONF (role_paths BALANCER) @ ''/jmx_cruise_control.yaml''"
definition cruise_control_properties :: "role \<Rightarrow> string" where
  "cruise_control_properties r = conf_path r @ ''/cruisecontrol.properties''"
definition capacity_jbod_json :: "role \<Rightarrow> string" where "capacity_jbod_json r = conf_path r @ ''/capacityJBOD.json''"
definition cruise_control_auth :: "role \<Rightarrow> string" where
  "cruise_control_auth r = conf_path r @ ''/cruisecontrol.credentials''"


section \<open>Files, commands, services\<close>

definition workload_read :: "world \<Rightarrow> string \<Rightarrow> string list" where
  "workload_read w path =
     (case map_of (files w) path of None \<Rightarrow> [] | Some t \<Rightarrow> split_char (CHR 0x0A) t)"

definition workload_write :: "string \<Rightarrow> string \<Rightarrow> unit hook" where
  "workload_write content path = modM (\<lambda>w. w\<lparr>files := dset path content (files w)\<rparr>)"

text \<open>A command leaves its output or a \<^verbatim>\<open>CommandError\<close> and is recorded.\<close>

definition exec_in :: "env \<Rightarrow> string option \<Rightarrow> string list \<Rightarrow> (string \<times> string) list \<Rightarrow> string hook" where
  "exec_in env working_dir command environment =
     (\<lambda>w. case env_exec env w working_dir command environment of
            (r, fs) \<Rightarrow> (r, w\<lparr>files := fs, actions := actions w @ [Exec working_dir command environment]\<rparr>))"

definition exec :: "env \<Rightarrow> string list \<Rightarrow> (string \<times> string) list \<Rightarrow> string hook" where
  "exec env command environment = exec_in env None command environment"

fun parse_opts :: "string list \<Rightarrow> exn + (string, string) dict" where
  "parse_opts [] = Inr []"
| "parse_opts (opt # opts) =
     (case split1 (CHR ''='') opt of
        [k, v] \<Rightarrow>
          bindE (parse_opts opts) (\<lambda>r.
            Inr (dmerge [(k, filter (\<lambda>c. c \<noteq> CHR 0x27) v)] r))
      | _ \<Rightarrow> Inl ValueError)"

definition run_bin_command :: "env \<Rightarrow> string \<Rightarrow> string list \<Rightarrow> string list \<Rightarrow> string hook" where
  "run_bin_command env bin_keyword bin_args opts =
     bindM (liftE (parse_opts opts)) (\<lambda>parsed_opts.
       exec env (words (binaries_path BROKER @ ''/bin/kafka-'' @ bin_keyword @ ''.sh '' @ join '' '' bin_args))
         parsed_opts)"

text \<open>The balancer's wrapper runs the broker's tools.\<close>

definition balancer_run_bin_command :: "env \<Rightarrow> string \<Rightarrow> string list \<Rightarrow> string list \<Rightarrow> string hook" where
  "balancer_run_bin_command env bin_keyword bin_args opts =
     bindM (liftE (parse_opts opts)) (\<lambda>parsed_opts.
       exec env (words (BIN (role_paths BROKER) @ ''/bin/kafka-'' @ bin_keyword @ ''.sh '' @ join '' '' bin_args))
         parsed_opts)"

definition active :: "world \<Rightarrow> role \<Rightarrow> bool" where
  "active w r \<longleftrightarrow> can_connect w \<and> role_service r \<in> set (running w)"

definition start_service :: "role \<Rightarrow> unit hook" where
  "start_service r =
     modM (\<lambda>w. w\<lparr>running := role_service r # removeAll (role_service r) (running w),
                  actions := actions w @ [Started (role_service r)]\<rparr>)"

definition stop_service :: "role \<Rightarrow> unit hook" where
  "stop_service r =
     modM (\<lambda>w. w\<lparr>running := removeAll (role_service r) (running w),
                  actions := actions w @ [Stopped (role_service r)]\<rparr>)"

definition restart_service :: "role \<Rightarrow> unit hook" where
  "restart_service r = start_service r"

record layer =
  layer_service :: string
  layer_override :: string
  layer_command :: string
  layer_user :: string
  layer_group :: string
  layer_environment :: "(string \<times> string) list"

definition kafka_layer :: layer where
  "kafka_layer =
     (let r = BROKER;
          extra_opts = [''-javaagent:'' @ jmx_prometheus_javaagent r @ ''='' @ str_int JMX_EXPORTER_PORT @ '':'' @ jmx_prometheus_config]
      in \<lparr>layer_service = role_service BROKER, layer_override = ''merge'',
          layer_command = binaries_path r @ ''/bin/kafka-server-start.sh '' @ server_properties r,
          layer_user = USER_NAME, layer_group = GROUP,
          layer_environment =
            [(''KAFKA_OPTS'', join '' '' extra_opts), (''JAVA_HOME'', ''/usr/lib/jvm/java-21-openjdk-amd64''),
             (''LOG_DIR'', logs_path r)]\<rparr>)"

definition balancer_layer :: layer where
  "balancer_layer =
     (let r = BALANCER;
          extra_opts = [''-javaagent:'' @ jmx_prometheus_javaagent BROKER @ ''='' @ str_int JMX_CC_PORT @ '':'' @ jmx_cc_config,
                        ''-Djava.security.auth.login.config='' @ balancer_jaas r]
      in \<lparr>layer_service = role_service BALANCER, layer_override = ''replace'',
          layer_command = binaries_path r @ ''/bin/kafka-cruise-control-start.sh '' @ cruise_control_properties r,
          layer_user = USER_NAME, layer_group = GROUP,
          layer_environment =
            [(''KAFKA_OPTS'', join '' '' extra_opts), (''JAVA_HOME'', ''/usr/lib/jvm/java-21-openjdk-amd64''),
             (''LOG_DIR'', logs_path r)]\<rparr>)"


section \<open>Health\<close>

text \<open>
  \<^verbatim>\<open>ping\<close>: the first open socket of a comma-separated list. An entry with more than one colon
  makes the tuple assignment raise, a port that is no number makes \<^verbatim>\<open>int\<close> raise.
\<close>

fun ping_nodes :: "(string \<Rightarrow> int \<Rightarrow> bool) \<Rightarrow> string list \<Rightarrow> exn + bool" where
  "ping_nodes up [] = Inr False"
| "ping_nodes up (hp # hps) =
     (if CHR '':'' \<notin> set hp then ping_nodes up hps
      else case split_char (CHR '':'') hp of
        [host, port] \<Rightarrow>
          (case py_int port of
             None \<Rightarrow> Inl ValueError
           | Some p \<Rightarrow> if up host p then Inr True else ping_nodes up hps)
      | _ \<Rightarrow> Inl ValueError)"

definition ping :: "(string \<Rightarrow> int \<Rightarrow> bool) \<Rightarrow> string \<Rightarrow> exn + bool" where
  "ping up bootstrap_nodes = ping_nodes up (split_char (CHR '','') bootstrap_nodes)"

text \<open>\<^verbatim>\<open>_parse_metric_value\<close>: the text of the value, \<open>None\<close> when the metric does not occur.\<close>

fun parse_metric_lines :: "string list \<Rightarrow> string \<Rightarrow> exn + string option" where
  "parse_metric_lines [] metric = Inr None"
| "parse_metric_lines (line # ls) metric =
     (if startswith line ''#'' then parse_metric_lines ls metric
      else case words line of
        [] \<Rightarrow> Inl IndexError
      | name # parts \<Rightarrow>
          if contains (lower metric) name
          then (case parts of [] \<Rightarrow> Inl IndexError | v # _ \<Rightarrow> Inr (Some (strip v)))
          else parse_metric_lines ls metric)"

definition parse_metric_value :: "string \<Rightarrow> string \<Rightarrow> exn + string option" where
  "parse_metric_value raw metric = parse_metric_lines (split_char (CHR 0x0A) raw) metric"

text \<open>
  \<^verbatim>\<open>health_check\<close> retries up to five times on \<^verbatim>\<open>False\<close> and on any exception and then answers
  \<^verbatim>\<open>False\<close>. \<open>is_zero\<close> is \<^verbatim>\<open>float(text) == 0.0\<close> of the metric's text.
\<close>

definition is_zero :: "string \<Rightarrow> bool" where
  "is_zero t \<longleftrightarrow> (is_int_lit t \<or> is_float_lit t) \<and>
     (\<forall>c \<in> set (takeWhile (\<lambda>c. c \<notin> set ''eE'') t). is_digit c \<longrightarrow> c = CHR ''0'')"

definition health_check_once :: "env \<Rightarrow> string \<Rightarrow> bool \<Rightarrow> bool \<Rightarrow> bool hook" where
  "health_check_once env host rb rc =
     bindM (readM (env_connect env)) (\<lambda>up.
     bindM (liftE (ports_of (SASL_SSL, SCRAM_SHA_512))) (\<lambda>p.
     bindM (if rc
            then bindM (liftE (ping up (host_port host (controller_port p)))) (\<lambda>ok.
                   if ok then skip else raise AssertionError)
            else skip) (\<lambda>_.
       if \<not> rb then ret True
       else bindM (liftE (ping up (host_port host (internal_port p)))) (\<lambda>ok.
         if \<not> ok then raise AssertionError
         else bindM (exec env [''curl'', ''http://localhost:'' @ str_int JMX_EXPORTER_PORT] []) (\<lambda>raw.
              bindM (liftE (parse_metric_value raw ''UnderMinIsrPartitionCount'')) (\<lambda>v.
                ret (case v of None \<Rightarrow> False | Some t \<Rightarrow> is_zero t)))))))"

fun health_check_attempts :: "nat \<Rightarrow> env \<Rightarrow> string \<Rightarrow> bool \<Rightarrow> bool \<Rightarrow> bool hook" where
  "health_check_attempts 0 env host b c = ret False"
| "health_check_attempts (Suc n) env host b c =
     bindM (tryM (health_check_once env host b c) (\<lambda>_. True) (\<lambda>_. ret False)) (\<lambda>ok.
       if ok then ret True else health_check_attempts n env host b c)"

definition health_check :: "env \<Rightarrow> string \<Rightarrow> bool \<Rightarrow> bool \<Rightarrow> bool hook" where
  "health_check = health_check_attempts 5"

text \<open>
  \<^verbatim>\<open>re.findall\<close> of four groups of one to three digits with dots between them. A group is
  always taken as long as possible: fewer digits could not be followed by a dot either.
\<close>

definition digit_group :: "string \<Rightarrow> string" where
  "digit_group s = take 3 (takeWhile is_digit s)"

fun match_groups :: "nat \<Rightarrow> string \<Rightarrow> string option" where
  "match_groups 0 s = (if digit_group s = [] then None else Some (digit_group s))"
| "match_groups (Suc n) s =
     (let d = digit_group s; r = drop (length d) s
      in if d = [] \<or> r = [] \<or> hd r \<noteq> CHR ''.'' then None
         else map_option (\<lambda>m. d @ ''.'' @ m) (match_groups n (tl r)))"

function findall_ips :: "string \<Rightarrow> string list" where
  "findall_ips s =
     (case s of
        [] \<Rightarrow> []
      | c # s' \<Rightarrow>
          (case match_groups 3 s of
             Some m \<Rightarrow> m # (if m = [] then [] else findall_ips (drop (length m) s))
           | None \<Rightarrow> findall_ips s'))"
  by pat_completeness auto
termination
  by (relation "measure length") auto

declare findall_ips.simps [simp del]

definition ips :: "env \<Rightarrow> string list hook" where
  "ips env =
     bindM (readM can_connect) (\<lambda>conn.
       if \<not> conn then ret []
       else bindM (exec env [''hostname'', ''-I''] []) (\<lambda>raw. ret (if strip raw = [] then [] else findall_ips (strip raw))))"

section \<open>Properties\<close>

definition no_space :: "string \<Rightarrow> bool" where
  "no_space s \<longleftrightarrow> list_all (\<lambda>c. \<not> is_space c) s"

lemma split1_append: "c \<notin> set a \<Longrightarrow> split1 c (a @ c # b) = [a, b]"
  by (simp add: split1_def takeWhile_append dropWhile_append)

lemma words_aux_word: "no_space s \<Longrightarrow> words_aux acc (s @ r) = words_aux (rev s @ acc) r"
  by (induction s arbitrary: acc) (auto simp: no_space_def)


lemma words_join: "\<forall>x \<in> set xs. x \<noteq> [] \<and> no_space x \<Longrightarrow> words (join '' '' xs) = xs"
proof (induction xs)
  case Nil
  then show ?case by (simp add: words_def)
next
  case (Cons x xs)
  show ?case
  proof (cases "xs = []")
    case True
    with Cons.prems words_aux_word [of x "[]" "[]"] show ?thesis by (simp add: words_def)
  next
    case False
    then have "join '' '' (x # xs) = x @ CHR '' '' # join '' '' xs" by (simp add: join_Cons)
    moreover have "is_space (CHR '' '')" by (simp add: is_space_def)
    ultimately show ?thesis using Cons words_aux_word [of x "[]"] by (simp add: words_def)
  qed
qed

lemma words_command:
  assumes "\<forall>x \<in> set (c # args). x \<noteq> [] \<and> no_space x" and "args \<noteq> []"
  shows "words (c @ '' '' @ join '' '' args) = c # args"
  using words_join [OF assms(1)] assms(2) by (simp add: join_Cons)

lemma bin_no_space:
  "list_all (\<lambda>c. \<not> is_space c) kw \<Longrightarrow> no_space (binaries_path BROKER @ ''/bin/kafka-'' @ kw @ ''.sh'')"
  by (simp add: no_space_def binaries_path_def BROKER_def PATHS_KAFKA_def is_space_def)

text \<open>The Kafka tools get their arguments as the caller wrote them: joining them into one
  command line and splitting it again keeps them apart as long as none is empty or holds
  whitespace, and an option is passed as an environment variable without its quotes.\<close>

theorem run_bin_command_arguments:
  assumes "bin_args \<noteq> []" and "\<forall>x \<in> set bin_args. x \<noteq> [] \<and> no_space x" and "no_space kw"
    and "CHR ''='' \<notin> set name"
  shows "run_bin_command env kw bin_args [name @ ''='' @ val] =
    exec env ((''/opt/kafka/bin/kafka-'' @ kw @ ''.sh'') # bin_args) [(name, filter (\<lambda>c. c \<noteq> CHR 0x27) val)]"
proof -
  let ?c = "binaries_path BROKER @ ''/bin/kafka-'' @ kw @ ''.sh''"
  have c: "?c = ''/opt/kafka/bin/kafka-'' @ kw @ ''.sh''"
    by (simp add: binaries_path_def BROKER_def PATHS_KAFKA_def)
  have "words (?c @ '' '' @ join '' '' bin_args) = ?c # bin_args"
    using assms(1-3) bin_no_space [of kw]
    by (intro words_command) (auto simp: no_space_def BROKER_def binaries_path_def PATHS_KAFKA_def)
  then have words: "words (binaries_path BROKER @ ''/bin/kafka-'' @ kw @ ''.sh '' @ join '' '' bin_args) = ?c # bin_args"
    by simp
  have "split1 (CHR ''='') (name @ ''='' @ val) = [name, val]"
    using split1_append [OF assms(4)] by simp
  then have "parse_opts [name @ ''='' @ val] = Inr [(name, filter (\<lambda>c. c \<noteq> CHR 0x27) val)]"
    by (simp add: dmerge_def)
  then show ?thesis unfolding run_bin_command_def words c [symmetric] by (simp add: bindM_def)
qed

theorem run_bin_command_arguments_witness:
  "\<forall>env. run_bin_command env ''acls'' [''--list''] [''KAFKA_OPTS=x''] =
    exec env [''/opt/kafka/bin/kafka-acls.sh'', ''--list''] [(''KAFKA_OPTS'', ''x'')]"
  using run_bin_command_arguments [of "[''--list'']" "''acls''" "''KAFKA_OPTS''" _ "''x''"]
  by (simp add: no_space_def is_space_def)

lemma ping_nodes_entries:
  "\<forall>(h, p) \<in> set hps. CHR '':'' \<notin> set h \<Longrightarrow>
   ping_nodes up (map (\<lambda>(h, p). host_port h p) hps) = Inr (list_ex (\<lambda>(h, p). up h p) hps)"
proof (induction hps)
  case (Cons hp hps)
  obtain h p where hp: "hp = (h, p)" by fastforce
  have "CHR '':'' \<notin> set (str_int p)" using str_int_chars digit_facts by fastforce
  then have "split_char (CHR '':'') (host_port h p) = [h, str_int p]"
    using Cons.prems hp by (simp add: host_port_def split_char_append split_char_no_sep)
  moreover have "CHR '':'' \<in> set (host_port h p)" by (simp add: host_port_def)
  ultimately show ?case using Cons hp by simp
qed simp

lemma health_check_total: "\<exists>b. fst (health_check_attempts n env h rb rc w) = Inr b"
proof (induction n arbitrary: w)
  case (Suc n)
  obtain r w' where once: "health_check_once env h rb rc w = (r, w')" by fastforce
  have "tryM (health_check_once env h rb rc) (\<lambda>_. True) (\<lambda>_. ret False) w =
      (Inr (case r of Inl _ \<Rightarrow> False | Inr b \<Rightarrow> b), w')"
    using once by (cases r) (simp_all add: tryM_def)
  then have eq: "health_check_attempts (Suc n) env h rb rc w =
      (if (case r of Inl _ \<Rightarrow> False | Inr b \<Rightarrow> b) then ret True else health_check_attempts n env h rb rc) w'"
    by (simp add: bindM_def)
  show ?case
  proof (cases "case r of Inl _ \<Rightarrow> False | Inr b \<Rightarrow> b")
    case True
    then show ?thesis unfolding eq if_P [OF True] by (intro exI [of _ True]) simp
  next
    case False
    show ?thesis unfolding eq if_not_P [OF False] by (rule Suc)
  qed
qed (simp, blast)

text \<open>\<^verbatim>\<open>ping\<close> over a list of \<^verbatim>\<open>host:port\<close> entries answers whether some entry's socket is open, and
  the health check always answers: no exception of a command, a socket or a parser leaves
  it, whatever the outside does.\<close>

theorem ping_and_health_check_total:
  assumes "hps \<noteq> []" and "\<forall>(h, p) \<in> set hps. CHR '':'' \<notin> set h \<and> CHR '','' \<notin> set h"
  shows "ping up (join '','' (map (\<lambda>(h, p). host_port h p) hps)) = Inr (list_ex (\<lambda>(h, p). up h p) hps) \<and>
    (\<exists>b. fst (health_check env host rb rc w) = Inr b)"
proof
  have "CHR '','' \<notin> set (str_int p)" for p using str_int_chars digit_facts by fastforce
  then have "\<forall>x \<in> set (map (\<lambda>(h, p). host_port h p) hps). CHR '','' \<notin> set x"
    using assms(2) by (auto simp: host_port_def)
  then have "split_char (CHR '','') (join '','' (map (\<lambda>(h, p). host_port h p) hps)) = map (\<lambda>(h, p). host_port h p) hps"
    using assms(1) by (intro split_char_join) auto
  then show "ping up (join '','' (map (\<lambda>(h, p). host_port h p) hps)) = Inr (list_ex (\<lambda>(h, p). up h p) hps)"
    using ping_nodes_entries [of hps up] assms(2) by (auto simp: ping_def)
  show "\<exists>b. fst (health_check env host rb rc w) = Inr b"
    unfolding health_check_def by (rule health_check_total)
qed

theorem ping_and_health_check_total_witness:
  "ping (\<lambda>h p. h = ''b'') ''a:19093,b:19093'' = Inr True"
proof -
  have e: "join '','' (map (\<lambda>(h, p). host_port h p) [(''a'', 19093), (''b'', 19093)]) = ''a:19093,b:19093''" by code_simp
  show ?thesis
    using ping_and_health_check_total [of "[(''a'', 19093), (''b'', 19093)]" "\<lambda>h p. h = ''b''"] unfolding e by simp
qed

end
