(* ===== verification/Auth_Manager.thy ===== *)
theory Auth_Manager
  imports Workload
begin

text \<open>
  \<^verbatim>\<open>managers/auth.py\<close>: users and access rules (ACLs) of the Kafka cluster, managed through the
  \<^verbatim>\<open>kafka-configs\<close> and \<^verbatim>\<open>kafka-acls\<close> tools. A set of ACLs is a list in the order Python would
  enumerate it; no result depends on that order.
\<close>

section \<open>Access rules\<close>

record Acl =
  acl_resource_name :: string
  acl_resource_type :: string
  acl_operation :: string
  acl_username :: string

definition mk_acl :: "string \<Rightarrow> string \<Rightarrow> string \<Rightarrow> string \<Rightarrow> Acl" where
  "mk_acl rtype name user op =
     \<lparr>acl_resource_name = name, acl_resource_type = rtype, acl_operation = op, acl_username = user\<rparr>"

definition generate_producer_acls :: "string \<Rightarrow> string \<Rightarrow> Acl list" where
  "generate_producer_acls topic username =
     map (mk_acl ''TOPIC'' topic username) [''CREATE'', ''WRITE'', ''DESCRIBE'']"

definition generate_consumer_acls :: "string \<Rightarrow> string \<Rightarrow> string \<Rightarrow> Acl list" where
  "generate_consumer_acls topic username grp =
     (let g = (if grp = [] then username @ ''-'' else grp)
      in map (mk_acl ''TOPIC'' topic username) [''READ'', ''DESCRIBE''] @ [mk_acl ''GROUP'' g username ''READ''])"


section \<open>Parsing the tools' output\<close>

text \<open>\<^verbatim>\<open>re.search(pre + "([^,]+),", line)\<close>: the first occurrence of the prefix followed by a non-empty
  run of other characters and a comma.\<close>

fun search_field :: "string \<Rightarrow> string \<Rightarrow> string option" where
  "search_field pre [] = None"
| "search_field pre (c # s) =
     (let rest = drop (length pre) (c # s); v = takeWhile (\<lambda>x. x \<noteq> CHR '','') rest
      in if startswith (c # s) pre \<and> v \<noteq> [] \<and> length v < length rest then Some v
         else search_field pre s)"

type_synonym acl_scan = "string option \<times> string option \<times> string option \<times> Acl list"

text \<open>One line: fields found earlier stay until they are found again.\<close>

definition keep_last :: "string option \<Rightarrow> string option \<Rightarrow> string option" where
  "keep_last old new = (case new of None \<Rightarrow> old | Some v \<Rightarrow> Some v)"

definition parse_acl_line :: "acl_scan \<Rightarrow> string \<Rightarrow> acl_scan" where
  "parse_acl_line st line =
     (case st of (rtype, name, user, acls) \<Rightarrow>
        let rtype = keep_last rtype (search_field ''resourceType='' line);
            name = keep_last name (search_field ''name='' line);
            user = keep_last user (search_field ''principal=User:'' line)
        in case search_field ''operation='' line of
             None \<Rightarrow> (rtype, name, user, acls)
           | Some op \<Rightarrow>
               (case (rtype, name, user) of
                  (Some t, Some n, Some u) \<Rightarrow> (rtype, name, user, List.insert (mk_acl t n u op) acls)
                | _ \<Rightarrow> (rtype, name, user, acls)))"

definition parse_acls :: "string \<Rightarrow> Acl list" where
  "parse_acls raw = snd (snd (snd (foldl parse_acl_line (None, None, None, []) (splitlines raw))))"

text \<open>\<^verbatim>\<open>re.findall(r"user-principal '([^']+)'", raw)\<close>\<close>

definition SQ :: char where "SQ = CHR 0x27"

function parse_describe_users :: "string \<Rightarrow> string list" where
  "parse_describe_users s =
     (let pre = ''user-principal '' @ [SQ]; rest = drop (length pre) s; v = takeWhile (\<lambda>c. c \<noteq> SQ) rest
      in if s = [] then []
         else if startswith s pre \<and> v \<noteq> [] \<and> length v < length rest
         then v # parse_describe_users (drop (Suc (length v)) rest)
         else parse_describe_users (tl s))"
  by pat_completeness auto
termination
proof (relation "measure length", goal_cases)
  case (2 s x xa xb)
  then show ?case by (cases s) auto
next
  case (3 s x xa xb)
  then show ?case by (cases s) auto
qed simp

declare parse_describe_users.simps [simp del]


section \<open>Commands\<close>

text \<open>The manager is created with the log settings as the environment of its commands.\<close>

definition connection_args :: "world \<Rightarrow> exn + string list" where
  "connection_args w =
     bindE (bootstrap_server_internal w) (\<lambda>uris.
       Inr [''--bootstrap-server='' @ uris, ''--command-config='' @ client_properties BROKER])"

definition get_acls_from_cluster :: "env \<Rightarrow> string \<Rightarrow> string hook" where
  "get_acls_from_cluster env log4j =
     bindM (readM connection_args) (\<lambda>r. bindM (liftE r) (\<lambda>conn.
       run_bin_command env ''acls'' (conn @ [''--list'']) [log4j]))"

definition current_acls :: "env \<Rightarrow> string \<Rightarrow> Acl list hook" where
  "current_acls env log4j = bindM (get_acls_from_cluster env log4j) (\<lambda>raw. ret (parse_acls raw))"

definition add_user :: "env \<Rightarrow> string \<Rightarrow> string \<Rightarrow> string \<Rightarrow> unit hook" where
  "add_user env log4j username password =
     bindM (readM connection_args) (\<lambda>r. bindM (liftE r) (\<lambda>conn.
       thenM (run_bin_command env ''configs''
                ([''--alter'', ''--entity-type=users'', ''--entity-name='' @ username,
                  ''--add-config=SCRAM-SHA-512=[password='' @ password @ '']''] @ conn) [log4j])
         skip))"

definition is_command_error :: "exn \<Rightarrow> bool" where
  "is_command_error e = (case e of CommandError _ \<Rightarrow> True | _ \<Rightarrow> False)"

definition delete_user :: "env \<Rightarrow> string \<Rightarrow> string \<Rightarrow> unit hook" where
  "delete_user env log4j username =
     bindM (readM connection_args) (\<lambda>r. bindM (liftE r) (\<lambda>conn.
       tryM (thenM (run_bin_command env ''configs''
                (conn @ [''--alter'', ''--entity-type=users'', ''--entity-name='' @ username,
                  ''--delete-config=SCRAM-SHA-512'']) [log4j]) skip)
         is_command_error
         (\<lambda>e. case e of
            CommandError out \<Rightarrow>
              if contains ''delete a user credential that does not exist'' out then skip else raise e
          | _ \<Rightarrow> raise e)))"

text \<open>The resource arguments, shared by adding and removing.\<close>

definition resource_pattern :: "string \<Rightarrow> string \<times> string" where
  "resource_pattern name =
     (if length name > 3 \<and> endswith name ''*'' then (butlast name, ''PREFIXED'') else (name, ''LITERAL''))"

definition resource_args :: "Acl \<Rightarrow> string list" where
  "resource_args acl =
     (if acl_resource_type acl = ''TOPIC'' then
        (case resource_pattern (acl_resource_name acl) of
           (name, pattern) \<Rightarrow> [''--topic='' @ name, ''--resource-pattern-type='' @ pattern])
      else [])
     @ (if acl_resource_type acl = ''GROUP''
        then [''--group='' @ acl_resource_name acl, ''--resource-pattern-type=PREFIXED''] else [])"

definition add_acl_args :: "string list \<Rightarrow> Acl \<Rightarrow> string list" where
  "add_acl_args conn acl =
     conn @ [''--add'', ''--allow-principal=User:'' @ acl_username acl, ''--operation='' @ acl_operation acl]
     @ resource_args acl"

definition remove_acl_args :: "string list \<Rightarrow> Acl \<Rightarrow> string list" where
  "remove_acl_args conn acl =
     conn @ [''--remove'', ''--allow-principal=User:'' @ acl_username acl, ''--operation='' @ acl_operation acl, ''--force'']
     @ resource_args acl"

definition add_acl :: "env \<Rightarrow> string \<Rightarrow> Acl \<Rightarrow> unit hook" where
  "add_acl env log4j acl =
     bindM (readM connection_args) (\<lambda>r. bindM (liftE r) (\<lambda>conn.
       thenM (run_bin_command env ''acls'' (add_acl_args conn acl) [log4j]) skip))"

definition remove_acl :: "env \<Rightarrow> string \<Rightarrow> Acl \<Rightarrow> unit hook" where
  "remove_acl env log4j acl =
     bindM (readM connection_args) (\<lambda>r. bindM (liftE r) (\<lambda>conn.
       thenM (run_bin_command env ''acls'' (remove_acl_args conn acl) [log4j]) skip))"

definition remove_all_user_acls :: "env \<Rightarrow> string \<Rightarrow> string \<Rightarrow> unit hook" where
  "remove_all_user_acls env log4j username =
     bindM (current_acls env log4j) (\<lambda>acls.
       forM (filter (\<lambda>a. acl_username a = username) acls) (remove_acl env log4j))"

definition computed_user_acls :: "string \<Rightarrow> string \<Rightarrow> string \<Rightarrow> string \<Rightarrow> permission list \<Rightarrow> Acl list" where
  "computed_user_acls username topic roles grp perms =
     remdups
       ((if contains ''producer'' roles then generate_producer_acls topic username else [])
        @ (if contains ''consumer'' roles then generate_consumer_acls topic username grp else [])
        @ concat (map (\<lambda>p. map (mk_acl (resource_type p) (resource_name p) username) (privileges p)) perms))"

definition update_user_acls :: "env \<Rightarrow> string \<Rightarrow> string \<Rightarrow> string \<Rightarrow> string \<Rightarrow> string \<Rightarrow> permission list \<Rightarrow> unit hook" where
  "update_user_acls env log4j username topic roles grp perms =
     (let computed = computed_user_acls username topic roles grp perms
      in bindM (current_acls env log4j) (\<lambda>acls.
           let current = filter (\<lambda>a. acl_username a = username) acls
           in thenM (forM (filter (\<lambda>a. a \<notin> set current) computed) (add_acl env log4j))
                    (forM (filter (\<lambda>a. a \<notin> set computed) current) (remove_acl env log4j))))"

definition get_users :: "env \<Rightarrow> string list hook" where
  "get_users env =
     bindM (readM connection_args) (\<lambda>r. bindM (liftE r) (\<lambda>conn.
       bindM (run_bin_command env ''configs'' (conn @ [''--describe'', ''--entity-type=users'']) []) (\<lambda>out.
         ret (parse_describe_users out))))"

section \<open>Properties\<close>

subsection \<open>Parsing what the tool prints\<close>

text \<open>
  The listing of \<^verbatim>\<open>kafka-acls --list\<close>: per resource a line that names it, a line per rule, and
  an empty line.
\<close>

definition resource_line :: "string \<Rightarrow> string \<Rightarrow> string \<Rightarrow> string" where
  "resource_line rtype name pattern =
     ''Current ACLs for resource `ResourcePattern(resourceType='' @ rtype @ '', name='' @ name
     @ '', patternType='' @ pattern @ '')`: ''"

definition rule_line :: "string \<times> string \<Rightarrow> string" where
  "rule_line r = [CHR 0x09] @ ''(principal=User:'' @ fst r @ '', host=*, operation='' @ snd r @ '', permissionType=ALLOW)''"

type_synonym listed = "(string \<times> string \<times> string) \<times> (string \<times> string) list"

definition group_lines :: "listed \<Rightarrow> string list" where
  "group_lines g =
     (case g of ((t, n, p), rules) \<Rightarrow> resource_line t n p # map rule_line rules @ [''''])"

definition listing :: "listed list \<Rightarrow> string" where
  "listing gs = join [CHR 0x0A] (concat (map group_lines gs))"

definition field_ok :: "string \<Rightarrow> bool" where
  "field_ok s \<longleftrightarrow> s \<noteq> [] \<and> CHR '','' \<notin> set s \<and> CHR ''='' \<notin> set s \<and> CHR 0x0A \<notin> set s"

lemma takeWhile_until: "c \<notin> set a \<Longrightarrow> takeWhile (\<lambda>x. x \<noteq> c) (a @ c # b) = a"
  by (induction a) auto

lemma startswith_eq_first:
  assumes "CHR ''='' \<notin> set m" "CHR ''='' \<notin> set p" "startswith (drop i (m @ CHR ''='' # r)) (p @ CHR ''='' # q)"
    and "i \<le> length m"
  shows "length m = i + length p \<and> drop i m = p"
proof -
  have "startswith (drop i m @ CHR ''='' # r) (p @ CHR ''='' # q)" using assms(3,4) by simp
  then obtain t where "drop i m @ CHR ''='' # r = p @ CHR ''='' # (q @ t)" by (auto simp: startswith_iff)
  moreover have "CHR ''='' \<notin> set (drop i m)" using assms(1) by (meson in_set_dropD)
  ultimately have "drop i m = p"
    using assms(2) takeWhile_until [of "CHR ''=''" "drop i m" r] takeWhile_until [of "CHR ''=''" p "q @ t"] by simp
  then show ?thesis using assms(4) by auto
qed

lemma search_skip:
  "(\<forall>i < length a. \<not> startswith (drop i (a @ b)) pre) \<Longrightarrow> search_field pre (a @ b) = search_field pre b"
proof (induction a)
  case (Cons c a)
  have "\<not> startswith ((c # a) @ b) pre" using Cons.prems by (metis drop0 length_greater_0_conv list.distinct(1))
  moreover have "\<forall>i < length a. \<not> startswith (drop i (a @ b)) pre"
    using Cons.prems by (metis Suc_less_eq append_Cons drop_Suc_Cons length_Cons)
  ultimately show ?case using Cons.IH by simp
qed simp

lemma search_skip_eq:
  assumes "CHR ''='' \<notin> set m" "CHR ''='' \<notin> set p" "p \<noteq> []" "drop (length m - length p) m \<noteq> p"
  shows "search_field (p @ CHR ''='' # q) (m @ CHR ''='' # r) = search_field (p @ CHR ''='' # q) r"
proof -
  have "\<not> startswith (drop i ((m @ [CHR ''='']) @ r)) (p @ CHR ''='' # q)" if "i < length (m @ [CHR ''=''])" for i
  proof
    assume s: "startswith (drop i ((m @ [CHR ''='']) @ r)) (p @ CHR ''='' # q)"
    then have "length m = i + length p \<and> drop i m = p"
      using startswith_eq_first [OF assms(1,2), of i r q] that by simp
    with assms(4) show False by auto
  qed
  then show ?thesis using search_skip [of "m @ [CHR ''='']" r] by simp
qed

lemma search_none: "CHR ''='' \<notin> set s \<Longrightarrow> CHR ''='' \<in> set pre \<Longrightarrow> search_field pre s = None"
proof (induction s)
  case (Cons c s)
  have "\<not> startswith (c # s) pre"
  proof
    assume "startswith (c # s) pre"
    then obtain t where "c # s = pre @ t" by (auto simp: startswith_iff)
    then have "CHR ''='' \<in> set (c # s)" using Cons.prems(2) by (metis UnCI set_append)
    with Cons.prems(1) show False by simp
  qed
  with Cons show ?case by simp
qed simp

lemma search_first:
  assumes "pre \<noteq> []" "v \<noteq> []" "CHR '','' \<notin> set v"
  shows "search_field pre (pre @ v @ CHR '','' # r) = Some v"
proof -
  obtain c s where pre: "pre = c # s" using assms(1) by (cases pre) auto
  have "drop (length pre) (pre @ v @ CHR '','' # r) = v @ CHR '','' # r" by simp
  moreover have "startswith (pre @ v @ CHR '','' # r) pre" by simp
  ultimately show ?thesis
    using assms(2,3) takeWhile_until [of "CHR '',''" v r] unfolding pre append_Cons search_field.simps Let_def by simp
qed

lemma search_hit:
  assumes "CHR ''='' \<notin> set m" "CHR ''='' \<notin> set p" "v \<noteq> []" "CHR '','' \<notin> set v"
  shows "search_field (p @ CHR ''='' # q) (m @ p @ CHR ''='' # q @ v @ CHR '','' # r) = Some v"
proof -
  let ?pre = "p @ CHR ''='' # q" and ?b = "p @ CHR ''='' # q @ v @ CHR '','' # r"
  have "\<not> startswith (drop i (m @ ?b)) ?pre" if "i < length m" for i
  proof
    assume "startswith (drop i (m @ ?b)) ?pre"
    then have "length (m @ p) = i + length p"
      using startswith_eq_first [of "m @ p" p i "q @ v @ CHR '','' # r" q] assms(1,2) that by simp
    with that show False by simp
  qed
  then have "search_field ?pre (m @ ?b) = search_field ?pre ?b" by (rule search_skip [rule_format]) simp
  then show ?thesis using search_first [of ?pre v r] assms(3,4) by simp
qed

lemma field_prefixes:
  "''resourceType='' = ''resourceType'' @ CHR ''='' # []" "''name='' = ''name'' @ CHR ''='' # []"
  "''principal=User:'' = ''principal'' @ CHR ''='' # ''User:''" "''operation='' = ''operation'' @ CHR ''='' # []"
  by simp_all

text \<open>The two kinds of lines, cut at their equality signs.\<close>

lemma resource_line_cut:
  "resource_line t n p =
     ''Current ACLs for resource `ResourcePattern(resourceType'' @ CHR ''='' # ((t @ '', name'') @ CHR ''='' #
       ((n @ '', patternType'') @ CHR ''='' # (p @ '')`: '')))"
  by (simp add: resource_line_def)

lemma rule_line_cut:
  "rule_line (u, op) =
     (CHR 0x09 # ''(principal'') @ CHR ''='' # ((''User:'' @ u @ '', host'') @ CHR ''='' #
       (''*, operation'' @ CHR ''='' # ((op @ '', permissionType'') @ CHR ''='' # ''ALLOW)'')))"
  by (simp add: rule_line_def)

lemma drop_suffix: "length p \<le> length b \<Longrightarrow> drop (length (a @ b) - length p) (a @ b) = drop (length b - length p) b"
  by simp

lemma drop_ne_last: "q \<noteq> [] \<Longrightarrow> last b \<noteq> last q \<Longrightarrow> drop k b \<noteq> q"
  by (metis drop_eq_Nil2 last_drop leI)

lemma resource_line_fields:
  assumes "field_ok t" "field_ok n" "CHR ''='' \<notin> set p"
  shows "search_field ''resourceType='' (resource_line t n p) = Some t"
    and "search_field ''name='' (resource_line t n p) = Some n"
    and "search_field ''principal=User:'' (resource_line t n p) = None"
    and "search_field ''operation='' (resource_line t n p) = None"
proof -
  define C where "C = p @ '')`: ''"
  define B where "B = (n @ '', patternType'') @ CHR ''='' # C"
  define A where "A = (t @ '', name'') @ CHR ''='' # B"
  define H where "H = ''Current ACLs for resource `ResourcePattern(resourceType''"
  have line: "resource_line t n p = H @ CHR ''='' # A"
    by (simp add: resource_line_def A_def B_def C_def H_def)
  have t: "CHR ''='' \<notin> set t" "t \<noteq> []" "CHR '','' \<notin> set t" and n: "CHR ''='' \<notin> set n" "n \<noteq> []" "CHR '','' \<notin> set n"
    using assms by (auto simp: field_ok_def)
  have r: "search_field (''resourceType'' @ CHR ''='' # [])
      (''Current ACLs for resource `ResourcePattern('' @ ''resourceType'' @ CHR ''='' # [] @ t @ CHR '','' # ('' name='' @ B)) = Some t"
    by (rule search_hit) (use t in simp_all)
  then show "search_field ''resourceType='' (resource_line t n p) = Some t"
    by (simp add: resource_line_def B_def C_def del: search_field.simps)
  have h: "search_field (q @ CHR ''='' # q') (H @ CHR ''='' # A) = search_field (q @ CHR ''='' # q') A"
    if "q \<in> {''name'', ''principal'', ''operation''}" for q q'
    by (rule search_skip_eq) (use that in \<open>auto simp: H_def\<close>)
  have a: "search_field (q @ CHR ''='' # q') A = search_field (q @ CHR ''='' # q') B"
    if "q \<in> {''principal'', ''operation''}" for q q'
    unfolding A_def by (rule search_skip_eq) (use that t in \<open>auto intro!: drop_ne_last\<close>)
  have b: "search_field (q @ CHR ''='' # q') B = search_field (q @ CHR ''='' # q') C"
    if "q \<in> {''principal'', ''operation''}" for q q'
    unfolding B_def by (rule search_skip_eq) (use that n in \<open>auto intro!: drop_ne_last\<close>)
  have c: "search_field (q @ CHR ''='' # q') C = None" for q q'
    unfolding C_def by (rule search_none) (use assms(3) in simp_all)
  have "search_field (''name'' @ CHR ''='' # []) ((t @ '', '') @ ''name'' @ CHR ''='' # [] @ n @ CHR '','' # ('' patternType='' @ C)) = Some n"
    by (rule search_hit) (use t n in simp_all)
  then have "search_field (''name'' @ CHR ''='' # []) A = Some n"
    by (simp add: A_def B_def del: search_field.simps)
  then show "search_field ''name='' (resource_line t n p) = Some n"
    unfolding line field_prefixes(2) by (subst h) simp_all
  show "search_field ''principal=User:'' (resource_line t n p) = None"
    unfolding line field_prefixes(3) by (subst h, simp, subst a, simp, subst b, simp) (rule c)
  show "search_field ''operation='' (resource_line t n p) = None"
    unfolding line field_prefixes(4) by (subst h, simp, subst a, simp, subst b, simp) (rule c)
qed

lemma rule_line_fields:
  assumes "field_ok u" "field_ok op"
  shows "search_field ''resourceType='' (rule_line (u, op)) = None"
    and "search_field ''name='' (rule_line (u, op)) = None"
    and "search_field ''principal=User:'' (rule_line (u, op)) = Some u"
    and "search_field ''operation='' (rule_line (u, op)) = Some op"
proof -
  define C where "C = (op @ '', permissionType'') @ CHR ''='' # ''ALLOW)''"
  define B where "B = ''*, operation'' @ CHR ''='' # C"
  define A where "A = (''User:'' @ u @ '', host'') @ CHR ''='' # B"
  define H where "H = CHR 0x09 # ''(principal''"
  have line: "rule_line (u, op) = H @ CHR ''='' # A"
    by (simp add: rule_line_def A_def B_def C_def H_def)
  have u: "CHR ''='' \<notin> set u" "u \<noteq> []" "CHR '','' \<notin> set u" and o: "CHR ''='' \<notin> set op" "op \<noteq> []" "CHR '','' \<notin> set op"
    using assms by (auto simp: field_ok_def)
  have "search_field (''principal'' @ CHR ''='' # ''User:'')
      ((CHR 0x09 # ''('') @ ''principal'' @ CHR ''='' # ''User:'' @ u @ CHR '','' # ('' host='' @ B)) = Some u"
    by (rule search_hit) (use u in simp_all)
  then show "search_field ''principal=User:'' (rule_line (u, op)) = Some u"
    by (simp add: rule_line_def B_def C_def del: search_field.simps)
  have h: "search_field (q @ CHR ''='' # q') (H @ CHR ''='' # A) = search_field (q @ CHR ''='' # q') A"
    if "q \<in> {''resourceType'', ''name'', ''operation''}" for q q'
    by (rule search_skip_eq) (use that in \<open>auto simp: H_def\<close>)
  have a: "search_field (q @ CHR ''='' # q') A = search_field (q @ CHR ''='' # q') B"
    if "q \<in> {''resourceType'', ''name'', ''operation''}" for q q'
  proof -
    have "drop k (''User:'' @ u @ '', host'') \<noteq> q" for k
      by (rule drop_ne_last) (use that in auto)
    then show ?thesis unfolding A_def by (intro search_skip_eq) (use that u in auto)
  qed
  have b: "search_field (q @ CHR ''='' # q') B = search_field (q @ CHR ''='' # q') C"
    if "q \<in> {''resourceType'', ''name''}" for q q'
    unfolding B_def by (rule search_skip_eq) (use that in auto)
  have c: "search_field (q @ CHR ''='' # q') C = search_field (q @ CHR ''='' # q') ''ALLOW)''"
    if "q \<in> {''resourceType'', ''name''}" for q q'
    unfolding C_def by (rule search_skip_eq) (use that o in auto)
  have d: "search_field (q @ CHR ''='' # q') ''ALLOW)'' = None" for q q'
    by (rule search_none) simp_all
  have "search_field (''operation'' @ CHR ''='' # []) (''*, '' @ ''operation'' @ CHR ''='' # [] @ op @ CHR '','' # '' permissionType=ALLOW)'') = Some op"
    by (rule search_hit) (use o in simp_all)
  then have "search_field (''operation'' @ CHR ''='' # []) B = Some op"
    by (simp add: B_def C_def del: search_field.simps)
  then show "search_field ''operation='' (rule_line (u, op)) = Some op"
    unfolding line field_prefixes(4) by (subst h, simp, subst a) simp_all
  show "search_field ''resourceType='' (rule_line (u, op)) = None"
    unfolding line field_prefixes(1) by (subst h, simp, subst a, simp, subst b, simp, subst c, simp) (rule d)
  show "search_field ''name='' (rule_line (u, op)) = None"
    unfolding line field_prefixes(2) by (subst h, simp, subst a, simp, subst b, simp, subst c, simp) (rule d)
qed

definition listed_ok :: "listed \<Rightarrow> bool" where
  "listed_ok g \<longleftrightarrow>
     (case g of ((t, n, p), rules) \<Rightarrow>
        field_ok t \<and> field_ok n \<and> field_ok p \<and> list_all (\<lambda>(u, op). field_ok u \<and> field_ok op) rules)"

definition listed_acls :: "listed \<Rightarrow> Acl list" where
  "listed_acls g = (case g of ((t, n, p), rules) \<Rightarrow> map (\<lambda>(u, op). mk_acl t n u op) rules)"

lemma parse_blank_line: "parse_acl_line st [] = st"
  by (simp add: parse_acl_line_def keep_last_def split: prod.splits)

lemma parse_rules:
  assumes "list_all (\<lambda>(u, op). field_ok u \<and> field_ok op) rules"
  shows "\<exists>user acls'. foldl parse_acl_line (Some t, Some n, u0, acls) (map rule_line rules) = (Some t, Some n, user, acls') \<and>
    set acls' = set acls \<union> set (map (\<lambda>(u, op). mk_acl t n u op) rules)"
  using assms
proof (induction rules arbitrary: u0 acls)
  case (Cons r rules)
  obtain u op where r: "r = (u, op)" by fastforce
  have "parse_acl_line (Some t, Some n, u0, acls) (rule_line r) = (Some t, Some n, Some u, List.insert (mk_acl t n u op) acls)"
    using rule_line_fields [of u op] Cons.prems r by (simp add: parse_acl_line_def keep_last_def)
  with Cons.IH [of "Some u" "List.insert (mk_acl t n u op) acls"] Cons.prems r show ?case by auto
qed auto

lemma parse_group:
  assumes "listed_ok g"
  shows "\<exists>rt nm us acls'. foldl parse_acl_line (r0, n0, u0, acls) (group_lines g) = (rt, nm, us, acls') \<and>
    set acls' = set acls \<union> set (listed_acls g)"
proof -
  obtain t n p rules where g: "g = ((t, n, p), rules)" by (metis prod.exhaust)
  have ok: "field_ok t" "field_ok n" "CHR ''='' \<notin> set p" "list_all (\<lambda>(u, op). field_ok u \<and> field_ok op) rules"
    using assms g by (auto simp: listed_ok_def field_ok_def)
  have "parse_acl_line (r0, n0, u0, acls) (resource_line t n p) = (Some t, Some n, u0, acls)"
    using resource_line_fields [OF ok(1-3)] by (simp add: parse_acl_line_def keep_last_def)
  then show ?thesis
    using parse_rules [OF ok(4), of t n u0 acls] by (auto simp: g group_lines_def listed_acls_def parse_blank_line)
qed

lemma parse_groups:
  assumes "list_all listed_ok gs"
  shows "set (snd (snd (snd (foldl parse_acl_line (r0, n0, u0, acls) (concat (map group_lines gs)))))) =
    set acls \<union> set (concat (map listed_acls gs))"
  using assms
proof (induction gs arbitrary: r0 n0 u0 acls)
  case (Cons g gs)
  then obtain rt nm us acls' where
    "foldl parse_acl_line (r0, n0, u0, acls) (group_lines g) = (rt, nm, us, acls')"
    "set acls' = set acls \<union> set (listed_acls g)"
    using parse_group [of g r0 n0 u0 acls] by auto
  with Cons.IH [of rt nm us acls'] Cons.prems show ?case by auto
qed simp

lemma group_lines_no_newline:
  assumes "listed_ok g" shows "\<forall>l \<in> set (group_lines g). CHR 0x0A \<notin> set l"
proof -
  obtain t n p rules where g: "g = ((t, n, p), rules)" by (metis prod.exhaust)
  then show ?thesis using assms
    by (auto simp: group_lines_def listed_ok_def field_ok_def list_all_iff resource_line_def rule_line_def)
qed

lemma parse_acls_of_listing:
  assumes "list_all listed_ok gs"
  shows "set (parse_acls (listing gs)) = set (concat (map listed_acls gs))"
proof (cases "gs = []")
  case True
  then show ?thesis by (simp add: listing_def parse_acls_def splitlines_def Let_def)
next
  case False
  let ?ls = "concat (map group_lines gs)"
  have ne: "?ls \<noteq> []" using False by (cases gs) (auto simp: group_lines_def split: prod.splits)
  have last: "last ?ls = []"
  proof -
    obtain gs' g where gs: "gs = gs' @ [g]" using False by (metis append_butlast_last_id)
    then show ?thesis by (auto simp: group_lines_def split: prod.splits)
  qed
  have "\<forall>l \<in> set ?ls. CHR 0x0A \<notin> set l"
    using assms group_lines_no_newline by (auto simp: list_all_iff)
  then have "split_char (CHR 0x0A) (listing gs) = ?ls"
    unfolding listing_def using ne by (intro split_char_join) auto
  then have sl: "splitlines (listing gs) @ [[]] = ?ls"
    unfolding splitlines_def Let_def using last append_butlast_last_id [OF ne] by simp
  have "foldl parse_acl_line st ?ls = foldl parse_acl_line st (splitlines (listing gs))" for st
    unfolding sl [symmetric] by (simp add: parse_blank_line)
  then show ?thesis using parse_groups [OF assms, of None None None "[]"] by (simp add: parse_acls_def)
qed

text \<open>C24: reading back the listing that \<^verbatim>\<open>kafka-acls --list\<close> prints gives exactly the rules in it, for
  names, users and operations without commas, equality signs and newlines.\<close>

theorem parse_acls_listing:
  assumes "list_all listed_ok gs"
  shows "set (parse_acls (listing gs)) = {mk_acl t n u op | t n p rules u op. ((t, n, p), rules) \<in> set gs \<and> (u, op) \<in> set rules}"
  unfolding parse_acls_of_listing [OF assms] by (fastforce simp: listed_acls_def)

theorem parse_acls_listing_witness:
  "set (parse_acls (listing [((''TOPIC'', ''news'', ''LITERAL''), [(''relation-3'', ''READ''), (''relation-3'', ''DESCRIBE'')])])) =
     {mk_acl ''TOPIC'' ''news'' ''relation-3'' ''READ'', mk_acl ''TOPIC'' ''news'' ''relation-3'' ''DESCRIBE''}"
  using parse_acls_listing [of "[((''TOPIC'', ''news'', ''LITERAL''), [(''relation-3'', ''READ''), (''relation-3'', ''DESCRIBE'')])]"]
  by (auto simp: listed_ok_def field_ok_def)


subsection \<open>Bringing a user's rules up to date\<close>

text \<open>Running a command changes only the files and the trace, so the connection arguments stay.\<close>

definition bin_command :: "string \<Rightarrow> string list \<Rightarrow> string list" where
  "bin_command kw args = words (binaries_path BROKER @ ''/bin/kafka-'' @ kw @ ''.sh '' @ join '' '' args)"

lemma connection_args_frame [simp]: "connection_args (w\<lparr>files := f, actions := a\<rparr>) = connection_args w"
proof -
  have "broker_get (w\<lparr>files := f, actions := a\<rparr>) = broker_get w" by (rule ext) (simp add: broker_get_def)
  then show ?thesis by (simp add: connection_args_def bootstrap_server_internal_def brokers_def)
qed

definition tools_succeed :: "env \<Rightarrow> (string list \<Rightarrow> string) \<Rightarrow> bool" where
  "tools_succeed env out \<longleftrightarrow> (\<forall>w d c e. fst (env_exec env w d c e) = Inr (out c))"

text \<open>A command that returns adds one entry to the trace.\<close>

definition ran :: "(string \<times> string) list \<Rightarrow> string list \<Rightarrow> action" where
  "ran opts args = Exec None (bin_command ''acls'' args) opts"

lemma run_tool:
  assumes "tools_succeed env out" "parse_opts opts = Inr po"
  obtains fs where "run_bin_command env kw args opts w =
    (Inr (out (bin_command kw args)), w\<lparr>files := fs, actions := actions w @ [Exec None (bin_command kw args) po]\<rparr>)"
proof -
  obtain r fs where e: "env_exec env w None (bin_command kw args) po = (r, fs)" by fastforce
  then have "r = Inr (out (bin_command kw args))" using assms(1) by (metis fst_conv tools_succeed_def)
  with e show thesis
    using that [of fs] assms(2) unfolding run_bin_command_def bin_command_def [symmetric]
    by (simp add: bindM_apply exec_def exec_in_def)
qed

lemma run_acls:
  assumes "tools_succeed env out" "parse_opts [log4j] = Inr opts"
  obtains fs where "run_bin_command env ''acls'' args [log4j] w =
    (Inr (out (bin_command ''acls'' args)), w\<lparr>files := fs, actions := actions w @ [ran opts args]\<rparr>)"
  using run_tool [OF assms] unfolding ran_def .

text \<open>A loop of commands over rules.\<close>

lemma forM_acls:
  assumes t: "tools_succeed env out" "parse_opts [log4j] = Inr opts" and c: "connection_args w = Inr conn"
    and f: "\<And>a. f a = bindM (readM connection_args) (\<lambda>r. bindM (liftE r) (\<lambda>conn.
       thenM (run_bin_command env ''acls'' (g conn a) [log4j]) skip))"
  shows "\<exists>fs. forM acls f w = (Inr (), w\<lparr>files := fs, actions := actions w @ map (\<lambda>a. ran opts (g conn a)) acls\<rparr>)"
  using c
proof (induction acls arbitrary: w)
  case Nil
  show ?case by (rule exI [of _ "files w"]) simp
next
  case (Cons a acls)
  obtain fs where r: "run_bin_command env ''acls'' (g conn a) [log4j] w =
     (Inr (out (bin_command ''acls'' (g conn a))), w\<lparr>files := fs, actions := actions w @ [ran opts (g conn a)]\<rparr>)"
    by (rule run_acls [OF t])
  have "f a w = (Inr (), w\<lparr>files := fs, actions := actions w @ [ran opts (g conn a)]\<rparr>)"
    unfolding f using Cons.prems r by (simp add: bindM_apply thenM_apply)
  then have "forM (a # acls) f w = forM acls f (w\<lparr>files := fs, actions := actions w @ [ran opts (g conn a)]\<rparr>)"
    by (simp add: thenM_apply)
  with Cons.IH [of "w\<lparr>files := fs, actions := actions w @ [ran opts (g conn a)]\<rparr>"] Cons.prems
  show ?case by simp
qed

lemmas forM_add_acl = forM_acls [where f = "add_acl env log4j" and g = add_acl_args and env = env and log4j = log4j for env log4j,
    OF _ _ _ add_acl_def]

lemmas forM_remove_acl = forM_acls [where f = "remove_acl env log4j" and g = remove_acl_args and env = env and log4j = log4j for env log4j,
    OF _ _ _ remove_acl_def]

definition user_acls :: "string \<Rightarrow> string \<Rightarrow> Acl list" where
  "user_acls username raw = filter (\<lambda>a. acl_username a = username) (parse_acls raw)"

lemma computed_username: "a \<in> set (computed_user_acls u topic roles grp perms) \<Longrightarrow> acl_username a = u"
  by (auto simp: computed_user_acls_def generate_producer_acls_def generate_consumer_acls_def mk_acl_def Let_def split: if_splits)

text \<open>The commands that updating the rules of a user runs.\<close>

definition acls_to_add :: "Acl list \<Rightarrow> Acl list \<Rightarrow> Acl list" where
  "acls_to_add current computed = filter (\<lambda>a. a \<notin> set current) computed"

definition acls_to_remove :: "Acl list \<Rightarrow> Acl list \<Rightarrow> Acl list" where
  "acls_to_remove current computed = filter (\<lambda>a. a \<notin> set computed) current"

lemma update_user_acls_trace:
  assumes "tools_succeed env out" and "connection_args w = Inr conn" and "parse_opts [log4j] = Inr opts"
    and "current = user_acls u (out (bin_command ''acls'' (conn @ [''--list''])))"
    and "computed = computed_user_acls u topic roles grp perms"
  obtains fs where "update_user_acls env log4j u topic roles grp perms w =
      (Inr (), w\<lparr>files := fs, actions := actions w @ [ran opts (conn @ [''--list''])]
         @ map (\<lambda>a. ran opts (add_acl_args conn a)) (acls_to_add current computed)
         @ map (\<lambda>a. ran opts (remove_acl_args conn a)) (acls_to_remove current computed)\<rparr>)"
proof -
  let ?raw = "out (bin_command ''acls'' (conn @ [''--list'']))"
  let ?adds = "acls_to_add current computed" and ?removes = "acls_to_remove current computed"
  obtain f1 where l: "run_bin_command env ''acls'' (conn @ [''--list'']) [log4j] w =
     (Inr ?raw, w\<lparr>files := f1, actions := actions w @ [ran opts (conn @ [''--list''])]\<rparr>)" (is "_ = (_, ?w1)")
    by (rule run_acls [OF assms(1,3)])
  have cur: "current_acls env log4j w = (Inr (parse_acls ?raw), ?w1)"
    using assms(2) l by (simp add: current_acls_def get_acls_from_cluster_def bindM_apply)
  obtain f2 where a: "forM ?adds (add_acl env log4j) ?w1 =
      (Inr (), ?w1\<lparr>files := f2, actions := actions ?w1 @ map (\<lambda>a. ran opts (add_acl_args conn a)) ?adds\<rparr>)" (is "_ = (_, ?w2)")
    using forM_add_acl [OF assms(1,3), of ?w1 conn ?adds] assms(2) by auto
  obtain f3 where r: "forM ?removes (remove_acl env log4j) ?w2 =
      (Inr (), ?w2\<lparr>files := f3, actions := actions ?w2 @ map (\<lambda>a. ran opts (remove_acl_args conn a)) ?removes\<rparr>)"
    using forM_remove_acl [OF assms(1,3), of ?w2 conn ?removes] assms(2) by auto
  have "update_user_acls env log4j u topic roles grp perms w =
      thenM (forM ?adds (add_acl env log4j)) (forM ?removes (remove_acl env log4j)) ?w1"
    using cur assms(4,5)
    by (simp add: update_user_acls_def user_acls_def acls_to_add_def acls_to_remove_def bindM_apply Let_def)
  then show ?thesis using a r by (intro that [of f3]) (simp add: thenM_apply)
qed

text \<open>C23: when the tool's commands return, updating a user's rules runs the listing, then one
  addition per missing rule and one removal per rule that is no longer wanted. The rules listed
  for the user, with the additions and without the removals, are exactly the computed ones, and
  every command concerns this user only.\<close>

theorem update_user_acls_commands:
  assumes "tools_succeed env out" and "connection_args w = Inr conn" and "parse_opts [log4j] = Inr opts"
  shows "\<exists>adds removes fs.
    update_user_acls env log4j u topic roles grp perms w =
      (Inr (), w\<lparr>files := fs, actions := actions w @ [ran opts (conn @ [''--list''])]
         @ map (\<lambda>a. ran opts (add_acl_args conn a)) adds @ map (\<lambda>a. ran opts (remove_acl_args conn a)) removes\<rparr>) \<and>
    (let current = set (user_acls u (out (bin_command ''acls'' (conn @ [''--list'']))))
     in set adds \<inter> current = {} \<and> set removes \<subseteq> current \<and>
        (current - set removes) \<union> set adds = set (computed_user_acls u topic roles grp perms)) \<and>
    list_all (\<lambda>a. acl_username a = u) (adds @ removes) \<and> distinct adds"
proof -
  let ?comp = "computed_user_acls u topic roles grp perms"
  let ?cur = "user_acls u (out (bin_command ''acls'' (conn @ [''--list''])))"
  obtain fs where run: "update_user_acls env log4j u topic roles grp perms w =
      (Inr (), w\<lparr>files := fs, actions := actions w @ [ran opts (conn @ [''--list''])]
         @ map (\<lambda>a. ran opts (add_acl_args conn a)) (acls_to_add ?cur ?comp)
         @ map (\<lambda>a. ran opts (remove_acl_args conn a)) (acls_to_remove ?cur ?comp)\<rparr>)"
    by (rule update_user_acls_trace [OF assms refl refl])
  have "list_all (\<lambda>a. acl_username a = u) (acls_to_add ?cur ?comp @ acls_to_remove ?cur ?comp)"
    by (auto simp: list_all_iff user_acls_def computed_username acls_to_add_def acls_to_remove_def)
  moreover have "distinct (acls_to_add ?cur ?comp)" by (simp add: acls_to_add_def computed_user_acls_def)
  ultimately show ?thesis using run
    by (intro exI [of _ "acls_to_add ?cur ?comp"] exI [of _ "acls_to_remove ?cur ?comp"] exI [of _ fs])
       (auto simp: Let_def acls_to_add_def acls_to_remove_def)
qed

text \<open>Tools that answer every command with an empty output.\<close>

definition silent_env :: env where
  "silent_env =
     \<lparr>env_exec = \<lambda>w d c e. (Inr [], files w), env_connect = \<lambda>w h p. False, env_k8s = sample_api None, env_password = \<lambda>w. ''pw'',
      env_environ = \<lambda>v. None, env_trusted_ca = \<lambda>u. True,
      env_secret = \<lambda>uri. None, env_secret_id = \<lambda>g i r. None, env_ip = \<lambda>r. ''10.1.0.1'', env_last_restart = \<lambda>out. 0,
      env_modify_time = \<lambda>w p. 0\<rparr>"

lemma silent_env_succeeds [simp]: "tools_succeed silent_env (\<lambda>_. [])"
  by (simp add: tools_succeed_def silent_env_def)

lemma connection_args_blank:
  "connection_args blank_world =
     Inr [''--bootstrap-server=kafka-k8s-0.kafka-k8s-endpoints:19093'', ''--command-config=/etc/kafka/client.properties'']"
  by code_simp

lemma parse_opts_sample: "parse_opts [''KAFKA_LOG4J_OPTS=x''] = Inr [(''KAFKA_LOG4J_OPTS'', ''x'')]"
  by code_simp

theorem update_user_acls_commands_witness:
  "fst (update_user_acls silent_env ''KAFKA_LOG4J_OPTS=x'' ''relation-3'' ''news'' ''producer'' [] [] blank_world) = Inr ()"
  using update_user_acls_commands [OF silent_env_succeeds connection_args_blank parse_opts_sample,
      of "''relation-3''" "''news''" "''producer''" "[]" "[]"] by (metis fst_conv)

text \<open>A producer of a topic prefix never reaches a settled set of rules. The rules for
  \<^verbatim>\<open>t*\<close> are added with a prefixed pattern for \<^verbatim>\<open>t\<close> and listed under the name \<^verbatim>\<open>t\<close>, so every later
  update adds all of them again and asks to remove rules for \<^verbatim>\<open>t\<close> with a literal pattern, which the
  listing does not contain.\<close>

theorem prefixed_acls_never_settle:
  assumes "field_ok t" and "field_ok u" and "3 \<le> length t" and "\<not> endswith t ''*''"
  shows "let current = user_acls u (listing [((''TOPIC'', t, ''PREFIXED''), [(u, ''CREATE''), (u, ''WRITE''), (u, ''DESCRIBE'')])]);
             computed = computed_user_acls u (t @ ''*'') ''producer'' [] []
         in length computed = 3 \<and> set current \<noteq> {} \<and> set current \<inter> set computed = {} \<and>
            list_all (\<lambda>a. resource_args a = [''--topic='' @ t, ''--resource-pattern-type=PREFIXED'']) computed \<and>
            list_all (\<lambda>a. resource_args a = [''--topic='' @ t, ''--resource-pattern-type=LITERAL'']) current"
proof -
  let ?gs = "[((''TOPIC'', t, ''PREFIXED''), [(u, ''CREATE''), (u, ''WRITE''), (u, ''DESCRIBE'')])]"
  let ?cur = "user_acls u (listing ?gs)" and ?comp = "computed_user_acls u (t @ ''*'') ''producer'' [] []"
  have "list_all listed_ok ?gs" using assms by (simp add: listed_ok_def field_ok_def)
  from parse_acls_of_listing [OF this]
  have cur: "set ?cur = mk_acl ''TOPIC'' t u ` {''CREATE'', ''WRITE'', ''DESCRIBE''}"
    by (auto simp: user_acls_def listed_acls_def mk_acl_def)
  have comp: "?comp = map (mk_acl ''TOPIC'' (t @ ''*'') u) [''CREATE'', ''WRITE'', ''DESCRIBE'']"
    by (simp add: computed_user_acls_def generate_producer_acls_def mk_acl_def startswith_def)
  have "resource_args (mk_acl ''TOPIC'' (t @ ''*'') u op) = [''--topic='' @ t, ''--resource-pattern-type=PREFIXED'']" for op
    using assms(3) by (simp add: resource_args_def resource_pattern_def mk_acl_def endswith_def)
  moreover have "resource_args (mk_acl ''TOPIC'' t u op) = [''--topic='' @ t, ''--resource-pattern-type=LITERAL'']" for op
    using assms(4) by (simp add: resource_args_def resource_pattern_def mk_acl_def)
  ultimately show ?thesis unfolding Let_def list_all_iff cur unfolding comp by (auto simp: mk_acl_def)
qed

theorem prefixed_acls_never_settle_witness:
  "set (user_acls ''relation-3'' (listing [((''TOPIC'', ''news'', ''PREFIXED''), [(''relation-3'', ''CREATE''), (''relation-3'', ''WRITE''), (''relation-3'', ''DESCRIBE'')])])) \<inter>
   set (computed_user_acls ''relation-3'' ''news*'' ''producer'' [] []) = {}"
  using prefixed_acls_never_settle [of "''news''" "''relation-3''"] by (simp add: field_ok_def endswith_def Let_def)

end
