(* ===== verification/Config_Manager.thy ===== *)
theory Config_Manager
  imports Auth_Manager
begin

text \<open>
  \<^verbatim>\<open>managers/config.py\<close>: the listeners of a broker, the properties files of Kafka, its clients
  and Cruise Control, and the environment file of the services. A properties file is the list
  of its lines. Values of the state are read when they are used; the source keeps the related
  application's data of one hook in a cached property.
\<close>

section \<open>Listeners\<close>

record Listener =
  l_auth :: auth_map
  l_scope :: listener_scope
  l_host :: string
  l_baseport :: int
  l_extra_count :: int
  l_node_port :: "int option"

definition mk_listener :: "auth_map \<Rightarrow> listener_scope \<Rightarrow> string \<Rightarrow> Listener" where
  "mk_listener a sc host =
     \<lparr>l_auth = a, l_scope = sc, l_host = host, l_baseport = 30000, l_extra_count = -1, l_node_port = None\<rparr>"

definition scope_port :: "ports \<Rightarrow> listener_scope \<Rightarrow> int" where
  "scope_port p sc =
     (case sc of INTERNAL \<Rightarrow> internal_port p | CLIENT \<Rightarrow> client_port p | EXTERNAL \<Rightarrow> external_port p
      | CONTROLLER_LISTENER \<Rightarrow> controller_port p | EXTRA \<Rightarrow> extra_port p)"

definition listener_port_of :: "Listener \<Rightarrow> exn + int" where
  "listener_port_of l =
     bindE (ports_of (l_auth l)) (\<lambda>p.
       Inr (if l_scope l = EXTRA then client_port p + l_baseport l else scope_port p (l_scope l)))"

definition listener_name :: "Listener \<Rightarrow> string" where
  "listener_name l =
     listener_scope_str (l_scope l) @ ''_'' @ protocol_str (fst (l_auth l)) @ ''_''
     @ replace ''-'' ''_'' (mechanism_str (snd (l_auth l)))
     @ (if l_extra_count l \<ge> 0 then ''_'' @ str_int (l_extra_count l) else [])"

definition protocol_map :: "Listener \<Rightarrow> string" where
  "protocol_map l = listener_name l @ '':'' @ protocol_str (fst (l_auth l))"

definition listener_repr :: "Listener \<Rightarrow> exn + string" where
  "listener_repr l =
     bindE (listener_port_of l) (\<lambda>p. Inr (listener_name l @ ''://0.0.0.0:'' @ str_int p))"

definition advertised_listener :: "Listener \<Rightarrow> exn + string" where
  "advertised_listener l =
     (if l_scope l = EXTERNAL
      then Inr (listener_name l @ ''://'' @ l_host l @ '':''
                @ (case l_node_port l of None \<Rightarrow> ''None'' | Some n \<Rightarrow> str_int n))
      else bindE (listener_port_of l) (\<lambda>p. Inr (listener_name l @ ''://'' @ l_host l @ '':'' @ str_int p)))"

definition internal_listener :: "world \<Rightarrow> exn + Listener" where
  "internal_listener w =
     bindE (internal_address (unit_name w)) (\<lambda>h. Inr (mk_listener internal_auth INTERNAL h))"

definition active_controller_listener :: "world \<Rightarrow> exn + Listener" where
  "active_controller_listener w =
     bindE (internal_address (unit_name w)) (\<lambda>h. Inr (mk_listener internal_auth CONTROLLER_LISTENER h))"

definition controller_listeners :: "world \<Rightarrow> exn + Listener list" where
  "controller_listeners w = bindE (active_controller_listener w) (\<lambda>l. Inr [l])"

text \<open>The listeners of one extra host. The loop replaces the placeholder in the loop variable itself.\<close>

fun extra_for :: "string \<Rightarrow> string \<Rightarrow> int \<Rightarrow> string \<Rightarrow> auth_map list \<Rightarrow> exn + Listener list" where
  "extra_for uid baseport n host [] = Inr []"
| "extra_for uid baseport n host (a # as) =
     (let host = replace ''{unit}'' uid host
      in case py_int baseport of
           None \<Rightarrow> Inl ValueError
         | Some b \<Rightarrow>
             bindE (extra_for uid baseport n host as) (\<lambda>ls.
               Inr (\<lparr>l_auth = a, l_scope = EXTRA, l_host = host, l_baseport = b, l_extra_count = n,
                     l_node_port = None\<rparr> # ls)))"

fun extra_entries :: "exn + auth_map list \<Rightarrow> string \<Rightarrow> int \<Rightarrow> string list list \<Rightarrow> exn + Listener list" where
  "extra_entries auths uid n [] = Inr []"
| "extra_entries auths uid n (e # es) =
     (case e of
        [host, baseport] \<Rightarrow>
          bindE auths (\<lambda>as.
          bindE (extra_for uid baseport n host as) (\<lambda>ls.
          bindE (extra_entries auths uid (n + 1) es) (\<lambda>rest. Inr (ls @ rest))))
      | _ \<Rightarrow> Inl ValueError)"

definition extra_listeners :: "k8s_api \<Rightarrow> world \<Rightarrow> exn + Listener list" where
  "extra_listeners api w =
     bindE (unit_id_of (unit_name w)) (\<lambda>i.
       extra_entries (enabled_auth api w) (str_int i) 0
         (map (split_char (CHR '':'')) (filter (\<lambda>l. CHR '':'' \<in> set l) (cfg_extra_listeners (cfg w)))))"

definition client_listeners :: "k8s_api \<Rightarrow> world \<Rightarrow> exn + Listener list" where
  "client_listeners api w =
     bindE (enabled_auth api w) (\<lambda>as.
       mapE (\<lambda>a. bindE (internal_address (unit_name w)) (\<lambda>h. Inr (mk_listener a CLIENT h))) as)"

text \<open>A service that is missing, or that has no node port yet, gives no listener.\<close>

fun external_for :: "k8s_api \<Rightarrow> world \<Rightarrow> auth_map list \<Rightarrow> exn + Listener list" where
  "external_for api w [] = Inr []"
| "external_for api w (a # as) =
     (let m = manager_of w (unit_name w)
      in case get_listener_nodeport api m a of
           Inl (ApiError c msg) \<Rightarrow> external_for api w as
         | Inl e \<Rightarrow> Inl e
         | Inr port \<Rightarrow>
             if port = 0 then external_for api w as
             else bindE (get_node_ip api m (pod_name_of (unit_name w))) (\<lambda>ip.
                  bindE (external_for api w as) (\<lambda>ls.
                    Inr ((mk_listener a EXTERNAL ip)\<lparr>l_node_port := Some port\<rparr> # ls))))"

definition external_listeners :: "k8s_api \<Rightarrow> world \<Rightarrow> exn + Listener list" where
  "external_listeners api w =
     (case expose_external (cfg w) of
        None \<Rightarrow> Inr []
      | Some v \<Rightarrow> if v = [] then Inr [] else bindE (enabled_auth api w) (external_for api w))"

definition all_listeners :: "k8s_api \<Rightarrow> world \<Rightarrow> exn + Listener list" where
  "all_listeners api w =
     bindE (internal_listener w) (\<lambda>i.
     bindE (client_listeners api w) (\<lambda>c.
     bindE (external_listeners api w) (\<lambda>e.
     bindE (extra_listeners api w) (\<lambda>x.
     bindE (if runs_controller w then controller_listeners w else Inr []) (\<lambda>k.
       Inr ([i] @ c @ e @ x @ k))))))"


section \<open>Options of the services\<close>

definition quoted_opts :: "string \<Rightarrow> string list \<Rightarrow> string" where
  "quoted_opts name opts = name @ ''='' @ [SQ] @ join '' '' opts @ [SQ]"

definition log_level :: "world \<Rightarrow> string" where
  "log_level w =
     (if cfg_log_level (cfg w) = ''WARNING'' then ''KAFKA_CFG_LOGLEVEL=WARN''
      else ''KAFKA_CFG_LOGLEVEL='' @ cfg_log_level (cfg w))"

definition kafka_jmx_opts :: string where
  "kafka_jmx_opts =
     quoted_opts ''KAFKA_JMX_OPTS''
       [''-Dcom.sun.management.jmxremote'',
        ''-javaagent:'' @ jmx_prometheus_javaagent BROKER @ ''='' @ str_int JMX_EXPORTER_PORT @ '':'' @ jmx_prometheus_config]"

definition cc_jmx_opts :: string where
  "cc_jmx_opts =
     quoted_opts ''CC_JMX_OPTS''
       [''-Dcom.sun.management.jmxremote'',
        ''-javaagent:'' @ jmx_prometheus_javaagent BROKER @ ''='' @ str_int JMX_CC_PORT @ '':'' @ jmx_cc_config]"

definition tools_log4j_opts :: "role \<Rightarrow> world \<Rightarrow> exn + string" where
  "tools_log4j_opts r w =
     (case split_char (CHR ''='') (log_level w) of
        _ # lvl # _ \<Rightarrow>
          Inr (quoted_opts ''KAFKA_LOG4J_OPTS''
                 [''-Dlog4j.configuration=file:'' @ tools_log4j_properties r @ '' -Dcharmed.kafka.log.level='' @ lvl])
      | _ \<Rightarrow> Inl IndexError)"

definition jvm_performance_opts :: string where
  "jvm_performance_opts =
     quoted_opts ''KAFKA_JVM_PERFORMANCE_OPTS''
       [''-XX:MetaspaceSize=96m'', ''-XX:+UseG1GC'', ''-XX:MaxGCPauseMillis=20'',
        ''-XX:InitiatingHeapOccupancyPercent=35'', ''-XX:G1HeapRegionSize=16M'',
        ''-XX:MinMetaspaceFreeRatio=50'', ''-XX:MaxMetaspaceFreeRatio=80'']"

definition heap_opts :: "world \<Rightarrow> string" where
  "heap_opts w =
     (let target = (if profile (cfg w) = ''testing'' then JVM_MEM_MIN_GB else JVM_MEM_MAX_GB)
      in quoted_opts ''KAFKA_HEAP_OPTS'' [''-Xms'' @ str_int target @ ''G'', ''-Xmx'' @ str_int target @ ''G''])"

text \<open>\<^verbatim>\<open>auxiliary_paths\<close> is empty on Kubernetes, the substrate of this charm.\<close>

definition auxiliary_paths :: "string list" where
  "auxiliary_paths = []"

text \<open>\<^verbatim>\<open>re.sub(r"^https?://", "", proxy)\<close>\<close>

definition strip_scheme :: "string \<Rightarrow> string" where
  "strip_scheme p =
     (if startswith p ''http://'' then drop 7 p
      else if startswith p ''https://'' then drop 8 p else p)"

definition proxy_opt :: "string \<Rightarrow> string option \<Rightarrow> exn + string list" where
  "proxy_opt prot proxy =
     (case proxy of
        None \<Rightarrow> Inr []
      | Some p \<Rightarrow>
          if p = [] then Inr []
          else let p = strip_scheme p
               in case (if CHR '':'' \<in> set p then split_char (CHR '':'') p else [p, ''8080'']) of
                    [host, port] \<Rightarrow>
                      Inr [''-D'' @ prot @ ''.proxyHost='' @ host @ '' -D'' @ prot @ ''.proxyPort='' @ port]
                  | _ \<Rightarrow> Inl ValueError)"

definition kafka_opts :: "env \<Rightarrow> exn + string" where
  "kafka_opts env =
     bindE (proxy_opt ''http'' (env_environ env ''JUJU_CHARM_HTTP_PROXY'')) (\<lambda>h.
     bindE (proxy_opt ''https'' (env_environ env ''JUJU_CHARM_HTTPS_PROXY'')) (\<lambda>s.
       let n = (case env_environ env ''JUJU_CHARM_NO_PROXY'' of
                  None \<Rightarrow> [] | Some p \<Rightarrow> if p = [] then [] else [''-Dhttp.nonProxyHosts='' @ p])
       in Inr (quoted_opts ''KAFKA_OPTS'' (h @ s @ n))))"


section \<open>Properties of the broker\<close>

definition default_replication_properties :: "world \<Rightarrow> string list" where
  "default_replication_properties w =
     (let replication_factor = min 3 (int (planned_units w));
          min_isr = max 1 (replication_factor - 1)
      in [''default.replication.factor='' @ str_int replication_factor,
          ''num.partitions='' @ str_int replication_factor,
          ''transaction.state.log.replication.factor='' @ str_int replication_factor,
          ''offsets.topic.replication.factor='' @ str_int replication_factor,
          ''min.insync.replicas='' @ str_int min_isr,
          ''transaction.state.log.min.isr='' @ str_int min_isr])"

definition store_properties :: "string \<Rightarrow> string \<Rightarrow> string \<Rightarrow> world \<Rightarrow> string list" where
  "store_properties prefix trust key w =
     [prefix @ ''ssl.truststore.location='' @ trust, prefix @ ''ssl.truststore.password='' @ truststore_password w,
      prefix @ ''ssl.keystore.location='' @ key, prefix @ ''ssl.keystore.password='' @ keystore_password w]"

definition tls_properties :: "world \<Rightarrow> exn + string list" where
  "tls_properties w =
     bindE (controller_listeners w) (\<lambda>cs.
     bindE (internal_listener w) (\<lambda>i.
       let properties =
             concat (map (\<lambda>l. store_properties (''listener.name.'' @ lower (listener_name l) @ ''.'')
                               (peer_truststore BROKER) (peer_keystore BROKER) w) (cs @ [i]))
       in if \<not> (tls_enabled w \<and> tls_ready w CLIENT_SCOPE) then Inr properties
          else Inr (properties @ store_properties [] (truststore BROKER) (keystore BROKER) w)))"

definition client_tls_properties :: "world \<Rightarrow> string list" where
  "client_tls_properties w = store_properties [] (peer_truststore BROKER) (peer_keystore BROKER) w"

definition mtls_properties :: "k8s_api \<Rightarrow> world \<Rightarrow> exn + string list" where
  "mtls_properties api w =
     bindE (has_mtls_clients api w) (\<lambda>m. Inr (if m then [''ssl.client.auth=required''] else []))"

text \<open>A double quote.\<close>

definition DQ :: string where "DQ = [CHR 0x22]"

definition scram_login :: "string \<Rightarrow> string \<Rightarrow> string" where
  "scram_login username password =
     ''org.apache.kafka.common.security.scram.ScramLoginModule required username='' @ DQ @ username @ DQ
     @ '' password='' @ DQ @ password @ DQ"

definition user_entry :: "string \<Rightarrow> string \<Rightarrow> string" where
  "user_entry username password = '' user_'' @ username @ ''='' @ DQ @ password @ DQ"

definition listener_prefix :: "Listener \<Rightarrow> string" where
  "listener_prefix l = ''listener.name.'' @ lower (listener_name l) @ ''.''"

definition mechanism_prefix :: "Listener \<Rightarrow> string" where
  "mechanism_prefix l = listener_prefix l @ lower (mechanism_str (snd (l_auth l))) @ ''.''"

definition enabled_mechanisms :: "Listener \<Rightarrow> string" where
  "enabled_mechanisms l = listener_prefix l @ ''sasl.enabled.mechanisms='' @ mechanism_str (snd (l_auth l))"

definition scram_properties :: "k8s_api \<Rightarrow> world \<Rightarrow> exn + string list" where
  "scram_properties api w =
     (let username = INTER_BROKER_USER;
          password = dget (internal_user_credentials w) INTER_BROKER_USER [];
          admin_password = dget (internal_user_credentials w) ADMIN_USER []
      in bindE (internal_listener w) (\<lambda>i.
         bindE (client_listeners api w) (\<lambda>c.
         bindE (external_listeners api w) (\<lambda>e.
         bindE (extra_listeners api w) (\<lambda>x.
           Inr ([mechanism_prefix i @ ''sasl.jaas.config='' @ scram_login username password
                  @ user_entry ADMIN_USER admin_password @ user_entry username password @ '';'',
                 enabled_mechanisms i]
                @ concat (map (\<lambda>l. [mechanism_prefix l @ ''sasl.jaas.config='' @ scram_login username password @ '';'',
                                     enabled_mechanisms l])
                    (filter (\<lambda>l. startswith (mechanism_str (snd (l_auth l))) ''SCRAM'') (c @ e @ x)))))))))"

definition controller_scram_properties :: "world \<Rightarrow> exn + string list" where
  "controller_scram_properties w =
     bindE (peer_cluster w) (\<lambda>pc.
     bindE (controller_listeners w) (\<lambda>cs.
       let password = controller_password pc
       in Inr (concat (map (\<lambda>l.
            [''sasl.mechanism.controller.protocol='' @ mechanism_str (snd (l_auth l)),
             mechanism_prefix l @ ''sasl.jaas.config='' @ scram_login CONTROLLER_USER password
               @ user_entry CONTROLLER_USER password @ '';'',
             enabled_mechanisms l]) cs))))"

definition dquoted :: "string \<Rightarrow> string \<Rightarrow> string" where
  "dquoted k v = k @ ''='' @ DQ @ v @ DQ"

definition oauth_properties :: "env \<Rightarrow> world \<Rightarrow> exn + string list" where
  "oauth_properties env w =
     (if oauth_rel w = None then Inr []
      else bindE (client_listeners (env_k8s env) w) (\<lambda>ls.
        case filter (\<lambda>l. startswith (mechanism_str (snd (l_auth l))) ''OAUTH'') ls of
          [] \<Rightarrow> Inl IndexError
        | l # _ \<Rightarrow>
            let validation_cfg =
                  (if jwt_access_token w then dquoted ''oauth.jwks.endpoint.uri'' (oauth_get w ''jwks_endpoint'')
                   else dquoted ''oauth.introspection.endpoint.uri'' (oauth_get w ''introspection_endpoint''));
                truststore_cfg =
                  (if env_trusted_ca env (oauth_get w ''issuer_url'') then []
                   else dquoted ''oauth.ssl.truststore.location'' (truststore BROKER) @ '' ''
                     @ dquoted ''oauth.ssl.truststore.password'' (truststore_password w) @ '' ''
                     @ dquoted ''oauth.ssl.truststore.type'' ''JKS'')
            in Inr
              [join '' ''
                 [mechanism_prefix l @ ''sasl.jaas.config=org.apache.kafka.common.security.oauthbearer.OAuthBearerLoginModule required'',
                  dquoted ''oauth.client.id'' ''kafka'',
                  dquoted ''oauth.valid.issuer.uri'' (oauth_get w ''issuer_url''),
                  validation_cfg,
                  dquoted ''oauth.username.claim'' ''email'',
                  dquoted ''oauth.fallback.username.claim'' ''client_id'',
                  dquoted ''oauth.check.audience'' ''true'',
                  dquoted ''oauth.check.access.token.type'' ''false'',
                  dquoted ''oauth.config.id'' (listener_name l),
                  dquoted ''unsecuredLoginStringClaim_sub'' ''unused'',
                  truststore_cfg,
                  '';''],
               mechanism_prefix l @ ''sasl.server.callback.handler.class=io.strimzi.kafka.oauth.server.JaasServerOauthValidatorCallbackHandler'',
               enabled_mechanisms l,
               ''principal.builder.class=io.strimzi.kafka.oauth.server.OAuthKafkaPrincipalBuilder'']))"

definition rack_path :: string where
  "rack_path = conf_path BROKER @ ''/rack.properties''"

definition rack_properties :: "world \<Rightarrow> string list" where
  "rack_properties w = workload_read w rack_path"

fun rack_of_lines :: "string list \<Rightarrow> exn + string" where
  "rack_of_lines [] = Inr []"
| "rack_of_lines (item # items) =
     (if contains ''broker.rack'' item
      then (case split_char (CHR ''='') item of _ # v # _ \<Rightarrow> Inr v | _ \<Rightarrow> Inl IndexError)
      else rack_of_lines items)"

definition rack :: "world \<Rightarrow> exn + string" where
  "rack w = rack_of_lines (rack_properties w)"

definition build_internal_client_properties :: "world \<Rightarrow> string \<Rightarrow> string option \<Rightarrow> exn + string list" where
  "build_internal_client_properties w username prefix =
     bindE (if username = ADMIN_USER then bindE (peer_cluster w) (\<lambda>pc. Inr (broker_password pc))
            else Inr (dget (internal_user_credentials w) username [])) (\<lambda>password.
     bindE (bootstrap_server_internal w) (\<lambda>uris.
       let properties =
             [''sasl.jaas.config='' @ scram_login username password @ '';'',
              ''sasl.mechanism='' @ mechanism_str (snd internal_auth),
              ''security.protocol='' @ protocol_str (fst internal_auth),
              ''bootstrap.servers='' @ uris] @ client_tls_properties w
       in Inr (case prefix of None \<Rightarrow> properties
               | Some p \<Rightarrow> if p = [] then properties else map (\<lambda>q. p @ ''.'' @ q) properties)))"

definition client_properties_of :: "world \<Rightarrow> exn + string list" where
  "client_properties_of w = build_internal_client_properties w ADMIN_USER None"

definition metrics_reporter_properties :: "world \<Rightarrow> exn + string list" where
  "metrics_reporter_properties w =
     build_internal_client_properties w ADMIN_USER (Some ''cruise.control.metrics.reporter'')"

definition authorizer_class :: "string list" where
  "authorizer_class = [''authorizer.class.name=org.apache.kafka.metadata.authorizer.StandardAuthorizer'']"

definition controller_properties :: "world \<Rightarrow> exn + string list" where
  "controller_properties w =
     bindE (unit_id_of (unit_name w)) (\<lambda>i.
     bindE (peer_cluster w) (\<lambda>pc.
     bindE (controller_listeners w) (\<lambda>cs.
     bindE (controller_scram_properties w) (\<lambda>scram.
       let roles = (if runs_broker w then [''broker''] else []) @ (if runs_controller w then [''controller''] else []);
           node_id = (if runs_broker w then i + KRAFT_NODE_ID_OFFSET else i)
       in Inr ([''process.roles='' @ join '','' roles,
                ''node.id='' @ str_int node_id,
                ''controller.quorum.bootstrap.servers='' @ bootstrap_controller pc,
                ''controller.listener.names='' @ join '','' (map listener_name cs)] @ scram)))))"


section \<open>The configuration as properties\<close>

text \<open>
  \<^verbatim>\<open>str\<close> of the option values. A list prints the \<^verbatim>\<open>repr\<close> of its strings, which quotes with
  apostrophes unless the string has apostrophes and no double quote; control characters other
  than the three named do not occur in option values.
\<close>

definition repr_char :: "char \<Rightarrow> char \<Rightarrow> string" where
  "repr_char q c =
     (if c = q \<or> c = CHR 0x5C then [CHR 0x5C, c]
      else if c = CHR 0x0A then [CHR 0x5C, CHR ''n'']
      else if c = CHR 0x0D then [CHR 0x5C, CHR ''r'']
      else if c = CHR 0x09 then [CHR 0x5C, CHR ''t'']
      else [c])"

definition repr_str :: "string \<Rightarrow> string" where
  "repr_str s =
     (let q = (if SQ \<in> set s \<and> CHR 0x22 \<notin> set s then CHR 0x22 else SQ)
      in [q] @ concat (map (repr_char q) s) @ [q])"

definition repr_strs :: "string list \<Rightarrow> string" where
  "repr_strs xs = ''['' @ join '', '' (map repr_str xs) @ '']''"

definition str_bool :: "bool \<Rightarrow> string" where
  "str_bool b = (if b then ''True'' else ''False'')"

definition config_dict :: "charm_config \<Rightarrow> (string \<times> string option) list" where
  "config_dict c =
     [(''compression_type'', Some (compression_type c)),
      (''log_flush_interval_messages'', Some (str_int (log_flush_interval_messages c))),
      (''log_flush_interval_ms'', map_option str_int (log_flush_interval_ms c)),
      (''log_flush_offset_checkpoint_interval_ms'', Some (str_int (log_flush_offset_checkpoint_interval_ms c))),
      (''log_retention_bytes'', Some (str_int (log_retention_bytes c))),
      (''log_retention_ms'', Some (str_int (log_retention_ms c))),
      (''log_segment_bytes'', Some (str_int (log_segment_bytes c))),
      (''message_max_bytes'', Some (str_int (message_max_bytes c))),
      (''offsets_topic_num_partitions'', Some (str_int (offsets_topic_num_partitions c))),
      (''transaction_state_log_num_partitions'', Some (str_int (transaction_state_log_num_partitions c))),
      (''unclean_leader_election_enable'', Some (str_bool (unclean_leader_election_enable c))),
      (''log_cleaner_delete_retention_ms'', Some (str_int (log_cleaner_delete_retention_ms c))),
      (''log_cleaner_min_compaction_lag_ms'', Some (str_int (log_cleaner_min_compaction_lag_ms c))),
      (''log_cleanup_policy'', Some (log_cleanup_policy c)),
      (''log_message_timestamp_type'', Some (log_message_timestamp_type c)),
      (''ssl_cipher_suites'', ssl_cipher_suites c),
      (''ssl_principal_mapping_rules'', Some (ssl_principal_mapping_rules c)),
      (''replication_quota_window_num'', Some (str_int (replication_quota_window_num c))),
      (''roles'', Some (cfg_roles c)),
      (''profile'', Some (profile c)),
      (''certificate_extra_sans'', Some (repr_strs (certificate_extra_sans c))),
      (''extra_listeners'', Some (repr_strs (cfg_extra_listeners c))),
      (''expose_external'', expose_external c),
      (''log_level'', Some (cfg_log_level c)),
      (''network_bandwidth'', Some (str_int (network_bandwidth c))),
      (''cruisecontrol_balance_threshold'', Some (cruisecontrol_balance_threshold c)),
      (''cruisecontrol_capacity_threshold'', Some (cruisecontrol_capacity_threshold c)),
      (''system_users'', system_users c),
      (''tls_private_key'', tls_private_key c)]"

definition SERVER_PROPERTIES_BLACKLIST :: "string list" where
  "SERVER_PROPERTIES_BLACKLIST =
     [''profile'', ''log_level'', ''certificate_extra_sans'', ''extra_listeners'', ''roles'',
      ''expose_external'', ''system_users'', ''tls_private_key'']"

definition translate_config_key :: "string \<Rightarrow> string" where
  "translate_config_key key =
     (if key \<in> set SERVER_PROPERTIES_BLACKLIST then ''# '' @ key else replace ''_'' ''.'' key)"

definition config_properties :: "world \<Rightarrow> string list" where
  "config_properties w =
     concat (map (\<lambda>(k, v). case v of None \<Rightarrow> [] | Some t \<Rightarrow> [translate_config_key k @ ''='' @ t])
       (config_dict (cfg w)))"


section \<open>The properties files\<close>

definition DEFAULT_CONFIG_OPTIONS :: "string list" where
  "DEFAULT_CONFIG_OPTIONS =
     [[], ''sasl.mechanism.inter.broker.protocol=SCRAM-SHA-512'', ''allow.everyone.if.no.acl.found=false'',
      ''auto.create.topics.enable=false'', []]"

definition KAFKA_CRUISE_CONTROL_OPTIONS :: "string list" where
  "KAFKA_CRUISE_CONTROL_OPTIONS =
     [[], ''metric.reporters=com.linkedin.kafka.cruisecontrol.metricsreporter.CruiseControlMetricsReporter'']"

definition TESTING_OPTIONS :: "string list" where
  "TESTING_OPTIONS = [[], ''cruise.control.metrics.reporter.metrics.reporting.interval.ms=6000'', []]"

definition server_properties_of :: "env \<Rightarrow> world \<Rightarrow> exn + string list" where
  "server_properties_of env w =
     (let api = env_k8s env
      in bindE (all_listeners api w) (\<lambda>ls.
         bindE (mapE listener_repr ls) (\<lambda>listeners_repr.
         bindE (mapE advertised_listener ls) (\<lambda>advertised.
         bindE (controller_listeners w) (\<lambda>cs.
         bindE (mapE advertised_listener cs) (\<lambda>controller_advertised.
           let controller_protocol_map = map protocol_map cs
           in if runs_controller_only w then
                bindE (super_users w) (\<lambda>su.
                bindE (controller_properties w) (\<lambda>cp.
                bindE (tls_properties w) (\<lambda>tls.
                  Inr ([''super.users='' @ su, ''log.dirs='' @ log_dirs w,
                        ''metadata.log.dir='' @ metadata_log_dir w,
                        ''listeners='' @ join '','' controller_advertised,
                        ''listener.security.protocol.map='' @ join '','' controller_protocol_map]
                       @ cp @ authorizer_class @ tls))))
              else
                bindE (super_users w) (\<lambda>su.
                bindE (internal_listener w) (\<lambda>i.
                bindE (scram_properties api w) (\<lambda>scram.
                bindE (oauth_properties env w) (\<lambda>oauth.
                bindE (controller_properties w) (\<lambda>cp.
                bindE (tls_properties w) (\<lambda>tls.
                bindE (mtls_properties api w) (\<lambda>mtls.
                bindE (peer_cluster w) (\<lambda>pc.
                bindE (if runs_balancer w \<or> contains (role_value BALANCER) (pc_roles pc)
                       then bindE (metrics_reporter_properties w) (\<lambda>m. Inr (KAFKA_CRUISE_CONTROL_OPTIONS @ m))
                       else Inr []) (\<lambda>metrics.
                  Inr ([''super.users='' @ su, ''log.dirs='' @ log_dirs w,
                        ''metadata.log.dir='' @ metadata_log_dir w,
                        ''listener.security.protocol.map=''
                          @ join '','' (map protocol_map ls @ (if runs_broker_only w then controller_protocol_map else [])),
                        ''listeners='' @ join '','' listeners_repr,
                        ''advertised.listeners='' @ join '','' advertised,
                        ''inter.broker.listener.name='' @ listener_name i]
                       @ scram @ oauth @ config_properties w @ default_replication_properties w
                       @ rack_properties w @ DEFAULT_CONFIG_OPTIONS @ authorizer_class @ cp @ tls @ mtls
                       @ metrics
                       @ (if profile (cfg w) = ''testing'' then TESTING_OPTIONS else [])))))))))))))))))"

definition controller_kraft_client_properties :: "env \<Rightarrow> world \<Rightarrow> exn + string list" where
  "controller_kraft_client_properties env w =
     bindE (peer_cluster w) (\<lambda>pc.
     bindE (server_properties_of env w) (\<lambda>server.
     bindE (metrics_reporter_properties w) (\<lambda>metrics.
     bindE (tls_properties w) (\<lambda>tls.
     bindE (internal_listener w) (\<lambda>i.
       Inr (sort (filter (\<lambda>p. p \<notin> set (KAFKA_CRUISE_CONTROL_OPTIONS @ metrics @ tls)) (remdups server))
            @ [''sasl.jaas.config='' @ scram_login CONTROLLER_USER (controller_password pc) @ '';'',
               ''sasl.mechanism='' @ mechanism_str (snd (l_auth i)),
               ''security.protocol='' @ protocol_str (fst (l_auth i)),
               ''default.api.timeout.ms=20000'', ''request.timeout.ms=10000'']
            @ client_tls_properties w))))))"

definition set_server_properties :: "env \<Rightarrow> unit hook" where
  "set_server_properties env =
     bindM (readM (server_properties_of env)) (\<lambda>r. bindM (liftE r) (\<lambda>ps.
       workload_write (join [CHR 0x0A] ps) (server_properties BROKER)))"

definition set_client_properties :: "env \<Rightarrow> unit hook" where
  "set_client_properties env =
     bindM (readM client_properties_of) (\<lambda>r. bindM (liftE r) (\<lambda>ps.
     thenM (workload_write (join [CHR 0x0A] ps) (client_properties BROKER))
       (bindM (readM (controller_kraft_client_properties env)) (\<lambda>r. bindM (liftE r) (\<lambda>qs.
          workload_write (join [CHR 0x0A] qs) (kraft_client_properties BROKER))))))"

definition properties_changed :: "env \<Rightarrow> world \<Rightarrow> exn + string set" where
  "properties_changed env w =
     (let current = workload_read w (server_properties BROKER)
      in if current = [] then Inr {}
         else bindE (server_properties_of env w) (\<lambda>ps.
                Inr ((set current - set ps) \<union> (set ps - set current))))"


section \<open>The environment file\<close>

definition env_var :: "string \<Rightarrow> string \<times> string" where
  "env_var var = (hd (split1 (CHR ''='') var), concat (tl (split1 (CHR ''='') var)))"

definition map_env :: "string list \<Rightarrow> (string, string) dict" where
  "map_env env =
     fold (\<lambda>var m. let (k, v) = env_var var in if k \<noteq> [] then dset k v m else m) env []"

definition ENVIRONMENT_FILE :: string where "ENVIRONMENT_FILE = ''/etc/environment''"

definition env_content :: "(string, string) dict \<Rightarrow> string" where
  "env_content e = join [CHR 0x0A] (map (\<lambda>(k, v). k @ ''='' @ v) e)"

definition updated_env :: "world \<Rightarrow> string list \<Rightarrow> (string, string) dict" where
  "updated_env w vars = dmerge (map_env (workload_read w ENVIRONMENT_FILE)) (map_env vars)"

definition broker_env_vars :: "env \<Rightarrow> world \<Rightarrow> exn + string list" where
  "broker_env_vars env w =
     bindE (kafka_opts env) (\<lambda>k.
       Inr ([k, kafka_jmx_opts, cc_jmx_opts, jvm_performance_opts, heap_opts w, log_level w] @ auxiliary_paths))"

definition set_environment :: "env \<Rightarrow> unit hook" where
  "set_environment env =
     bindM (readM (broker_env_vars env)) (\<lambda>r. bindM (liftE r) (\<lambda>vars.
     bindM (readM (\<lambda>w. updated_env w vars)) (\<lambda>e.
       workload_write (env_content e) ENVIRONMENT_FILE)))"


section \<open>The balancer's configuration\<close>

definition balancer_kafka_opts :: string where
  "balancer_kafka_opts = quoted_opts ''KAFKA_OPTS'' [''-Djava.security.auth.login.config='' @ balancer_jaas BALANCER]"

definition balance_thresholds :: "world \<Rightarrow> string list" where
  "balance_thresholds w =
     map (\<lambda>k. k @ ''.balance.threshold='' @ cruisecontrol_balance_threshold (cfg w))
       [''cpu'', ''disk'', ''network.inbound'', ''network.outbound'', ''replica.count'', ''leader.replica.count'']"

definition capacity_thresholds :: "world \<Rightarrow> string list" where
  "capacity_thresholds w =
     map (\<lambda>k. k @ ''.capacity.threshold='' @ cruisecontrol_capacity_threshold (cfg w))
       [''disk'', ''cpu'', ''network.inbound'', ''network.outbound'']"

definition goal_class :: "string \<Rightarrow> string" where
  "goal_class g = ''com.linkedin.kafka.cruisecontrol.analyzer.goals.'' @ g @ ''Goal''"

definition goal_names :: "world \<Rightarrow> exn + string list" where
  "goal_names w =
     (let goals = (if profile (cfg w) = ''testing'' then BALANCER_GOALS_TESTING else DEFAULT_BALANCER_GOALS)
      in bindE (peer_cluster w) (\<lambda>pc.
         bindE (racks_of pc) (\<lambda>racks.
           if racks = 0 then Inr goals
           else bindE (broker_capacities_of pc) (\<lambda>caps.
                bindE (capacities_list caps) (\<lambda>xs.
                  Inr (goals @ (if min 3 (int (length xs)) > racks then [''RackAwareDistribution'']
                                else [''RackAware''])))))))"

definition is_hard_goal :: "string \<Rightarrow> bool" where
  "is_hard_goal goal = list_ex (\<lambda>h. contains h goal) HARD_BALANCER_GOALS"

definition goals :: "world \<Rightarrow> exn + string list" where
  "goals w =
     bindE (goal_names w) (\<lambda>names.
       let default_goals = map goal_class names
       in Inr [''default.goals='' @ join '','' default_goals,
               ''goals='' @ join '','' default_goals,
               ''hard.goals='' @ join '','' (filter is_hard_goal default_goals)])"

definition cc_tls_properties :: "world \<Rightarrow> string list" where
  "cc_tls_properties w =
     store_properties [] (peer_truststore BALANCER) (peer_keystore BALANCER) w @ [''ssl.client.auth=none'']"

definition CRUISE_CONTROL_CONFIG_OPTIONS :: "string list" where
  "CRUISE_CONTROL_CONFIG_OPTIONS =
     [[], ''metric.reporter.topic=__CruiseControlMetrics'',
      ''sample.store.class=com.linkedin.kafka.cruisecontrol.monitor.sampling.KafkaSampleStore'',
      ''topic.config.provider.class=com.linkedin.kafka.cruisecontrol.config.KafkaAdminTopicConfigProvider'',
      ''kafka.broker.failure.detection.enable=true'',
      ''partition.metric.sample.store.topic=__KafkaCruiseControlPartitionMetricSamples'',
      ''broker.metric.sample.store.topic=__KafkaCruiseControlModelTrainingSamples'',
      ''max.active.user.tasks=10'', ''default.api.timeout.ms=20000'', ''request.timeout.ms=10000'', []]"

definition CRUISE_CONTROL_TESTING_OPTIONS :: "string list" where
  "CRUISE_CONTROL_TESTING_OPTIONS =
     [[], ''cruise.control.metrics.reporter.metrics.reporting.interval.ms=6000'',
      ''broker.metrics.window.ms=30000'', ''partition.metrics.window.ms=30000'', ''metadata.max.age.ms=10000'',
      ''metric.sampling.interval.ms=12000'', ''min.samples.per.broker.metrics.window=1'',
      ''min.samples.per.partition.metrics.window=1'', ''num.partition.metrics.windows=3'',
      ''num.broker.metrics.windows=10'', ''default.api.timeout.ms=10000'', ''request.timeout.ms=5000'', []]"

definition cruise_control_properties_of :: "world \<Rightarrow> exn + string list" where
  "cruise_control_properties_of w =
     bindE (peer_cluster w) (\<lambda>pc.
     bindE (goals w) (\<lambda>gs.
       Inr ([''bootstrap.servers='' @ broker_uris pc,
             ''sasl.jaas.config='' @ scram_login (broker_username pc) (broker_password pc) @ '';'',
             ''sasl.mechanism='' @ mechanism_str (snd internal_auth),
             ''security.protocol='' @ protocol_str (fst internal_auth),
             ''capacity.config.file='' @ capacity_jbod_json BALANCER,
             ''webserver.security.enable=true'',
             ''webserver.auth.credentials.file='' @ cruise_control_auth BALANCER]
            @ CRUISE_CONTROL_CONFIG_OPTIONS @ gs @ cc_tls_properties w
            @ (if profile (cfg w) = ''testing'' then CRUISE_CONTROL_TESTING_OPTIONS else []))))"

definition set_cruise_control_properties :: "unit hook" where
  "set_cruise_control_properties =
     bindM (readM cruise_control_properties_of) (\<lambda>r. bindM (liftE r) (\<lambda>ps.
       workload_write (join [CHR 0x0A] ps) (cruise_control_properties BALANCER)))"

definition set_broker_capacities :: "unit hook" where
  "set_broker_capacities =
     bindM (readM peer_cluster) (\<lambda>r. bindM (liftE r) (\<lambda>pc. bindM (liftE (broker_capacities_of pc)) (\<lambda>caps.
       workload_write (dumps caps) (capacity_jbod_json BALANCER))))"

definition set_balancer_environment :: "unit hook" where
  "set_balancer_environment =
     bindM (readM (\<lambda>w. updated_env w ([kafka_jmx_opts, cc_jmx_opts, jvm_performance_opts, heap_opts w, log_level w,
                                      balancer_kafka_opts] @ auxiliary_paths))) (\<lambda>e.
     bindM (readM runs_broker) (\<lambda>b.
       if b then skip else workload_write (env_content e) ENVIRONMENT_FILE))"

definition set_cruise_control_auth :: "unit hook" where
  "set_cruise_control_auth =
     bindM (readM (\<lambda>w. cluster_get w ''balancer-username'' @ '': '' @ cluster_get w ''balancer-password'' @ '',ADMIN'' @ [CHR 0x0A])) (\<lambda>t.
       workload_write t (cruise_control_auth BALANCER))"


section \<open>Properties\<close>

subsection \<open>Listeners\<close>

text \<open>The part of a listener's name that does not depend on its number.\<close>

definition auth_name :: "auth_map \<Rightarrow> string" where
  "auth_name a = protocol_str (fst a) @ ''_'' @ replace ''-'' ''_'' (mechanism_str (snd a))"

lemma mechanism_names [simp]:
  "replace ''-'' ''_'' ''SCRAM-SHA-512'' = ''SCRAM_SHA_512''"
  "replace ''-'' ''_'' ''OAUTHBEARER'' = ''OAUTHBEARER''"
  "replace ''-'' ''_'' ''SSL'' = ''SSL''"
  by code_simp+

lemma listener_name_eq:
  "listener_name l = listener_scope_str (l_scope l) @ ''_'' @ auth_name (l_auth l)
     @ (if l_extra_count l \<ge> 0 then ''_'' @ str_int (l_extra_count l) else [])"
  by (simp add: listener_name_def auth_name_def)

lemma auth_name_prefix:
  assumes "auth_name a @ s = auth_name b @ t" and "s = [] \<and> t = [] \<or> (\<exists>i j. s = CHR ''_'' # str_int i \<and> t = CHR ''_'' # str_int j)"
  shows "a = b \<and> s = t"
proof -
  obtain p m q n where ab: "a = (p, m)" "b = (q, n)" by fastforce
  show ?thesis using assms unfolding ab auth_name_def
    by (cases p; cases q; cases m; cases n) auto
qed

definition is_extra :: "Listener \<Rightarrow> bool" where
  "is_extra l \<longleftrightarrow> l_scope l = EXTRA"

text \<open>Extra listeners are numbered, the others are not.\<close>

definition numbered_ok :: "Listener \<Rightarrow> bool" where
  "numbered_ok l \<longleftrightarrow> (if l_scope l = EXTRA then l_extra_count l \<ge> 0 else l_extra_count l = -1)"

lemma scope_prefix:
  "listener_scope_str s @ CHR ''_'' # x = listener_scope_str t @ CHR ''_'' # y \<longleftrightarrow> s = t \<and> x = y"
  by (cases s; cases t) auto

lemma listener_name_inject:
  assumes "listener_name l = listener_name l'" "numbered_ok l" "numbered_ok l'"
  shows "l_scope l = l_scope l' \<and> l_auth l = l_auth l' \<and> l_extra_count l = l_extra_count l'"
proof -
  let ?s = "\<lambda>l. if l_extra_count l \<ge> 0 then ''_'' @ str_int (l_extra_count l) else []"
  have "l_scope l = l_scope l' \<and> auth_name (l_auth l) @ ?s l = auth_name (l_auth l') @ ?s l'"
    using assms(1) by (simp only: listener_name_eq append_Cons append_Nil scope_prefix)
  moreover from this have "?s l = [] \<and> ?s l' = [] \<or> (\<exists>i j. ?s l = CHR ''_'' # str_int i \<and> ?s l' = CHR ''_'' # str_int j)"
    using assms(2,3) by (auto simp: numbered_ok_def split: if_splits)
  ultimately have "l_scope l = l_scope l' \<and> l_auth l = l_auth l' \<and> ?s l = ?s l'"
    using auth_name_prefix by blast
  then show ?thesis using assms(2,3) by (auto simp: numbered_ok_def split: if_splits)
qed


definition listener_key :: "Listener \<Rightarrow> listener_scope \<times> auth_map \<times> int" where
  "listener_key l = (l_scope l, l_auth l, l_extra_count l)"

lemma extra_for_listeners:
  "extra_for uid bp n host as = Inr ls \<Longrightarrow>
   map l_auth ls = as \<and> (\<forall>l \<in> set ls. l_scope l = EXTRA \<and> l_extra_count l = n \<and> py_int bp = Some (l_baseport l))"
proof (induction as arbitrary: host ls)
  case (Cons a as)
  then show ?case by (force simp: Let_def bindE_Inr split: option.splits)
qed simp

lemma split_port:
  assumes "split_char (CHR '':'') l = [host, bp]" "listener_port l = Inr p"
  shows "py_int bp = Some p"
  using assms by (auto simp: listener_port_def Let_def split: if_splits option.splits)

lemma extra_entries_listeners:
  assumes "collect_ports es = Inr ports" "distinct as"
    and "extra_entries (Inr as) uid n (map (split_char (CHR '':'')) (filter (\<lambda>l. CHR '':'' \<in> set l) es)) = Inr ls"
  shows "distinct (map listener_key ls) \<and> (\<forall>l \<in> set ls. l_scope l = EXTRA \<and> l_auth l \<in> set as \<and> n \<le> l_extra_count l \<and>
    l_extra_count l < n + int (length ports) \<and> l_baseport l = ports ! nat (l_extra_count l - n))"
  using assms
proof (induction es arbitrary: n ls ports)
  case (Cons e es)
  show ?case
  proof (cases "CHR '':'' \<in> set e")
    case False
    then show ?thesis using Cons by simp
  next
    case True
    then obtain p ps where p: "listener_port e = Inr p" "collect_ports es = Inr ps" "ports = p # ps"
      using Cons.prems(1) by (auto simp: bindE_Inr)
    from Cons.prems(3) True obtain host bp l1 l2 where
      s: "split_char (CHR '':'') e = [host, bp]" and l1: "extra_for uid bp n host as = Inr l1"
      and l2: "extra_entries (Inr as) uid (n + 1) (map (split_char (CHR '':'')) (filter (\<lambda>l. CHR '':'' \<in> set l) es)) = Inr l2"
      and ls: "ls = l1 @ l2"
      by (auto simp: bindE_Inr split: list.splits)
    have b: "py_int bp = Some p" using split_port [OF s p(1)] .
    have IH: "distinct (map listener_key l2)" "\<forall>l \<in> set l2. l_scope l = EXTRA \<and> l_auth l \<in> set as \<and> n + 1 \<le> l_extra_count l \<and>
        l_extra_count l < n + 1 + int (length ps) \<and> l_baseport l = ps ! nat (l_extra_count l - (n + 1))"
      using Cons.IH [OF p(2) Cons.prems(2) l2] by auto
    have a1: "map l_auth l1 = as" "\<forall>l \<in> set l1. l_scope l = EXTRA \<and> l_extra_count l = n \<and> l_baseport l = p"
      using extra_for_listeners [OF l1] b by auto
    have k1: "map listener_key l1 = map (\<lambda>a. (EXTRA, a, n)) as"
      using a1 by (auto simp: listener_key_def)
    have "nat (c - n) = Suc (nat (c - (n + 1)))" if "n + 1 \<le> c" for c :: int using that by simp
    then have "\<forall>l \<in> set l2. l_baseport l = ports ! nat (l_extra_count l - n)" using IH(2) p(3) by auto
    moreover have "distinct (map listener_key ls)"
    proof -
      have "distinct (map listener_key l1)" unfolding k1 using Cons.prems(2) by (simp add: distinct_map inj_on_def)
      moreover have "set (map listener_key l1) \<inter> set (map listener_key l2) = {}"
        unfolding k1 using IH(2) by (auto simp: listener_key_def)
      ultimately show ?thesis using IH(1) ls by simp
    qed
    ultimately show ?thesis using IH(2) a1 p(3) ls by fastforce
  qed
qed simp

lemma enabled_auth_shape:
  assumes "enabled_auth api w = Inr as"
  shows "distinct as" "\<And>a. a \<in> set as \<Longrightarrow> supported_auth a"
proof -
  obtain m where as: "as =
      (if client_rels w \<noteq> [] \<or> runs_balancer w \<or> contains (role_value BALANCER) (pc_roles (peer_cluster_orchestrator w))
       then [default_auth w] else [])
      @ (if oauth_rel w \<noteq> None then [(fst (default_auth w), OAUTHBEARER)] else []) @ (if m then [(SSL, SSL_MECH)] else [])"
    using assms unfolding enabled_auth_def bindE_Inr by blast
  have "default_auth w = (SASL_SSL, SCRAM_SHA_512) \<or> default_auth w = (SASL_PLAINTEXT, SCRAM_SHA_512)"
    by (simp add: default_auth_def)
  then show "distinct as" "\<And>a. a \<in> set as \<Longrightarrow> supported_auth a"
    unfolding as supported_auth_iff by (elim disjE; auto split: if_splits)+
qed

lemma client_listeners_keys:
  assumes "client_listeners api w = Inr ls" "enabled_auth api w = Inr as"
  shows "map listener_key ls = map (\<lambda>a. (CLIENT, a, -1)) as"
proof -
  have "mapE (\<lambda>a. bindE r (\<lambda>h. Inr (mk_listener a CLIENT h))) as = Inr ls \<Longrightarrow> map listener_key ls = map (\<lambda>a. (CLIENT, a, -1)) as" for r
    by (induction as arbitrary: ls) (auto simp: bindE_Inr mk_listener_def listener_key_def)
  then show ?thesis using assms by (auto simp: client_listeners_def)
qed

lemma external_for_keys:
  "external_for api w as = Inr ls \<Longrightarrow> distinct as \<Longrightarrow>
   distinct (map listener_key ls) \<and> (\<forall>l \<in> set ls. l_scope l = EXTERNAL \<and> l_auth l \<in> set as \<and> l_extra_count l = -1)"
proof (induction as arbitrary: ls)
  case (Cons a as)
  show ?case
  proof (cases "get_listener_nodeport api (manager_of w (unit_name w)) a")
    case (Inl e)
    then show ?thesis using Cons by (cases e) auto
  next
    case (Inr p)
    then show ?thesis using Cons
      by (auto simp: Let_def bindE_Inr mk_listener_def listener_key_def split: if_splits)
  qed
qed simp


text \<open>The ports of a supported combination follow from its place in the table.\<close>

definition auth_rank :: "auth_map \<Rightarrow> int" where
  "auth_rank a =
     (if a = (SASL_PLAINTEXT, SCRAM_SHA_512) then 0 else if a = (SASL_SSL, SCRAM_SHA_512) then 1
      else if a = (SSL, SSL_MECH) then 2 else if a = (SASL_PLAINTEXT, OAUTHBEARER) then 3 else 4)"

lemma auth_rank_bounds: "0 \<le> auth_rank a" "auth_rank a \<le> 4"
  by (simp_all add: auth_rank_def)

lemma auth_rank_inject: "supported_auth a \<Longrightarrow> supported_auth b \<Longrightarrow> auth_rank a = auth_rank b \<Longrightarrow> a = b"
  by (auto simp: supported_auth_iff auth_rank_def)

definition port_value :: "Listener \<Rightarrow> int" where
  "port_value l =
     (case l_scope l of
        INTERNAL \<Rightarrow> 19092 + auth_rank (l_auth l)
      | CLIENT \<Rightarrow> 9092 + auth_rank (l_auth l)
      | EXTERNAL \<Rightarrow> 29092 + auth_rank (l_auth l)
      | EXTRA \<Rightarrow> 9092 + auth_rank (l_auth l) + l_baseport l
      | CONTROLLER_LISTENER \<Rightarrow> 9098)"

lemma listener_port_value:
  assumes "supported_auth (l_auth l)" "l_scope l = CONTROLLER_LISTENER \<longrightarrow> l_auth l = internal_auth"
  shows "listener_port_of l = Inr (port_value l)"
  using assms unfolding supported_auth_iff
  by (auto simp: listener_port_of_def port_value_def scope_port_def auth_rank_def internal_auth_def split: listener_scope.splits)

lemma spaced_nth:
  assumes "sorted_wrt (\<lambda>a b. a + (100::int) < b) ps" "i < j" "j < length ps"
  shows "ps ! i + 100 < ps ! j"
  using assms by (simp add: sorted_wrt_iff_nth_less)

text \<open>What the configuration promises about the listeners that are built from it.\<close>

definition listener_ok :: "int list \<Rightarrow> Listener \<Rightarrow> bool" where
  "listener_ok ports l \<longleftrightarrow>
     supported_auth (l_auth l) \<and> numbered_ok l \<and>
     (l_scope l \<in> {INTERNAL, CONTROLLER_LISTENER} \<longrightarrow> l_auth l = internal_auth) \<and>
     (l_scope l = EXTRA \<longrightarrow> nat (l_extra_count l) < length ports \<and> l_baseport l = ports ! nat (l_extra_count l))"

lemma port_value_key:
  assumes l: "listener_ok ports l" "listener_ok ports l'" and "port_value l = port_value l'"
    and s: "sorted_wrt (\<lambda>a b. a + (100::int) < b) ports" and r: "\<forall>p \<in> set ports. 20000 < p"
    and e: "(\<forall>p \<in> set ports. 20004 < p) \<or> l_scope l \<noteq> EXTERNAL \<and> l_scope l' \<noteq> EXTERNAL"
  shows "listener_key l = listener_key l'"
proof -
  have sup: "supported_auth (l_auth l)" "supported_auth (l_auth l')" using l by (simp_all add: listener_ok_def)
  have b: "20000 < l_baseport m" "l_scope l \<noteq> EXTERNAL \<and> l_scope l' \<noteq> EXTERNAL \<or> 20004 < l_baseport m"
    if "listener_ok ports m" "l_scope m = EXTRA" for m
    using that r e by (auto simp: listener_ok_def)
  have auth: "l_auth l = l_auth l'" if "auth_rank (l_auth l) = auth_rank (l_auth l')" using auth_rank_inject sup that by blast
  note bounds = auth_rank_bounds [of "l_auth l"] auth_rank_bounds [of "l_auth l'"]
  show ?thesis
  proof (cases "l_scope l = EXTRA \<and> l_scope l' = EXTRA")
    case True
    let ?i = "nat (l_extra_count l)" and ?j = "nat (l_extra_count l')"
    have n: "?i < length ports" "?j < length ports" "l_baseport l = ports ! ?i" "l_baseport l' = ports ! ?j"
        "l_extra_count l \<ge> 0" "l_extra_count l' \<ge> 0"
      using l True by (auto simp: listener_ok_def numbered_ok_def)
    have eq: "auth_rank (l_auth l) + ports ! ?i = auth_rank (l_auth l') + ports ! ?j"
      using assms(3) True n by (simp add: port_value_def)
    have "?i = ?j" using spaced_nth [OF s, of ?i ?j] spaced_nth [OF s, of ?j ?i] eq bounds n by linarith
    then show ?thesis using True n eq auth by (auto simp: listener_key_def)
  next
    case False
    then have "l_scope l = l_scope l'"
      using assms(3) bounds b [OF l(1)] b [OF l(2)] l
      by (cases "l_scope l"; cases "l_scope l'") (auto simp: port_value_def listener_ok_def internal_auth_def)
    with False show ?thesis
      using assms(3) l auth
      by (cases "l_scope l'") (auto simp: port_value_def listener_key_def listener_ok_def numbered_ok_def)
  qed
qed


lemma listener_key_scope [simp]: "fst (listener_key l) = l_scope l"
  by (simp add: listener_key_def)

lemma distinct_scopes:
  "distinct (map listener_key xs) \<Longrightarrow> distinct (map listener_key ys) \<Longrightarrow> (\<forall>x \<in> set xs. \<forall>y \<in> set ys. l_scope x \<noteq> l_scope y)
   \<Longrightarrow> distinct (map listener_key (xs @ ys))"
  by (auto simp: image_iff) (metis listener_key_scope)

lemma all_listeners_shape:
  assumes "all_listeners api w = Inr ls" "collect_ports (cfg_extra_listeners (cfg w)) = Inr ports"
  shows "distinct (map listener_key ls)" and "\<forall>l \<in> set ls. listener_ok ports l"
    and "expose_external (cfg w) = None \<Longrightarrow> \<forall>l \<in> set ls. l_scope l \<noteq> EXTERNAL"
proof -
  from assms(1) obtain i c e x k where i: "internal_listener w = Inr i" and c: "client_listeners api w = Inr c"
    and e: "external_listeners api w = Inr e" and x: "extra_listeners api w = Inr x"
    and k: "(if runs_controller w then controller_listeners w else Inr []) = Inr k" and ls: "ls = [i] @ c @ e @ x @ k"
    by (auto simp: all_listeners_def bindE_Inr)
  from c obtain as where as: "enabled_auth api w = Inr as" by (auto simp: client_listeners_def bindE_Inr)
  note d = enabled_auth_shape [OF as]
  have ki: "listener_key i = (INTERNAL, internal_auth, -1)"
    using i by (auto simp: internal_listener_def bindE_Inr mk_listener_def listener_key_def)
  have kc: "map listener_key c = map (\<lambda>a. (CLIENT, a, -1)) as" using client_listeners_keys [OF c as] .
  have ke: "distinct (map listener_key e)" "\<forall>l \<in> set e. l_scope l = EXTERNAL \<and> l_auth l \<in> set as \<and> l_extra_count l = -1"
    using e external_for_keys [OF _ d(1)] as
    by (auto simp: external_listeners_def bindE_Inr split: option.splits if_splits)
  have kx: "distinct (map listener_key x)" "\<forall>l \<in> set x. l_scope l = EXTRA \<and> l_auth l \<in> set as \<and> 0 \<le> l_extra_count l \<and>
      l_extra_count l < int (length ports) \<and> l_baseport l = ports ! nat (l_extra_count l)"
    using x as extra_entries_listeners [OF assms(2) d(1), of _ 0 x] by (auto simp: extra_listeners_def bindE_Inr)
  have kk: "k = [] \<or> (\<exists>l. k = [l] \<and> listener_key l = (CONTROLLER_LISTENER, internal_auth, -1))"
    using k by (auto simp: controller_listeners_def active_controller_listener_def bindE_Inr mk_listener_def listener_key_def split: if_splits)
  have kc': "\<forall>l \<in> set c. l_scope l = CLIENT \<and> l_auth l \<in> set as \<and> l_extra_count l = -1"
  proof
    fix l assume "l \<in> set c"
    then have "listener_key l \<in> set (map listener_key c)" by simp
    then show "l_scope l = CLIENT \<and> l_auth l \<in> set as \<and> l_extra_count l = -1"
      unfolding kc by (auto simp: listener_key_def)
  qed
  have "distinct (map listener_key c)" unfolding kc using d(1) by (simp add: distinct_map inj_on_def)
  moreover have "distinct (map listener_key k)" "\<forall>l \<in> set k. l_scope l = CONTROLLER_LISTENER \<and> l_auth l = internal_auth \<and> l_extra_count l = -1"
    using kk by (auto simp: listener_key_def)
  moreover have "l_scope i = INTERNAL" "l_auth i = internal_auth" "l_extra_count i = -1" using ki by (auto simp: listener_key_def)
  ultimately show "distinct (map listener_key ls)"
    unfolding ls using kc' ke kx by (intro distinct_scopes) auto
  have int: "supported_auth internal_auth" by (simp add: internal_auth_def supported_auth_iff)
  have sup: "supported_auth (l_auth l)" if "l_auth l \<in> set as" for l :: Listener using d(2) that .
  show "\<forall>l \<in> set ls. listener_ok ports l"
  proof
    fix l assume "l \<in> set ls"
    then consider "l = i" | "l \<in> set c" | "l \<in> set e" | "l \<in> set x" | "l \<in> set k" unfolding ls by auto
    then show "listener_ok ports l"
    proof cases
      case 1
      then show ?thesis using ki int by (simp add: listener_ok_def listener_key_def numbered_ok_def)
    next
      case 2
      then show ?thesis using kc' sup by (simp add: listener_ok_def numbered_ok_def)
    next
      case 3
      then show ?thesis using ke(2) sup by (simp add: listener_ok_def numbered_ok_def)
    next
      case 4
      then show ?thesis using kx(2) sup by (auto simp: listener_ok_def numbered_ok_def)
    next
      case 5
      then show ?thesis using kk int by (auto simp: listener_ok_def listener_key_def numbered_ok_def)
    qed
  qed
  show "\<forall>l \<in> set ls. l_scope l \<noteq> EXTERNAL" if "expose_external (cfg w) = None"
  proof -
    have "e = []" using e that by (simp add: external_listeners_def)
    then show ?thesis using ki kc' kx(2) kk unfolding ls by (auto simp: listener_key_def)
  qed
qed

lemma accepted_ports:
  assumes "extra_listeners_port_values v = Inr ls"
  obtains ports where "collect_ports ls = Inr ports" "sorted_wrt (\<lambda>a b. a + 100 < b) ports" "\<forall>p \<in> set ports. 20000 < p"
proof (cases "v = []")
  case True
  then show thesis using assms that [of "[]"] by (simp add: extra_listeners_port_values_def)
next
  case False
  then obtain ports where "collect_ports ls = Inr ports" "sorted_wrt (\<lambda>a b. a + 100 < b) (0 # ports)"
    using assms extra_listeners_port_values_iff by blast
  then show thesis using that [of ports] collect_ports_range by fastforce
qed



definition extra_world :: "string list \<Rightarrow> string option \<Rightarrow> world" where
  "extra_world entries expose =
     blank_world\<lparr>cfg := default_config\<lparr>cfg_extra_listeners := entries, expose_external := expose,
                                       cfg_roles := ''balancer,broker,controller''\<rparr>,
                 oauth_rel := Some []\<rparr>"

lemma extra_world_cfg [simp]:
  "cfg_extra_listeners (cfg (extra_world entries expose)) = entries" "expose_external (cfg (extra_world entries expose)) = expose"
  by (simp_all add: extra_world_def)

lemma extra_world_auth:
  "enabled_auth api (extra_world entries expose) = Inr [(SASL_PLAINTEXT, SCRAM_SHA_512), (SASL_PLAINTEXT, OAUTHBEARER)]"
proof -
  have t: "\<not> tls_enabled (extra_world entries expose)"
    by (simp add: tls_enabled_def extra_world_def cluster_get_def app_get_def empty_bag_def)
  then show ?thesis
    by (simp add: enabled_auth_def has_mtls_clients_def clients_def default_auth_def runs_balancer_def t)
      (simp add: extra_world_def)
qed

lemma extra_world_unit:
  "unit_name (extra_world entries expose) = ''kafka-k8s/0''" "runs_controller (extra_world entries expose)"
  "unit_id_of ''kafka-k8s/0'' = Inr 0" "internal_address ''kafka-k8s/0'' = Inr ''kafka-k8s-0.kafka-k8s-endpoints''"
  "py_int ''30000'' = Some 30000" "py_int ''30101'' = Some 30101" "py_int ''20003'' = Some 20003"
proof -
  show "unit_name (extra_world entries expose) = ''kafka-k8s/0''" by (simp add: extra_world_def)
  show "runs_controller (extra_world entries expose)" by (simp add: extra_world_def runs_controller_def)
  show "unit_id_of ''kafka-k8s/0'' = Inr 0" "internal_address ''kafka-k8s/0'' = Inr ''kafka-k8s-0.kafka-k8s-endpoints''"
    by code_simp+
qed (simp_all add: py_int_def strip_def rstrip_by_def lstrip_by_def is_space_def is_digit_def digit_val_def)

lemmas extra_world_eval = all_listeners_def internal_listener_def client_listeners_def extra_listeners_def
  controller_listeners_def active_controller_listener_def extra_world_auth extra_world_unit mk_listener_def Let_def

lemmas accepts_eval = extra_listeners_port_values_def listener_port_def isdigit_def is_digit_def


text \<open>An exposed broker can be given an extra listener that binds the port of an external one.\<close>

definition colliding_service :: service where
  "colliding_service =
     \<lparr>svc_name = ''s'', svc_owner = ''uid'', selector = [],
      svc_ports = [\<lparr>sp_port = 29092, target_port = 29092, sp_name = ''kafka-k8s-0-sasl-plaintext-scram-port'', nodePort = 31092\<rparr>,
                   \<lparr>sp_port = 29095, target_port = 29095, sp_name = ''kafka-k8s-0-sasl-plaintext-oauth-port'', nodePort = 31095\<rparr>]\<rparr>"

lemma colliding_nodeports:
  "get_listener_nodeport (sample_api (Some colliding_service)) m (SASL_PLAINTEXT, SCRAM_SHA_512) = Inr 31092"
  "get_listener_nodeport (sample_api (Some colliding_service)) m (SASL_PLAINTEXT, OAUTHBEARER) = Inr 31095"
proof -
  have "get_node_port colliding_service (SASL_PLAINTEXT, SCRAM_SHA_512) = Inr 31092" by code_simp
  moreover have "get_node_port colliding_service (SASL_PLAINTEXT, OAUTHBEARER) = Inr 31095" by code_simp
  ultimately show "get_listener_nodeport (sample_api (Some colliding_service)) m (SASL_PLAINTEXT, SCRAM_SHA_512) = Inr 31092"
    "get_listener_nodeport (sample_api (Some colliding_service)) m (SASL_PLAINTEXT, OAUTHBEARER) = Inr 31095"
    by (simp_all add: get_listener_nodeport_def sample_api_def)
qed

lemma external_port_collision:
  "extra_listeners_port_values ''a:20003'' = Inr [''a:20003''] \<and>
   (\<exists>ps. bindE (all_listeners (sample_api (Some colliding_service)) (extra_world [''a:20003''] (Some ''nodeport''))) (mapE listener_port_of) = Inr ps \<and>
      count_list ps 29095 = 2)"
proof
  show "extra_listeners_port_values ''a:20003'' = Inr [''a:20003'']" by (simp add: accepts_eval extra_world_unit)
  have "get_node_ip (sample_api s) m n = Inr ''10.0.0.1''" for s m n
    by (simp add: get_node_ip_def get_node_def get_pod_def sample_api_def)
  then show "\<exists>ps. bindE (all_listeners (sample_api (Some colliding_service)) (extra_world [''a:20003''] (Some ''nodeport''))) (mapE listener_port_of) = Inr ps \<and>
      count_list ps 29095 = 2"
    by (simp add: extra_world_eval external_listeners_def colliding_nodeports listener_port_of_def scope_port_def internal_auth_def)
qed


subsection \<open>Files do not influence the state\<close>

text \<open>Nothing but the rack file is read back into the properties.\<close>

lemma files_frame_bags [simp]:
  "cluster_get (w\<lparr>files := f\<rparr>) = cluster_get w" "broker_get (w\<lparr>files := f\<rparr>) = broker_get w"
  by (rule ext, simp add: cluster_get_def broker_get_def)+

lemma files_frame_roles [simp]:
  "runs_broker (w\<lparr>files := f\<rparr>) = runs_broker w" "runs_controller (w\<lparr>files := f\<rparr>) = runs_controller w"
  "runs_balancer (w\<lparr>files := f\<rparr>) = runs_balancer w"
  "runs_broker_only (w\<lparr>files := f\<rparr>) = runs_broker_only w" "runs_controller_only (w\<lparr>files := f\<rparr>) = runs_controller_only w"
  by (simp_all add: runs_broker_def runs_controller_def runs_balancer_def runs_broker_only_def runs_controller_only_def)

lemma files_frame_state [simp]:
  "brokers (w\<lparr>files := f\<rparr>) = brokers w"
  "tls_enabled (w\<lparr>files := f\<rparr>) = tls_enabled w"
  "certificate (w\<lparr>files := f\<rparr>) s = certificate w s"
  "tls_ready (w\<lparr>files := f\<rparr>) s = tls_ready w s"
  "default_auth (w\<lparr>files := f\<rparr>) = default_auth w"
  "internal_user_credentials (w\<lparr>files := f\<rparr>) = internal_user_credentials w"
  "client_passwords (w\<lparr>files := f\<rparr>) = client_passwords w"
  "truststore_password (w\<lparr>files := f\<rparr>) = truststore_password w"
  "keystore_password (w\<lparr>files := f\<rparr>) = keystore_password w"
  "manager_of (w\<lparr>files := f\<rparr>) = manager_of w"
  by (simp_all add: brokers_def tls_enabled_def certificate_def tls_ready_def ca_def private_key_def default_auth_def
      internal_user_credentials_def client_passwords_def truststore_password_def keystore_password_def manager_of_def
      fun_eq_iff)

lemma files_frame_cluster [simp]:
  "bootstrap_server_internal (w\<lparr>files := f\<rparr>) = bootstrap_server_internal w"
  "bootstrap_servers_external api (w\<lparr>files := f\<rparr>) = bootstrap_servers_external api w"
  "bootstrap_server_client api (w\<lparr>files := f\<rparr>) = bootstrap_server_client api w"
  "broker_capacities (w\<lparr>files := f\<rparr>) = broker_capacities w"
  "rack_count (w\<lparr>files := f\<rparr>) = rack_count w"
  "peer_cluster_orchestrator (w\<lparr>files := f\<rparr>) = peer_cluster_orchestrator w"
  "peer_cluster (w\<lparr>files := f\<rparr>) = peer_cluster w"
proof -
  show i: "bootstrap_server_internal (w\<lparr>files := f\<rparr>) = bootstrap_server_internal w"
    by (simp add: bootstrap_server_internal_def)
  show e: "bootstrap_servers_external api (w\<lparr>files := f\<rparr>) = bootstrap_servers_external api w"
    by (simp add: bootstrap_servers_external_def)
  show "bootstrap_server_client api (w\<lparr>files := f\<rparr>) = bootstrap_server_client api w"
    by (simp add: bootstrap_server_client_def e)
  show c: "broker_capacities (w\<lparr>files := f\<rparr>) = broker_capacities w"
    by (simp add: broker_capacities_def broker_capacities_snapshot_def)
  show r: "rack_count (w\<lparr>files := f\<rparr>) = rack_count w" by (simp add: rack_count_def)
  show o: "peer_cluster_orchestrator (w\<lparr>files := f\<rparr>) = peer_cluster_orchestrator w"
    by (simp add: peer_cluster_orchestrator_def Let_def)
  show "peer_cluster (w\<lparr>files := f\<rparr>) = peer_cluster w"
    by (simp add: peer_cluster_def Let_def i c r o cong: if_cong)
qed

lemma files_frame_clients [simp]:
  "clients api (w\<lparr>files := f\<rparr>) = clients api w"
  "has_mtls_clients api (w\<lparr>files := f\<rparr>) = has_mtls_clients api w"
  "enabled_auth api (w\<lparr>files := f\<rparr>) = enabled_auth api w"
  "super_users (w\<lparr>files := f\<rparr>) = super_users w"
  "log_dirs (w\<lparr>files := f\<rparr>) = log_dirs w"
  "metadata_log_dir (w\<lparr>files := f\<rparr>) = metadata_log_dir w"
proof -
  have "client_admin (w\<lparr>files := f\<rparr>) = client_admin w" by (simp add: fun_eq_iff client_admin_def)
  then show "super_users (w\<lparr>files := f\<rparr>) = super_users w"
    by (cases "runs_controller_only w") (simp_all add: super_users_def Let_def)
  show c: "clients api (w\<lparr>files := f\<rparr>) = clients api w" by (simp add: clients_def cong: option.case_cong)
  show m: "has_mtls_clients api (w\<lparr>files := f\<rparr>) = has_mtls_clients api w" by (simp add: has_mtls_clients_def c)
  show "enabled_auth api (w\<lparr>files := f\<rparr>) = enabled_auth api w" by (simp add: enabled_auth_def m)
qed (simp_all add: log_dirs_def metadata_log_dir_def)

lemma external_for_frame [simp]: "external_for api (w\<lparr>files := f\<rparr>) as = external_for api w as"
proof (induction as)
  case (Cons a as)
  then have IH: "external_for api (w\<lparr>files := f\<rparr>) as = external_for api w as" .
  show ?case
  proof (cases "get_listener_nodeport api (manager_of w (unit_name w)) a")
    case (Inl e)
    then show ?thesis by (cases e) (simp_all add: Let_def IH)
  qed (simp add: Let_def IH)
qed simp

lemma files_frame_listeners [simp]:
  "internal_listener (w\<lparr>files := f\<rparr>) = internal_listener w"
  "controller_listeners (w\<lparr>files := f\<rparr>) = controller_listeners w"
  "client_listeners api (w\<lparr>files := f\<rparr>) = client_listeners api w"
  "external_listeners api (w\<lparr>files := f\<rparr>) = external_listeners api w"
  "extra_listeners api (w\<lparr>files := f\<rparr>) = extra_listeners api w"
  "all_listeners api (w\<lparr>files := f\<rparr>) = all_listeners api w"
proof -
  have "external_for api (w\<lparr>files := f\<rparr>) = external_for api w" by (rule ext) simp
  then show 1: "external_listeners api (w\<lparr>files := f\<rparr>) = external_listeners api w"
    by (simp add: external_listeners_def split: option.splits)
  show "internal_listener (w\<lparr>files := f\<rparr>) = internal_listener w"
    "controller_listeners (w\<lparr>files := f\<rparr>) = controller_listeners w"
    "client_listeners api (w\<lparr>files := f\<rparr>) = client_listeners api w"
    "extra_listeners api (w\<lparr>files := f\<rparr>) = extra_listeners api w"
    by (simp_all add: internal_listener_def controller_listeners_def active_controller_listener_def
        client_listeners_def extra_listeners_def)
  then show "all_listeners api (w\<lparr>files := f\<rparr>) = all_listeners api w" by (simp add: all_listeners_def 1)
qed

lemma files_frame_properties [simp]:
  "tls_properties (w\<lparr>files := f\<rparr>) = tls_properties w"
  "client_tls_properties (w\<lparr>files := f\<rparr>) = client_tls_properties w"
  "mtls_properties api (w\<lparr>files := f\<rparr>) = mtls_properties api w"
  "scram_properties api (w\<lparr>files := f\<rparr>) = scram_properties api w"
  "controller_scram_properties (w\<lparr>files := f\<rparr>) = controller_scram_properties w"
  "oauth_properties env (w\<lparr>files := f\<rparr>) = oauth_properties env w"
  "metrics_reporter_properties (w\<lparr>files := f\<rparr>) = metrics_reporter_properties w"
  "controller_properties (w\<lparr>files := f\<rparr>) = controller_properties w"
  "config_properties (w\<lparr>files := f\<rparr>) = config_properties w"
  "default_replication_properties (w\<lparr>files := f\<rparr>) = default_replication_properties w"
  by (simp_all add: tls_properties_def store_properties_def client_tls_properties_def mtls_properties_def
      scram_properties_def controller_scram_properties_def oauth_properties_def oauth_get_def jwt_access_token_def
      metrics_reporter_properties_def build_internal_client_properties_def controller_properties_def
      config_properties_def default_replication_properties_def cong: if_cong list.case_cong)

lemma server_properties_frame:
  assumes "map_of f rack_path = map_of (files w) rack_path"
  shows "server_properties_of env (w\<lparr>files := f\<rparr>) = server_properties_of env w"
proof -
  have "rack_properties (w\<lparr>files := f\<rparr>) = rack_properties w"
    using assms by (simp add: rack_properties_def workload_read_def)
  then show ?thesis by (simp add: server_properties_of_def Let_def cong: if_cong)
qed


text \<open>C22: once the properties are written, nothing counts as changed until the state itself
  changes: the comparison of the file with freshly computed properties is empty, so a unit that
  has just been configured is not restarted again.\<close>

theorem properties_settle:
  assumes "server_properties_of env w = Inr ps" and "ps \<noteq> []" and "\<forall>p \<in> set ps. CHR 0x0A \<notin> set p"
  shows "\<exists>w'. set_server_properties env w = (Inr (), w') \<and> properties_changed env w' = Inr {} \<and>
    workload_read w' (server_properties BROKER) = ps \<and> (\<forall>f. w'\<lparr>files := f\<rparr> = w\<lparr>files := f\<rparr>)"
proof -
  let ?f = "dset (server_properties BROKER) (join [CHR 0x0A] ps) (files w)"
  let ?w = "w\<lparr>files := ?f\<rparr>"
  have ne: "rack_path \<noteq> server_properties BROKER"
    by (simp add: rack_path_def server_properties_def)
  have sp: "server_properties_of env ?w = Inr ps"
    using server_properties_frame [of ?f w env] ne assms(1) by simp
  have rd: "workload_read ?w (server_properties BROKER) = ps"
    using assms(2,3) by (simp add: workload_read_def split_char_join)
  have "set_server_properties env w = (Inr (), ?w)"
    using assms(1) by (simp add: set_server_properties_def workload_write_def bindM_apply)
  moreover have "properties_changed env ?w = Inr {}" using sp rd assms(2) by (simp add: properties_changed_def)
  ultimately show ?thesis using rd by simp
qed


definition controller_world :: world where
  "controller_world = blank_world\<lparr>cfg := default_config\<lparr>cfg_roles := ''controller''\<rparr>\<rparr>"

lemma controller_world_properties:
  "case server_properties_of silent_env controller_world of
     Inr ps \<Rightarrow> ps \<noteq> [] \<and> list_all (\<lambda>p. CHR 0x0A \<notin> set p) ps | Inl e \<Rightarrow> False"
  by code_simp


theorem properties_settle_witness:
  "\<exists>w'. set_server_properties silent_env controller_world = (Inr (), w') \<and> properties_changed silent_env w' = Inr {}"
proof -
  obtain ps where "server_properties_of silent_env controller_world = Inr ps" "ps \<noteq> []" "\<forall>p \<in> set ps. CHR 0x0A \<notin> set p"
    using controller_world_properties by (auto simp: list_all_iff split: sum.splits)
  from properties_settle [OF this] show ?thesis by blast
qed

subsection \<open>The environment file\<close>

lemma map_env_fold:
  "map_of (fold (\<lambda>var m. let (k, v) = env_var var in if k \<noteq> [] then dset k v m else m) vars m) =
   map_of m ++ map_of (rev (filter (\<lambda>(k, v). k \<noteq> []) (map env_var vars)))"
proof (induction vars arbitrary: m)
  case (Cons var vars)
  obtain k v where "env_var var = (k, v)" by fastforce
  then show ?case using Cons by (auto simp: map_add_def fun_eq_iff split: option.splits)
qed simp

lemma lookup_map_env: "map_of (map_env vars) = map_of (rev (filter (\<lambda>(k, v). k \<noteq> []) (map env_var vars)))"
  unfolding map_env_def map_env_fold by simp

lemma env_var_content: "CHR ''='' \<notin> set k \<Longrightarrow> env_var (k @ ''='' @ v) = (k, v)"
  using split1_append [of "CHR ''=''" k v] by (simp add: env_var_def)

lemma env_var_key: "CHR ''='' \<notin> set (fst (env_var var))"
  using split1_eq [of "CHR ''=''" var] by (auto simp: env_var_def)

definition env_ok :: "(string, string) dict \<Rightarrow> bool" where
  "env_ok e \<longleftrightarrow> wf_dict e \<and> (\<forall>(k, v) \<in> set e. k \<noteq> [] \<and> CHR ''='' \<notin> set k \<and> CHR 0x0A \<notin> set k \<and> CHR 0x0A \<notin> set v)"

lemma env_ok_Nil [simp]: "env_ok []"
  by (simp add: env_ok_def)

lemma env_ok_dset: "env_ok e \<Longrightarrow> k \<noteq> [] \<Longrightarrow> CHR ''='' \<notin> set k \<Longrightarrow> CHR 0x0A \<notin> set k \<Longrightarrow> CHR 0x0A \<notin> set v \<Longrightarrow> env_ok (dset k v e)"
proof -
  have "set (dset k v e) \<subseteq> insert (k, v) (set e)"
    unfolding dset_def by (induction e) auto
  then show "env_ok e \<Longrightarrow> k \<noteq> [] \<Longrightarrow> CHR ''='' \<notin> set k \<Longrightarrow> CHR 0x0A \<notin> set k \<Longrightarrow> CHR 0x0A \<notin> set v \<Longrightarrow> env_ok (dset k v e)"
    unfolding env_ok_def by fastforce
qed

lemma env_var_chars: "set (fst (env_var var)) \<subseteq> set var" "set (snd (env_var var)) \<subseteq> set var"
  using split1_eq [of "CHR ''=''" var] by (auto simp: env_var_def)

lemma env_ok_map_env: "\<forall>var \<in> set vars. CHR 0x0A \<notin> set var \<Longrightarrow> env_ok (map_env vars)"
proof -
  have "\<forall>var \<in> set vars. CHR 0x0A \<notin> set var \<Longrightarrow> env_ok m \<Longrightarrow>
    env_ok (fold (\<lambda>var m. let (k, v) = env_var var in if k \<noteq> [] then dset k v m else m) vars m)" for m
  proof (induction vars arbitrary: m)
    case (Cons var vars)
    obtain k v where kv: "env_var var = (k, v)" by fastforce
    have "CHR 0x0A \<notin> set k" "CHR 0x0A \<notin> set v" "CHR ''='' \<notin> set k"
      using env_var_chars [of var] env_var_key [of var] Cons.prems kv by auto
    then have "env_ok (if k \<noteq> [] then dset k v m else m)" using Cons.prems env_ok_dset by auto
    then show ?case using Cons.IH [of "if k \<noteq> [] then dset k v m else m"] Cons.prems kv by simp
  qed simp
  then show "\<forall>var \<in> set vars. CHR 0x0A \<notin> set var \<Longrightarrow> env_ok (map_env vars)"
    unfolding map_env_def by simp
qed

lemma env_ok_dmerge: "env_ok d \<Longrightarrow> env_ok e \<Longrightarrow> env_ok (dmerge d e)"
proof -
  have "\<forall>(k, v) \<in> set e. k \<noteq> [] \<and> CHR ''='' \<notin> set k \<and> CHR 0x0A \<notin> set k \<and> CHR 0x0A \<notin> set v \<Longrightarrow> env_ok d \<Longrightarrow> env_ok (dmerge d e)" for d
    unfolding dmerge_def by (induction e arbitrary: d) (auto simp: env_ok_dset)
  then show "env_ok d \<Longrightarrow> env_ok e \<Longrightarrow> env_ok (dmerge d e)" by (auto simp: env_ok_def)
qed

text \<open>Writing an environment and parsing the file gives the environment back.\<close>

lemma map_env_content:
  assumes "env_ok e"
  shows "map_of (map_env (split_char (CHR 0x0A) (env_content e))) = map_of e"
proof (cases "e = []")
  case True
  then show ?thesis by (simp add: env_content_def map_env_def env_var_def split1_def)
next
  case False
  let ?ls = "map (\<lambda>(k, v). k @ ''='' @ v) e"
  have "split_char (CHR 0x0A) (env_content e) = ?ls"
    unfolding env_content_def using False assms by (intro split_char_join) (auto simp: env_ok_def)
  moreover have "map env_var ?ls = e"
    using assms by (intro map_idI [of e "env_var \<circ> (\<lambda>(k, v). k @ ''='' @ v)", unfolded map_map [symmetric]])
      (auto simp: env_ok_def env_var_content simp del: append_Cons)
  moreover have "filter (\<lambda>(k, v). k \<noteq> []) e = e" using assms by (auto simp: env_ok_def filter_id_conv)
  moreover have "map_of (rev e) = map_of e" using assms by (simp add: map_of_rev_wf env_ok_def)
  ultimately show ?thesis unfolding lookup_map_env by simp
qed


text \<open>Writing the environment file sets exactly the variables of the charm: read back, each of
  them has its new value and every other variable of the file the value it had.\<close>

theorem set_environment_preserves_others:
  assumes "broker_env_vars env w = Inr vars" and "\<forall>var \<in> set vars. CHR 0x0A \<notin> set var"
  shows "\<exists>w'. set_environment env w = (Inr (), w') \<and>
    (let old = map_of (map_env (workload_read w ENVIRONMENT_FILE));
         new = map_of (map_env (workload_read w' ENVIRONMENT_FILE))
     in new = old ++ map_of (map_env vars)) \<and>
    dom (map_of (map_env vars)) =
      {''KAFKA_OPTS'', ''KAFKA_JMX_OPTS'', ''CC_JMX_OPTS'', ''KAFKA_JVM_PERFORMANCE_OPTS'', ''KAFKA_HEAP_OPTS'', ''KAFKA_CFG_LOGLEVEL''}"
proof -
  let ?e = "updated_env w vars"
  have lines: "\<forall>var \<in> set (workload_read w ENVIRONMENT_FILE). CHR 0x0A \<notin> set var"
    using split_char_elems by (auto simp: workload_read_def split: option.splits)
  have "env_ok ?e" unfolding updated_env_def
    using env_ok_dmerge env_ok_map_env [OF lines] env_ok_map_env [OF assms(2)] by blast
  note content = map_env_content [OF this]
  have ve: "env_ok (map_env vars)" using env_ok_map_env [OF assms(2)] .
  have "set_environment env w = (Inr (), w\<lparr>files := dset ENVIRONMENT_FILE (env_content ?e) (files w)\<rparr>)" (is "_ = (_, ?w)")
    using assms(1) by (simp add: set_environment_def workload_write_def bindM_apply)
  moreover have "map_of (map_env (workload_read ?w ENVIRONMENT_FILE)) = map_of ?e"
    using content by (simp add: workload_read_def)
  moreover have "map_of ?e = map_of (map_env (workload_read w ENVIRONMENT_FILE)) ++ map_of (map_env vars)"
    using ve by (simp add: updated_env_def map_of_rev_wf env_ok_def)
  moreover have "dom (map_of (map_env vars)) = {''KAFKA_OPTS'', ''KAFKA_JMX_OPTS'', ''CC_JMX_OPTS'',
      ''KAFKA_JVM_PERFORMANCE_OPTS'', ''KAFKA_HEAP_OPTS'', ''KAFKA_CFG_LOGLEVEL''}"
  proof -
    have q: "env_var (quoted_opts n opts) = (n, [SQ] @ join '' '' opts @ [SQ])" if "CHR ''='' \<notin> set n" for n opts
      using env_var_content [OF that] by (simp add: quoted_opts_def)
    have l: "fst (env_var (log_level w)) = ''KAFKA_CFG_LOGLEVEL''"
      using env_var_content [of "''KAFKA_CFG_LOGLEVEL''"] by (simp add: log_level_def)
    obtain opts where "vars = [quoted_opts ''KAFKA_OPTS'' opts, kafka_jmx_opts, cc_jmx_opts, jvm_performance_opts, heap_opts w, log_level w]"
      using assms(1) by (auto simp: broker_env_vars_def kafka_opts_def bindE_Inr Let_def auxiliary_paths_def)
    then show ?thesis unfolding lookup_map_env dom_map_of_conv_image_fst
      using l by (auto simp: q kafka_jmx_opts_def cc_jmx_opts_def jvm_performance_opts_def heap_opts_def Let_def
          case_prod_beta image_iff)
  qed
  ultimately show ?thesis by simp
qed

theorem set_environment_preserves_others_witness:
  "\<exists>w'. set_environment silent_env (blank_world\<lparr>files := [(''/etc/environment'', ''PATH=/bin'')]\<rparr>) = (Inr (), w') \<and>
     map_of (map_env (workload_read w' ENVIRONMENT_FILE)) ''PATH'' = Some ''/bin''"
proof -
  let ?w = "blank_world\<lparr>files := [(''/etc/environment'', ''PATH=/bin'')]\<rparr>"
  have "CHR 0x0A \<notin> set (str_int i)" for i using str_int_chars [of "CHR 0x0A" i] by (auto simp: is_digit_def)
  then have "case broker_env_vars silent_env ?w of Inr vars \<Rightarrow> list_all (\<lambda>v. CHR 0x0A \<notin> set v) vars | Inl e \<Rightarrow> False"
    by (simp add: broker_env_vars_def kafka_opts_def proxy_opt_def silent_env_def quoted_opts_def SQ_def kafka_jmx_opts_def
        cc_jmx_opts_def jvm_performance_opts_def heap_opts_def log_level_def auxiliary_paths_def Let_def default_config_def
        jmx_prometheus_javaagent_def jmx_prometheus_config_def jmx_cc_config_def binaries_path_def BROKER_def BALANCER_def
        PATHS_KAFKA_def PATHS_CRUISE_CONTROL_def)
  then obtain vars where v: "broker_env_vars silent_env ?w = Inr vars" "\<forall>var \<in> set vars. CHR 0x0A \<notin> set var"
    by (auto simp: list_all_iff split: sum.splits)
  from set_environment_preserves_others [OF v] obtain w' where w': "set_environment silent_env ?w = (Inr (), w')"
    "map_of (map_env (workload_read w' ENVIRONMENT_FILE)) = map_of (map_env (workload_read ?w ENVIRONMENT_FILE)) ++ map_of (map_env vars)"
    and d: "dom (map_of (map_env vars)) = {''KAFKA_OPTS'', ''KAFKA_JMX_OPTS'', ''CC_JMX_OPTS'', ''KAFKA_JVM_PERFORMANCE_OPTS'',
      ''KAFKA_HEAP_OPTS'', ''KAFKA_CFG_LOGLEVEL''}" unfolding Let_def by blast
  have "workload_read ?w ENVIRONMENT_FILE = [''PATH=/bin'']" by (simp add: workload_read_def ENVIRONMENT_FILE_def)
  moreover have "map_of (map_env [''PATH=/bin'']) ''PATH'' = Some ''/bin''" by code_simp
  moreover have "map_of (map_env vars) ''PATH'' = None"
  proof -
    have "''PATH'' \<notin> dom (map_of (map_env vars))" unfolding d by simp
    then show ?thesis by blast
  qed
  ultimately have "map_of (map_env (workload_read w' ENVIRONMENT_FILE)) ''PATH'' = Some ''/bin''"
    unfolding w'(2) map_add_def by simp
  then show ?thesis using w'(1) by blast
qed


subsection \<open>Balancer goals\<close>

text \<open>The lists of goal names the configuration can choose.\<close>

lemma goal_names_cases:
  assumes "goal_names w = Inr names"
  shows "\<exists>rack \<in> {[], [''RackAware''], [''RackAwareDistribution'']}.
    names = (if profile (cfg w) = ''testing'' then BALANCER_GOALS_TESTING else DEFAULT_BALANCER_GOALS) @ rack"
  using assms by (auto simp: goal_names_def bindE_Inr Let_def split: if_splits)

text \<open>The goals Cruise Control must not violate. They are always among the default goals and
  contain every configured hard goal that is used; because a goal counts as hard when a hard
  goal's name occurs anywhere in it, the two soft goals for leader replicas and for the replicas
  of a topic become hard goals as well.\<close>

theorem hard_goals_selected:
  assumes "goal_names w = Inr names"
  shows "filter is_hard_goal (map goal_class names) =
    map goal_class (filter (\<lambda>g. g \<in> set (HARD_BALANCER_GOALS @ [''LeaderReplicaDistribution'', ''TopicReplicaDistribution''])) names)"
proof -
  have d: "filter is_hard_goal (map goal_class DEFAULT_BALANCER_GOALS) =
      map goal_class (filter (\<lambda>g. g \<in> set (HARD_BALANCER_GOALS @ [''LeaderReplicaDistribution'', ''TopicReplicaDistribution''])) DEFAULT_BALANCER_GOALS)"
    by code_simp
  have t: "filter is_hard_goal (map goal_class BALANCER_GOALS_TESTING) =
      map goal_class (filter (\<lambda>g. g \<in> set (HARD_BALANCER_GOALS @ [''LeaderReplicaDistribution'', ''TopicReplicaDistribution''])) BALANCER_GOALS_TESTING)"
    by code_simp
  have r: "\<not> is_hard_goal (goal_class ''RackAware'')" "\<not> is_hard_goal (goal_class ''RackAwareDistribution'')" by code_simp+
  have n: "''RackAware'' \<notin> set (HARD_BALANCER_GOALS @ [''LeaderReplicaDistribution'', ''TopicReplicaDistribution''])"
    "''RackAwareDistribution'' \<notin> set (HARD_BALANCER_GOALS @ [''LeaderReplicaDistribution'', ''TopicReplicaDistribution''])"
    by (simp_all add: HARD_BALANCER_GOALS_def)
  from goal_names_cases [OF assms] obtain rack where rack: "rack \<in> {[], [''RackAware''], [''RackAwareDistribution'']}"
    and names: "names = (if profile (cfg w) = ''testing'' then BALANCER_GOALS_TESTING else DEFAULT_BALANCER_GOALS) @ rack" by blast
  have "filter is_hard_goal (map goal_class rack) = []"
    "filter (\<lambda>g. g \<in> set (HARD_BALANCER_GOALS @ [''LeaderReplicaDistribution'', ''TopicReplicaDistribution''])) rack = []"
    using rack r n by (auto simp del: set_append)
  then show ?thesis unfolding names by (simp only: map_append filter_append d t list.map append_Nil2 split: if_splits) simp
qed

theorem hard_goals_selected_witness:
  "\<exists>names. goal_names blank_world = Inr names \<and>
     goal_class ''TopicReplicaDistribution'' \<in> set (filter is_hard_goal (map goal_class names))"
proof -
  have g: "goal_names blank_world = Inr DEFAULT_BALANCER_GOALS" by code_simp
  have "''TopicReplicaDistribution'' \<in> set (filter (\<lambda>g. g \<in> set (HARD_BALANCER_GOALS @ [''LeaderReplicaDistribution'', ''TopicReplicaDistribution''])) DEFAULT_BALANCER_GOALS)"
    by code_simp
  then have "goal_class ''TopicReplicaDistribution'' \<in> set (filter is_hard_goal (map goal_class DEFAULT_BALANCER_GOALS))"
    unfolding hard_goals_selected [OF g] by (simp only: set_map imageI)
  with g show ?thesis by blast
qed

end
