(* ===== verification/Controller_Manager.thy ===== *)
theory Controller_Manager
  imports Config_Manager
begin

text \<open>
  \<^verbatim>\<open>managers/controller.py\<close>: the KRaft controller quorum, managed through the
  \<^verbatim>\<open>kafka-storage\<close> and \<^verbatim>\<open>kafka-metadata-quorum\<close> tools. The waiting times of the retried calls are
  not modelled, their numbers of attempts are.
\<close>

section \<open>Formatting and identifiers\<close>

definition data_path :: "role \<Rightarrow> string" where
  "data_path r = DATA (role_paths r)"

definition format_command :: "string \<Rightarrow> (string, string) dict \<Rightarrow> int \<Rightarrow> string option \<Rightarrow> string list" where
  "format_command uuid credentials kraft_version initial_controllers =
     [''format'', ''--ignore-formatted'', ''--cluster-id'', uuid, ''-c'', server_properties BROKER]
     @ (if kraft_version > 0
        then [''--feature'', ''kraft.version='' @ str_int kraft_version]
             @ (case initial_controllers of
                  None \<Rightarrow> [''--standalone'']
                | Some c \<Rightarrow> if c = [] then [''--standalone''] else [''--initial-controllers'', c])
        else [])
     @ concat (map (\<lambda>(user, password).
         [''--add-scram'', ''SCRAM-SHA-512=[name='' @ user @ '',password='' @ password @ '']'']) credentials)"

definition format_storages :: "env \<Rightarrow> string \<Rightarrow> (string, string) dict \<Rightarrow> int \<Rightarrow> string option \<Rightarrow> unit hook" where
  "format_storages env uuid credentials kraft_version initial_controllers =
     thenM (exec env [''chown'', ''-R'', ''root:root'', data_path BROKER] [])
     (thenM (run_bin_command env ''storage'' (format_command uuid credentials kraft_version initial_controllers) [])
     (thenM (exec env [''chmod'', ''-R'', ''750'', data_path BROKER] [])
     (thenM (exec env [''chown'', ''-R'', USER_ID @ '':'' @ GROUP, data_path BROKER] []) skip)))"

definition generate_uuid :: "env \<Rightarrow> string hook" where
  "generate_uuid env = bindM (run_bin_command env ''storage'' [''random-uuid''] []) (\<lambda>out. ret (strip out))"

text \<open>\<^verbatim>\<open>os.path.join(log_dirs, "meta.properties")\<close>\<close>

definition path_join :: "string \<Rightarrow> string \<Rightarrow> string" where
  "path_join d f = (if d = [] then f else if last d = CHR ''/'' then d @ f else d @ ''/'' @ f)"

fun directory_id_of_lines :: "string list \<Rightarrow> string" where
  "directory_id_of_lines [] = []"
| "directory_id_of_lines (line # ls) =
     (if startswith line ''directory.id'' then replace ''directory.id='' [] (strip line)
      else directory_id_of_lines ls)"

definition get_metadata_directory_id :: "world \<Rightarrow> string \<Rightarrow> string" where
  "get_metadata_directory_id w dirs = directory_id_of_lines (workload_read w (path_join dirs ''meta.properties''))"


section \<open>Membership of the quorum\<close>

text \<open>\<^verbatim>\<open>retry(stop=stop_after_attempt(n), reraise=True)\<close>: any exception starts another attempt, the last
  one is raised.\<close>

fun retryM :: "nat \<Rightarrow> ('s, 'a) prog \<Rightarrow> ('s, 'a) prog" where
  "retryM 0 c = c"
| "retryM (Suc 0) c = c"
| "retryM (Suc (Suc n)) c = tryM c (\<lambda>_. True) (\<lambda>_. retryM (Suc n) c)"

definition error_details :: "exn \<Rightarrow> string" where
  "error_details e = (case e of CommandError out \<Rightarrow> out | _ \<Rightarrow> [])"

definition quorum_args :: "string \<Rightarrow> string list \<Rightarrow> string list" where
  "quorum_args node args =
     [''--bootstrap-controller'', node, ''--command-config'', kraft_client_properties BROKER] @ args"

definition add_controller_once :: "env \<Rightarrow> string \<Rightarrow> string hook" where
  "add_controller_once env node =
     thenM (tryM (thenM (run_bin_command env ''metadata-quorum'' (quorum_args node [''add-controller'']) []) skip)
              is_command_error
              (\<lambda>e. if contains ''DuplicateVoterException'' (error_details e) then skip else raise e))
       (bindM (readM (\<lambda>w. get_metadata_directory_id w (metadata_log_dir w))) ret)"

definition add_controller :: "env \<Rightarrow> string \<Rightarrow> string hook" where
  "add_controller env node = retryM 4 (add_controller_once env node)"

definition remove_controller_once :: "env \<Rightarrow> int \<Rightarrow> string \<Rightarrow> string \<Rightarrow> unit hook" where
  "remove_controller_once env i dir node =
     bindM (readM (\<lambda>w. if node = [] then cluster_get w ''bootstrap-controller'' else node)) (\<lambda>node.
       tryM (thenM (run_bin_command env ''metadata-quorum''
                (quorum_args node [''remove-controller'', ''--controller-id'', str_int i, ''--controller-directory-id'', dir]) [])
              skip)
         is_command_error
         (\<lambda>e. if contains ''VoterNotFoundException'' (error_details e) \<or> contains ''TimeoutException'' (error_details e)
              then skip else raise e))"

definition remove_controller :: "env \<Rightarrow> int \<Rightarrow> string \<Rightarrow> string \<Rightarrow> unit hook" where
  "remove_controller env i dir node = retryM 3 (remove_controller_once env i dir node)"


section \<open>Status of the quorum\<close>

definition parse_lag_col :: "string \<Rightarrow> int" where
  "parse_lag_col s = (case py_int s of None \<Rightarrow> -1 | Some i \<Rightarrow> i)"

definition TAB :: char where "TAB = CHR 0x09"

text \<open>One line of the table. A line with a bad identifier, too few columns or an unknown status is skipped.\<close>

definition parse_quorum_line :: "string \<Rightarrow> (int \<times> kraft_quorum_info) option" where
  "parse_quorum_line line =
     (let cols = map strip (split_char TAB line)
      in if length cols \<le> 6 then None
         else case (py_int (cols ! 0), kraft_unit_status_of (cols ! 6)) of
                (Some i, Some st) \<Rightarrow>
                  Some (i, \<lparr>directory_id = cols ! 1, lag = parse_lag_col (cols ! 3), quorum_status = st\<rparr>)
              | _ \<Rightarrow> None)"

definition parse_quorum :: "string \<Rightarrow> (int, kraft_quorum_info) dict" where
  "parse_quorum out =
     fold (\<lambda>line d. case parse_quorum_line line of None \<Rightarrow> d | Some (i, info) \<Rightarrow> dset i info d)
       (split_char (CHR 0x0A) out) []"

definition quorum_status_of :: "env \<Rightarrow> (int, kraft_quorum_info) dict hook" where
  "quorum_status_of env =
     bindM (readM peer_cluster) (\<lambda>r. bindM (liftE r) (\<lambda>pc.
       if bootstrap_controller pc = [] then ret []
       else bindM (readM can_connect) (\<lambda>conn.
            bindM (readM (env_connect env)) (\<lambda>up.
            bindM (liftE (ping up (bootstrap_controller pc))) (\<lambda>ok.
              if \<not> (conn \<and> ok) then ret []
              else tryM (bindM (run_bin_command env ''metadata-quorum''
                       (quorum_args (bootstrap_controller pc) [''describe'', ''--replication'']) []) (\<lambda>out.
                     ret (parse_quorum out)))
                   is_command_error (\<lambda>e. ret []))))))"

definition expected_statuses :: "world \<Rightarrow> kraft_unit_status list" where
  "expected_statuses w = (if runs_controller w then [LEADER, FOLLOWER] else [OBSERVER])"

definition is_active :: "world \<Rightarrow> int \<Rightarrow> (int, kraft_quorum_info) dict \<Rightarrow> bool" where
  "is_active w i st =
     (case map_of st i of
        None \<Rightarrow> False
      | Some info \<Rightarrow> quorum_status info \<in> set (expected_statuses w) \<and> lag info \<ge> 0)"

definition broker_active :: "env \<Rightarrow> bool hook" where
  "broker_active env =
     bindM (quorum_status_of env) (\<lambda>st.
     bindM (readM (\<lambda>w. broker_id_of (unit_name w))) (\<lambda>r. bindM (liftE r) (\<lambda>i.
     bindM (readM (\<lambda>w. is_active w i st)) ret)))"

definition online_brokers :: "env \<Rightarrow> int set hook" where
  "online_brokers env =
     bindM (quorum_status_of env) (\<lambda>st. ret {i \<in> set (keys st). i \<ge> KRAFT_NODE_ID_OFFSET})"

definition departing_brokers :: "env \<Rightarrow> int set hook" where
  "departing_brokers env =
     bindM (online_brokers env) (\<lambda>on.
       if on = {} then ret {}
       else bindM (readM active_brokers_on_relation) (\<lambda>r. bindM (liftE r) (\<lambda>act. ret (on - act))))"


section \<open>Properties\<close>

subsection \<open>The table of the quorum\<close>

text \<open>
  What \<^verbatim>\<open>kafka-metadata-quorum describe --replication\<close> prints: a line of column names and a line
  per node, every column padded with spaces and followed by a tab.
\<close>

record quorum_row =
  row_id :: int
  row_dir :: string
  row_end :: int
  row_lag :: int
  row_fetch :: int
  row_caught :: int
  row_status :: kraft_unit_status

fun status_word :: "kraft_unit_status \<Rightarrow> string" where
  "status_word LEADER = ''Leader''"
| "status_word FOLLOWER = ''Follower''"
| "status_word OBSERVER = ''Observer''"

definition padded :: "nat \<Rightarrow> string \<Rightarrow> string" where
  "padded n c = c @ replicate (n - length c) (CHR '' '')"

definition table_line :: "nat \<Rightarrow> string list \<Rightarrow> string" where
  "table_line n cs = join [TAB] (map (padded n) cs @ [[]])"

definition row_cells :: "quorum_row \<Rightarrow> string list" where
  "row_cells r =
     [str_int (row_id r), row_dir r, str_int (row_end r), str_int (row_lag r), str_int (row_fetch r),
      str_int (row_caught r), status_word (row_status r)]"

definition HEADER_CELLS :: "string list" where
  "HEADER_CELLS =
     [''NodeId'', ''DirectoryId'', ''LogEndOffset'', ''Lag'', ''LastFetchTimestamp'', ''LastCaughtUpTimestamp'', ''Status'']"

definition quorum_table :: "nat \<Rightarrow> quorum_row list \<Rightarrow> string" where
  "quorum_table n rows = join [CHR 0x0A] (map (table_line n) (HEADER_CELLS # map row_cells rows))"

definition row_info :: "quorum_row \<Rightarrow> kraft_quorum_info" where
  "row_info r = \<lparr>directory_id = row_dir r, lag = row_lag r, quorum_status = row_status r\<rparr>"

definition row_ok :: "quorum_row \<Rightarrow> bool" where
  "row_ok r \<longleftrightarrow> no_space (row_dir r)"

lemma strip_padded: "no_space c \<Longrightarrow> strip (padded n c) = c"
proof -
  assume "no_space c"
  then have c: "\<forall>x \<in> set c. \<not> is_space x" by (auto simp: no_space_def list_all_iff)
  have sp: "is_space (CHR '' '')" by (simp add: is_space_def)
  have "dropWhile is_space (replicate k (CHR '' '') @ rev c) = rev c" for k
    using c sp by (induction k) (auto simp: dropWhile_none)
  then have r: "rstrip_by is_space (padded n c) = c" by (simp add: rstrip_by_def padded_def)
  show ?thesis
  proof (cases "c = []")
    case True
    have "dropWhile is_space (replicate k (CHR '' '')) = []" for k using sp by (induction k) auto
    then show ?thesis using True by (simp add: strip_def lstrip_by_def rstrip_by_def padded_def)
  next
    case False
    then have "dropWhile is_space (padded n c) = padded n c" using c by (cases c) (auto simp: padded_def)
    then show ?thesis using r by (simp add: strip_def lstrip_by_def)
  qed
qed

lemma no_space_str_int: "no_space (str_int i)"
  using str_int_chars digit_not_space by (fastforce simp: no_space_def list_all_iff is_space_def)

lemma no_space_cells: "row_ok r \<Longrightarrow> \<forall>c \<in> set (row_cells r). no_space c"
  using no_space_str_int by (cases "row_status r") (auto simp: row_cells_def row_ok_def no_space_def is_space_def)

lemma no_space_header: "\<forall>c \<in> set HEADER_CELLS. no_space c"
  by (simp add: HEADER_CELLS_def no_space_def is_space_def)

lemma padded_chars: "no_space c \<Longrightarrow> TAB \<notin> set (padded n c) \<and> CHR 0x0A \<notin> set (padded n c)"
  by (auto simp: padded_def no_space_def list_all_iff TAB_def is_space_def)

lemma split_table_line:
  assumes "\<forall>c \<in> set cs. no_space c"
  shows "map strip (split_char TAB (table_line n cs)) = cs @ [[]]"
proof -
  have "split_char TAB (table_line n cs) = map (padded n) cs @ [[]]"
    unfolding table_line_def using assms padded_chars by (intro split_char_join) auto
  then have "map strip (split_char TAB (table_line n cs)) = map strip (map (padded n) cs) @ [strip []]" by simp
  also have "map strip (map (padded n) cs) = cs"
    using assms by (simp add: map_idI strip_padded)
  also have "strip [] = []" by (simp add: strip_def lstrip_by_def rstrip_by_def)
  finally show ?thesis .
qed

lemma parse_row: "row_ok r \<Longrightarrow> parse_quorum_line (table_line n (row_cells r)) = Some (row_id r, row_info r)"
  unfolding parse_quorum_line_def Let_def
  by (subst split_table_line [OF no_space_cells], assumption)+
    (cases "row_status r"; simp add: row_cells_def row_info_def parse_lag_col_def kraft_unit_status_of_def)

lemma parse_header: "parse_quorum_line (table_line n HEADER_CELLS) = None"
proof -
  have "py_int ''NodeId'' = None" by code_simp
  then show ?thesis
    unfolding parse_quorum_line_def Let_def split_table_line [OF no_space_header] by (simp add: HEADER_CELLS_def)
qed


lemma table_line_no_newline: "\<forall>c \<in> set cs. no_space c \<Longrightarrow> CHR 0x0A \<notin> set (table_line n cs)"
proof -
  have "CHR 0x0A \<notin> set (join [TAB] xs)" if "\<forall>x \<in> set xs. CHR 0x0A \<notin> set x" for xs
    using that by (induction "[TAB]" xs rule: join.induct) (auto simp: TAB_def)
  then show "\<forall>c \<in> set cs. no_space c \<Longrightarrow> CHR 0x0A \<notin> set (table_line n cs)"
    unfolding table_line_def using padded_chars by auto
qed

lemma parse_rows:
  assumes "list_all row_ok rows"
  shows "map_of (fold (\<lambda>line d. case parse_quorum_line line of None \<Rightarrow> d | Some (i, info) \<Rightarrow> dset i info d)
      (map (table_line n) (map row_cells rows)) d) = map_of d ++ map_of (rev (map (\<lambda>r. (row_id r, row_info r)) rows))"
  using assms
proof (induction rows arbitrary: d)
  case (Cons r rows)
  then show ?case by (simp add: parse_row map_add_def fun_eq_iff split: option.splits)
qed simp

lemma parse_quorum_table:
  assumes "list_all row_ok rows" and "distinct (map row_id rows)"
  shows "map_of (parse_quorum (quorum_table n rows)) = map_of (map (\<lambda>r. (row_id r, row_info r)) rows)"
proof -
  let ?ls = "map (table_line n) (HEADER_CELLS # map row_cells rows)"
  have "split_char (CHR 0x0A) (quorum_table n rows) = ?ls"
    unfolding quorum_table_def
    using assms(1) no_space_cells no_space_header table_line_no_newline
    by (intro split_char_join) (auto simp: list_all_iff)
  then have "map_of (parse_quorum (quorum_table n rows)) = map_of (rev (map (\<lambda>r. (row_id r, row_info r)) rows))"
    using parse_rows [OF assms(1), of n "[]"] by (simp add: parse_quorum_def parse_header)
  also have "\<dots> = map_of (map (\<lambda>r. (row_id r, row_info r)) rows)"
    using assms(2) by (intro map_of_rev_wf) (simp add: wf_dict_def keys_def comp_def)
  finally show ?thesis .
qed

text \<open>A unit counts as active exactly when the controller's table lists its node with a
  non-negative lag and the status its role asks for: leader or follower for a unit that runs a
  controller, observer otherwise.\<close>

theorem broker_active_iff_listed:
  assumes "peer_cluster w = Inr pc" and "bootstrap_controller pc \<noteq> []" and "can_connect w"
    and "ping (env_connect env w) (bootstrap_controller pc) = Inr True"
    and "broker_id_of (unit_name w) = Inr i"
    and "\<forall>c. fst (env_exec env w None c []) = Inr (quorum_table n rows)"
    and "list_all row_ok rows" and "distinct (map row_id rows)"
  shows "fst (broker_active env w) =
    Inr (\<exists>r \<in> set rows. row_id r = i \<and> row_lag r \<ge> 0 \<and>
           row_status r \<in> (if runs_controller w then {LEADER, FOLLOWER} else {OBSERVER}))"
proof -
  let ?cmd = "words (binaries_path BROKER @ ''/bin/kafka-metadata-quorum.sh '' @ join '' '' (quorum_args (bootstrap_controller pc) [''describe'', ''--replication'']))"
  obtain f where e: "env_exec env w None ?cmd [] = (Inr (quorum_table n rows), f)" using assms(6) by (metis surjective_pairing)
  let ?w = "w\<lparr>files := f, actions := actions w @ [Exec None ?cmd []]\<rparr>"
  let ?st = "parse_quorum (quorum_table n rows)"
  have "quorum_status_of env w = (Inr ?st, ?w)"
    using assms(1-4) e by (simp add: quorum_status_of_def bindM_apply tryM_apply run_bin_command_def exec_def exec_in_def)
  then have "fst (broker_active env w) = Inr (is_active ?w i ?st)"
    using assms(5) by (simp add: broker_active_def bindM_apply)
  moreover have "is_active ?w i ?st = is_active w i ?st"
  proof -
    have "expected_statuses ?w = expected_statuses w" by (simp add: expected_statuses_def runs_controller_def)
    then show ?thesis by (simp only: is_active_def)
  qed
  moreover have "is_active w i ?st = (\<exists>r \<in> set rows. row_id r = i \<and> row_lag r \<ge> 0 \<and>
      row_status r \<in> (if runs_controller w then {LEADER, FOLLOWER} else {OBSERVER}))"
  proof -
    let ?m = "map_of (map (\<lambda>r. (row_id r, row_info r)) rows)"
    have listed: "?m i = Some (row_info r)" if "r \<in> set rows" "row_id r = i" for r
      using that assms(8) by (intro map_of_is_SomeI) (auto simp: comp_def)
    show ?thesis
    proof (cases "?m i")
      case None
      then have "\<forall>r \<in> set rows. row_id r \<noteq> i" using listed by auto
      then show ?thesis using None unfolding is_active_def parse_quorum_table [OF assms(7,8)] by simp
    next
      case (Some info)
      then obtain r where r: "r \<in> set rows" "row_id r = i" "info = row_info r" by (auto dest!: map_of_SomeD)
      have "row_info q = row_info r" if "q \<in> set rows" "row_id q = i" for q using listed [OF that] Some r(3) by simp
      then have "(\<exists>q \<in> set rows. row_id q = i \<and> row_lag q \<ge> 0 \<and> row_status q \<in> S) \<longleftrightarrow> row_lag r \<ge> 0 \<and> row_status r \<in> S" for S
        using r(1,2) by (metis kraft_quorum_info.ext_inject row_info_def)
      then show ?thesis using Some r(3) unfolding is_active_def parse_quorum_table [OF assms(7,8)] expected_statuses_def
        by (auto simp: row_info_def)
    qed
  qed
  ultimately show ?thesis by simp
qed


definition table_env :: "string \<Rightarrow> env" where
  "table_env out = silent_env\<lparr>env_exec := \<lambda>w d c e. (Inr out, files w), env_connect := \<lambda>w h p. True\<rparr>"

lemma table_env_sel [simp]:
  "env_exec (table_env out) w d c e = (Inr out, files w)" "env_connect (table_env out) w h p"
  by (simp_all add: table_env_def)


theorem broker_active_iff_listed_witness:
  "fst (broker_active (table_env (quorum_table 10
     [\<lparr>row_id = 100, row_dir = ''dirA'', row_end = 7, row_lag = 0, row_fetch = 1, row_caught = 1, row_status = LEADER\<rparr>])) ready_world) = Inr True"
proof -
  let ?r = "\<lparr>row_id = 100, row_dir = ''dirA'', row_end = 7, row_lag = 0, row_fetch = 1, row_caught = 1, row_status = LEADER\<rparr>"
  let ?env = "table_env (quorum_table 10 [?r])"
  obtain pc where pc: "peer_cluster ready_world = Inr pc" using ready_world_facts(4) by blast
  have "case peer_cluster ready_world of Inr pc \<Rightarrow> bootstrap_controller pc = ''kafka-k8s-0.kafka-k8s-endpoints:9098'' | Inl _ \<Rightarrow> False"
    by code_simp
  then have bc: "bootstrap_controller pc = ''kafka-k8s-0.kafka-k8s-endpoints:9098''" using pc by simp
  have up: "env_connect ?env ready_world = (\<lambda>h p. True)" by (intro ext) simp
  have "py_int ''9098'' = Some 9098" by (simp add: py_int_def strip_def rstrip_by_def lstrip_by_def is_space_def is_digit_def digit_val_def)
  then have ping: "ping (env_connect ?env ready_world) (bootstrap_controller pc) = Inr True"
    unfolding up bc by (simp add: ping_def)
  have i: "broker_id_of (unit_name ready_world) = Inr 100" by code_simp
  have c: "can_connect ready_world" by (simp add: ready_world_def)
  have rc: "runs_controller ready_world" by code_simp
  show ?thesis
    using broker_active_iff_listed [OF pc _ c ping i, of 10 "[?r]"] bc rc by (simp add: row_ok_def no_space_def is_space_def)
qed

end
