(* ===== verification/Tls_Manager.thy ===== *)
theory Tls_Manager
  imports Controller_Manager
begin

text \<open>
  \<^verbatim>\<open>managers/tls.py\<close>: certificates, keystores and truststores of a unit, managed through
  \<^verbatim>\<open>keytool\<close> and \<^verbatim>\<open>openssl\<close>. The cryptography library, the generation of keys and certificates and the
  network names of the host are a \<open>crypto\<close>, a parameter of the definitions that use them.
\<close>

section \<open>The cryptography library\<close>

record crypto =
  x509_constraints :: "string \<Rightarrow> exn + bool option \<times> (bool \<times> bool) option"
  x509_fingerprint :: "string \<Rightarrow> exn + 8 word list"
  x509_name :: "string \<Rightarrow> exn + string"
  gen_private_key :: "world \<Rightarrow> string"
  gen_ca :: "string \<Rightarrow> string \<Rightarrow> string"
  gen_csr :: "string \<Rightarrow> string \<Rightarrow> string list \<Rightarrow> string list \<Rightarrow> string"
  gen_certificate :: "string \<Rightarrow> string \<Rightarrow> string \<Rightarrow> string"
  bind_address :: string
  fqdn :: string

definition NL :: string where "NL = [CHR 0x0A]"

definition END_MARKER :: string where "END_MARKER = ''-----END CERTIFICATE-----''"

text \<open>
  \<open>x509_constraints\<close> loads a certificate and gives its basic constraints (is it a CA) and its key usage
  (may it sign certificates, may it sign revocation lists), each when the certificate has them.
\<close>

definition is_valid_leaf_certificate :: "crypto \<Rightarrow> string \<Rightarrow> exn + bool" where
  "is_valid_leaf_certificate cr cert =
     (let leaf_cert = strip (hd (split_str END_MARKER cert)) @ NL @ END_MARKER
      in bindE (x509_constraints cr leaf_cert) (\<lambda>(basic, usage).
           Inr (case basic of
                  None \<Rightarrow> True
                | Some is_ca \<Rightarrow>
                    (case usage of
                       None \<Rightarrow> \<not> is_ca
                     | Some (cert_sign, crl_sign) \<Rightarrow> \<not> (cert_sign \<or> crl_sign \<or> is_ca)))))"

definition hex_digit :: "nat \<Rightarrow> char" where
  "hex_digit n = (if n < 10 then char_of (48 + n) else char_of (55 + n))"

text \<open>\<^verbatim>\<open>int(s, 16)\<close> of a text of hexadecimal digits, and \<^verbatim>\<open>bytes([...])\<close>, which refuses values above 255.\<close>

fun hex_aux :: "nat \<Rightarrow> string \<Rightarrow> nat option" where
  "hex_aux acc [] = Some acc"
| "hex_aux acc (c # cs) = (case hex_val c of None \<Rightarrow> None | Some d \<Rightarrow> hex_aux (16 * acc + d) cs)"

definition parse_byte :: "string \<Rightarrow> exn + 8 word" where
  "parse_byte s =
     (if s = [] then Inl ValueError
      else case hex_aux 0 s of
        None \<Rightarrow> Inl ValueError
      | Some n \<Rightarrow> if n < 256 then Inr (word_of_nat n) else Inl ValueError)"

definition keytool_hash_to_bytes :: "string \<Rightarrow> exn + 8 word list" where
  "keytool_hash_to_bytes h = mapE parse_byte (split_char (CHR '':'') h)"

text \<open>\<^verbatim>\<open>hex(b)[2:].upper()\<close> has one digit for a byte below 16.\<close>

definition hex_of_byte :: "8 word \<Rightarrow> string" where
  "hex_of_byte b =
     (let n = unat b in if n < 16 then [hex_digit n] else [hex_digit (n div 16), hex_digit (n mod 16)])"

definition bytes_to_keytool_hash :: "string \<Rightarrow> 8 word list \<Rightarrow> string" where
  "bytes_to_keytool_hash sep bs = join sep (map hex_of_byte bs)"


section \<open>Files and stores\<close>

definition SCOPES :: "tls_scope list" where "SCOPES = [PEER_SCOPE, CLIENT_SCOPE]"
definition OLD_PREFIX :: string where "OLD_PREFIX = ''old-''"
definition NEW_PREFIX :: string where "NEW_PREFIX = ''new-''"
definition PEER_CLUSTER_ALIAS :: string where "PEER_CLUSTER_ALIAS = ''cluster-tls''"
definition keytool :: string where "keytool = ''keytool''"

definition get_truststore_path :: "role \<Rightarrow> tls_scope \<Rightarrow> string" where
  "get_truststore_path r sc = (case sc of PEER_SCOPE \<Rightarrow> peer_truststore r | CLIENT_SCOPE \<Rightarrow> truststore r)"

definition get_keystore_path :: "role \<Rightarrow> tls_scope \<Rightarrow> string" where
  "get_keystore_path r sc = (case sc of PEER_SCOPE \<Rightarrow> peer_keystore r | CLIENT_SCOPE \<Rightarrow> keystore r)"

definition tls_file :: "role \<Rightarrow> tls_scope \<Rightarrow> string \<Rightarrow> string" where
  "tls_file r sc name = conf_path r @ ''/'' @ scope_value sc @ ''-'' @ name"

definition exists_file :: "world \<Rightarrow> string \<Rightarrow> bool" where
  "exists_file w path \<longleftrightarrow> map_of (files w) path \<noteq> None"

definition generate_internal_ca :: "crypto \<Rightarrow> world \<Rightarrow> string \<times> string" where
  "generate_internal_ca cr w =
     (let key = gen_private_key cr w
      in (gen_ca cr key (hd (split_char (CHR ''/'') (unit_name w))), key))"

text \<open>A write of one field of every scope, skipped where the field is empty.\<close>

definition write_field :: "role \<Rightarrow> (world \<Rightarrow> tls_scope \<Rightarrow> string) \<Rightarrow> string \<Rightarrow> tls_scope \<Rightarrow> unit hook" where
  "write_field r get name sc =
     bindM (readM (\<lambda>w. get w sc)) (\<lambda>v. if v = [] then skip else workload_write v (tls_file r sc name))"

definition set_server_key :: "role \<Rightarrow> unit hook" where
  "set_server_key r = forM SCOPES (write_field r private_key ''server.key'')"

definition set_ca :: "role \<Rightarrow> unit hook" where
  "set_ca r = forM SCOPES (write_field r ca ''ca.pem'')"

definition set_certificate :: "role \<Rightarrow> unit hook" where
  "set_certificate r = forM SCOPES (write_field r certificate ''server.pem'')"

definition set_bundle :: "role \<Rightarrow> unit hook" where
  "set_bundle r =
     forM SCOPES (\<lambda>sc.
       bindM (readM (\<lambda>w. (certificate w sc, ca w sc, tls_bundle w sc))) (\<lambda>(cert, c, b).
         if cert = [] \<or> c = [] then skip
         else bindM (liftE b) (\<lambda>b. workload_write (join NL b) (tls_file r sc ''bundle.pem''))))"

definition numbered :: "'a list \<Rightarrow> (nat \<times> 'a) list" where
  "numbered xs = zip [0..<length xs] xs"

definition set_chain :: "role \<Rightarrow> unit hook" where
  "set_chain r =
     forM SCOPES (\<lambda>sc.
       bindM (readM (\<lambda>w. tls_bundle w sc)) (\<lambda>b. bindM (liftE b) (\<lambda>b.
         forM (numbered b) (\<lambda>(i, cert). workload_write cert (tls_file r sc (''bundle'' @ str_nat i @ ''.pem''))))))"

definition import_args :: "world \<Rightarrow> string \<Rightarrow> string \<Rightarrow> tls_scope \<Rightarrow> string list" where
  "import_args w alias filename sc =
     [keytool, ''-import'', ''-v'', ''-alias'', alias, ''-file'', filename, ''-keystore'',
      scope_value sc @ ''-truststore.jks'', ''-storepass'', truststore_password w, ''-noprompt'']"

definition import_cert :: "role \<Rightarrow> env \<Rightarrow> string \<Rightarrow> string \<Rightarrow> tls_scope \<Rightarrow> unit hook" where
  "import_cert r env alias filename sc =
     bindM (readM (\<lambda>w. import_args w alias filename sc)) (\<lambda>cmd.
       tryM (thenM (exec_in env (Some (conf_path r)) cmd []) skip) is_command_error
         (\<lambda>e. if contains ''already exists'' (error_details e) then skip else raise e))"

definition import_bundle :: "role \<Rightarrow> env \<Rightarrow> string list \<Rightarrow> tls_scope \<Rightarrow> string \<Rightarrow> unit hook" where
  "import_bundle r env b sc prefix =
     forM (numbered b) (\<lambda>(i, cert).
       let alias = prefix @ ''bundle'' @ str_nat i;
           filename = scope_value sc @ ''-'' @ alias @ ''.pem'';
           path = conf_path r @ ''/'' @ filename
       in bindM (readM (\<lambda>w. exists_file w path)) (\<lambda>ex.
          thenM (if ex then skip else workload_write cert path)
                (import_cert r env alias filename sc)))"

definition set_permissions :: "env \<Rightarrow> string \<Rightarrow> unit hook" where
  "set_permissions env path =
     thenM (exec env (words (''chown '' @ USER_NAME @ '':'' @ GROUP @ '' '' @ path)) [])
     (thenM (exec env (words (''chmod 770 '' @ path)) []) skip)"

definition set_truststore :: "role \<Rightarrow> env \<Rightarrow> unit hook" where
  "set_truststore r env =
     forM SCOPES (\<lambda>sc.
       bindM (readM (\<lambda>w. tls_bundle w sc)) (\<lambda>b. bindM (liftE b) (\<lambda>b.
       thenM (import_bundle r env b sc [])
         (bindM (readM (\<lambda>w. exists_file w (get_truststore_path r sc))) (\<lambda>ex.
            if \<not> ex then skip else set_permissions env (get_truststore_path r sc))))))"

definition keystore_command :: "world \<Rightarrow> tls_scope \<Rightarrow> string list" where
  "keystore_command w sc =
     (let s = scope_value sc; pass = ''pass:'' @ keystore_password w
      in [''openssl'', ''pkcs12'', ''-export'', ''-in'', s @ ''-bundle.pem'', ''-inkey'', s @ ''-server.key'',
          ''-passin'', pass, ''-certfile'', s @ ''-server.pem'', ''-out'', s @ ''-keystore.p12'', ''-password'', pass])"

definition set_keystore :: "role \<Rightarrow> env \<Rightarrow> unit hook" where
  "set_keystore r env =
     forM SCOPES (\<lambda>sc.
       bindM (readM (\<lambda>w. (tls_ready w sc, keystore_command w sc))) (\<lambda>(ready, cmd).
         if \<not> ready then skip
         else thenM (exec_in env (Some (conf_path r)) cmd []) (set_permissions env (get_keystore_path r sc))))"

definition remove_cert :: "role \<Rightarrow> env \<Rightarrow> string \<Rightarrow> tls_scope \<Rightarrow> unit hook" where
  "remove_cert r env alias sc =
     bindM (readM (\<lambda>w. [keytool, ''-delete'', ''-v'', ''-alias'', alias, ''-keystore'', scope_value sc @ ''-truststore.jks'',
                        ''-storepass'', truststore_password w, ''-noprompt''])) (\<lambda>cmd.
       tryM (thenM (exec_in env (Some (conf_path r)) cmd [])
              (thenM (exec_in env (Some (conf_path r)) (words (''rm -f '' @ scope_value sc @ ''-'' @ alias @ ''.pem'')) []) skip))
         is_command_error
         (\<lambda>e. if contains ''does not exist'' (error_details e) then skip else raise e))"

definition update_cert :: "role \<Rightarrow> env \<Rightarrow> string \<Rightarrow> string \<Rightarrow> tls_scope \<Rightarrow> unit hook" where
  "update_cert r env alias cert sc =
     (let filename = scope_value sc @ ''-'' @ alias @ ''.pem''
      in thenM (remove_cert r env alias sc)
         (thenM (workload_write cert (conf_path r @ ''/'' @ filename))
                (import_cert r env alias filename sc)))"


section \<open>Reading the truststore\<close>

text \<open>
  The regular expression of \<^verbatim>\<open>get_trusted_certificates\<close>, line by line. A record is a line with a
  comma after at least one character, followed by at least one character and the word
  \<^verbatim>\<open>trustedCertEntry\<close>, and a line, itself followed by a newline, that ends with 95 hexadecimal
  digits and colons after at least one other character. The alias is the text before the
  first comma that is not the first character.
\<close>

definition entry_alias :: "string \<Rightarrow> string option" where
  "entry_alias line =
     (case line of
        [] \<Rightarrow> None
      | c # cs \<Rightarrow>
          let alias = c # takeWhile (\<lambda>x. x \<noteq> CHR '','') cs; rest = dropWhile (\<lambda>x. x \<noteq> CHR '','') cs
          in if contains ''trustedCertEntry'' (drop 2 rest) then Some alias else None)"

definition is_hash_char :: "char \<Rightarrow> bool" where
  "is_hash_char c \<longleftrightarrow> hex_val c \<noteq> None \<or> c = CHR '':''"

definition entry_hash :: "string \<Rightarrow> string option" where
  "entry_hash line =
     (let h = drop (length line - 95) line
      in if length line \<ge> 96 \<and> list_all is_hash_char h then Some h else None)"

fun find_entries :: "string list \<Rightarrow> (string \<times> string) list" where
  "find_entries (a # b # c # rest) =
     (case (entry_alias a, entry_hash b) of
        (Some alias, Some h) \<Rightarrow> (alias, h) # find_entries (c # rest)
      | _ \<Rightarrow> find_entries (b # c # rest))"
| "find_entries _ = []"

definition parse_truststore :: "string \<Rightarrow> exn + (string, 8 word list) dict" where
  "parse_truststore raw =
     bindE (mapE (\<lambda>(alias, h). bindE (keytool_hash_to_bytes h) (\<lambda>bs. Inr (alias, bs)))
              (find_entries (split_char (CHR 0x0A) raw))) (\<lambda>es.
       Inr (dmerge [] es))"

definition get_trusted_certificates :: "role \<Rightarrow> env \<Rightarrow> string \<Rightarrow> (string, 8 word list) dict hook" where
  "get_trusted_certificates r env path =
     bindM (readM (\<lambda>w. exists_file w path)) (\<lambda>ex.
       if \<not> ex then ret []
       else bindM (readM truststore_password) (\<lambda>pass.
            bindM (exec_in env (Some (conf_path r)) [keytool, ''-list'', ''-keystore'', path, ''-storepass'', pass, ''-noprompt''] []) (\<lambda>raw.
              liftE (parse_truststore raw))))"

definition client_trusted_certificates :: "role \<Rightarrow> env \<Rightarrow> (string, 8 word list) dict hook" where
  "client_trusted_certificates r env = get_trusted_certificates r env (truststore r)"

definition peer_trusted_certificates :: "role \<Rightarrow> env \<Rightarrow> (string, 8 word list) dict hook" where
  "peer_trusted_certificates r env = get_trusted_certificates r env (peer_truststore r)"

definition peer_truststore_has_temporary_aliases :: "role \<Rightarrow> env \<Rightarrow> bool hook" where
  "peer_truststore_has_temporary_aliases r env =
     bindM (peer_trusted_certificates r env) (\<lambda>certs.
       ret (list_ex (\<lambda>a. startswith a OLD_PREFIX \<or> startswith a NEW_PREFIX) (keys certs)))"

definition update_peer_cluster_trust :: "role \<Rightarrow> env \<Rightarrow> crypto \<Rightarrow> unit hook" where
  "update_peer_cluster_trust r env cr =
     bindM (readM peer_cluster_ca) (\<lambda>b. bindM (liftE b) (\<lambda>b.
       if b = [] then skip
       else bindM (peer_trusted_certificates r env) (\<lambda>trusted.
         forM (numbered b) (\<lambda>(i, cert).
           bindM (liftE (x509_fingerprint cr cert)) (\<lambda>fp.
             if fp \<in> set (map snd trusted) then skip
             else let alias = PEER_CLUSTER_ALIAS @ str_nat i;
                      alias = (if alias \<in> set (keys trusted) then NEW_PREFIX @ alias else alias)
                  in update_cert r env alias cert PEER_SCOPE)))))"

definition configure :: "role \<Rightarrow> env \<Rightarrow> crypto \<Rightarrow> unit hook" where
  "configure r env cr =
     thenM (set_server_key r) (thenM (set_ca r) (thenM (set_chain r) (thenM (set_certificate r) (thenM (set_bundle r)
       (thenM (set_truststore r env) (thenM (set_keystore r env) (update_peer_cluster_trust r env cr)))))))"

definition alias_needs_update :: "role \<Rightarrow> env \<Rightarrow> crypto \<Rightarrow> string \<Rightarrow> string \<Rightarrow> bool hook" where
  "alias_needs_update r env cr alias cert =
     (if cert = [] then ret False
      else bindM (liftE (x509_fingerprint cr cert)) (\<lambda>fp.
           bindM (client_trusted_certificates r env) (\<lambda>certs. ret (fp \<noteq> dget certs alias []))))"

definition alias_common_name :: "role \<Rightarrow> env \<Rightarrow> crypto \<Rightarrow> string \<Rightarrow> string hook" where
  "alias_common_name r env cr alias =
     bindM (client_trusted_certificates r env) (\<lambda>certs.
       if alias \<notin> set (keys certs) then raise (PyException ''can't be found in the truststore'')
       else bindM (readM (\<lambda>w. join NL (workload_read w (tls_file r CLIENT_SCOPE (alias @ ''.pem''))))) (\<lambda>cert.
              if cert = [] then raise FileNotFoundError else liftE (x509_name cr cert)))"

definition remove_stores :: "role \<Rightarrow> tls_scope \<Rightarrow> unit hook" where
  "remove_stores r sc =
     modM (\<lambda>w. w\<lparr>files := filter (\<lambda>(p, _).
       \<not> (startswith p (tls_file r sc []) \<and> CHR ''/'' \<notin> set (drop (length (tls_file r sc [])) p) \<and>
          list_ex (\<lambda>ext. endswith (drop (length (tls_file r sc [])) p) ext) [''.pem'', ''.key'', ''.p12'', ''.jks''])) (files w)\<rparr>)"

definition rebuild_truststore :: "role \<Rightarrow> env \<Rightarrow> crypto \<Rightarrow> unit hook" where
  "rebuild_truststore r env cr =
     thenM (modM (\<lambda>w. w\<lparr>files := ddel (peer_truststore r) (files w)\<rparr>))
     (thenM (set_truststore r env) (update_peer_cluster_trust r env cr))"

definition reload_truststore :: "role \<Rightarrow> env \<Rightarrow> unit hook" where
  "reload_truststore r env =
     bindM (readM (\<lambda>w. (exists_file w (truststore r) \<and> exists_file w (client_properties r),
                        bootstrap_server_internal w, env_connect env w, broker_id_of (unit_name w)))) (\<lambda>(ex, uris, up, bid).
     bindM (liftE uris) (\<lambda>uris.
     bindM (liftE (ping up uris)) (\<lambda>ok.
       if \<not> (ex \<and> ok) then skip
       else bindM (liftE bid) (\<lambda>i.
         thenM (run_bin_command env ''configs''
             [''--command-config '' @ client_properties r, ''--bootstrap-server '' @ uris, ''--entity-type brokers'',
              ''--entity-name '' @ str_int i, ''--alter'',
              ''--add-config listener.name.CLIENT_SSL_SSL.ssl.truststore.location='' @ truststore r] []) skip))))"


section \<open>Trust between applications\<close>

definition hash_of :: "crypto \<Rightarrow> string \<Rightarrow> exn + string" where
  "hash_of cr cert = bindE (x509_fingerprint cr cert) (\<lambda>bs. Inr (bytes_to_keytool_hash [] bs))"

fun all_trusted :: "crypto \<Rightarrow> string set \<Rightarrow> string list \<Rightarrow> exn + bool" where
  "all_trusted cr trust [] = Inr True"
| "all_trusted cr trust (cert # certs) =
     bindE (is_valid_leaf_certificate cr cert) (\<lambda>leaf.
       if leaf then all_trusted cr trust certs
       else bindE (hash_of cr cert) (\<lambda>h. if h \<in> trust then all_trusted cr trust certs else Inr False))"

definition peer_cluster_app_trusts_new_bundle :: "crypto \<Rightarrow> world \<Rightarrow> exn + bool" where
  "peer_cluster_app_trusts_new_bundle cr w =
     (if runs_broker w \<and> runs_controller w then Inr True
      else bindE (tls_bundle w PEER_SCOPE) (\<lambda>b.
           bindE (trusted_by_peer_cluster_app w) (\<lambda>trust. all_trusted cr trust b)))"

definition both_apps_trust_new_bundle :: "crypto \<Rightarrow> world \<Rightarrow> exn + bool" where
  "both_apps_trust_new_bundle cr w =
     bindE (trusted_by_our_app w) (\<lambda>ours.
     bindE (trusted_by_peer_cluster_app w) (\<lambda>theirs.
     bindE (tls_bundle w PEER_SCOPE) (\<lambda>b.
     bindE (peer_cluster_ca w) (\<lambda>pca.
       all_trusted cr (ours \<inter> theirs) (b @ pca)))))"


section \<open>Subject alternative names\<close>

definition build_extra_sans :: "world \<Rightarrow> exn + string list" where
  "build_extra_sans w =
     bindE (unit_id_of (unit_name w)) (\<lambda>i.
       let extra = (if cfg_extra_listeners (cfg w) \<noteq> [] then cfg_extra_listeners (cfg w) else certificate_extra_sans (cfg w))
       in Inr (map (\<lambda>san. replace ''{unit}'' (str_int i) (hd (split_char (CHR '':'') san))) extra))"

record sans =
  sans_ip :: "string list"
  sans_dns :: "string list"

definition build_sans :: "env \<Rightarrow> crypto \<Rightarrow> sans hook" where
  "build_sans env cr =
     bindM (readM (\<lambda>w. get_node_ip (env_k8s env) (manager_of w (unit_name w)) (pod_name_of (unit_name w)))) (\<lambda>r.
     bindM (liftE r) (\<lambda>node_ip.
     bindM (ips env) (\<lambda>own.
     bindM (readM (\<lambda>w. (internal_address (unit_name w), build_extra_sans w))) (\<lambda>(addr, extra).
     bindM (liftE addr) (\<lambda>a.
     bindM (liftE extra) (\<lambda>extra.
       ret \<lparr>sans_ip = sort (remdups ([bind_address cr, node_ip] @ own)),
            sans_dns = sort ([hd (split_char (CHR ''.'') a), a, fqdn cr] @ extra)\<rparr>))))))"

text \<open>The first line that names both kinds, or the last line.\<close>

fun sans_line :: "string list \<Rightarrow> string" where
  "sans_line [] = []"
| "sans_line [line] = line"
| "sans_line (line # ls) = (if contains ''DNS'' line \<and> contains ''IP'' line then line else sans_line ls)"

fun parse_sans_items :: "string list \<Rightarrow> exn + sans" where
  "parse_sans_items [] = Inr \<lparr>sans_ip = [], sans_dns = []\<rparr>"
| "parse_sans_items (item # items) =
     (case split_char (CHR '':'') item of
        [san_type, san_value] \<Rightarrow>
          bindE (parse_sans_items items) (\<lambda>s.
            Inr (if strip san_type = ''DNS'' then s\<lparr>sans_dns := san_value # sans_dns s\<rparr>
                 else if strip san_type = ''IP Address'' then s\<lparr>sans_ip := san_value # sans_ip s\<rparr> else s))
      | _ \<Rightarrow> Inl ValueError)"

definition parse_sans :: "string \<Rightarrow> exn + sans option" where
  "parse_sans out =
     (let ls = splitlines out
      in if ls = [] then Inr None
         else bindE (parse_sans_items (split_str '', '' (sans_line ls))) (\<lambda>s.
                Inr (Some \<lparr>sans_ip = sort (sans_ip s), sans_dns = sort (sans_dns s)\<rparr>)))"

definition get_current_sans :: "role \<Rightarrow> env \<Rightarrow> tls_scope \<Rightarrow> sans option hook" where
  "get_current_sans r env sc =
     bindM (readM (\<lambda>w. certificate w sc = [] \<or> \<not> exists_file w (tls_file r sc ''server.pem''))) (\<lambda>none.
       if none then ret None
       else bindM (exec_in env (Some (conf_path r)) [''openssl'', ''x509'', ''-noout'', ''-ext'', ''subjectAltName'', ''-in'', scope_value sc @ ''-server.pem''] []) (\<lambda>out.
              liftE (parse_sans out)))"

definition sans_differ :: "world \<Rightarrow> sans \<Rightarrow> sans \<Rightarrow> bool" where
  "sans_differ w cur new \<longleftrightarrow>
     set (sans_ip cur) \<noteq> set (sans_ip new) \<or>
     (set (sans_dns cur) - set (sans_dns new)) \<union> (set (sans_dns new) - set (sans_dns cur))
       - {unit_name w, hd (split_char (CHR ''/'') (unit_name w))} \<noteq> {}"

text \<open>The source builds the expected names twice, once for the addresses and once for the names.\<close>

definition sans_changed :: "role \<Rightarrow> env \<Rightarrow> crypto \<Rightarrow> tls_scope \<Rightarrow> bool hook" where
  "sans_changed r env cr sc =
     bindM (get_current_sans r env sc) (\<lambda>cur.
       case cur of
         None \<Rightarrow> ret False
       | Some cur \<Rightarrow>
           bindM (build_sans env cr) (\<lambda>new_ip.
           bindM (build_sans env cr) (\<lambda>new_dns.
           bindM (readM (\<lambda>w. sans_differ w cur \<lparr>sans_ip = sans_ip new_ip, sans_dns = sans_dns new_dns\<rparr>)) ret)))"

definition generate_self_signed_certificate :: "env \<Rightarrow> crypto \<Rightarrow> SelfSignedCertificate option hook" where
  "generate_self_signed_certificate env cr =
     bindM (readM (\<lambda>w. (internal_ca w, internal_ca_key w, tls_ready w PEER_SCOPE, private_key w PEER_SCOPE, gen_private_key cr w, unit_name w)))
       (\<lambda>(cac, cak, ready, pk, fresh, name).
       case (cac, cak) of
         (Some cac, Some cak) \<Rightarrow>
           if ready then ret None
           else bindM (build_sans env cr) (\<lambda>s.
             let key = (if pk = [] then fresh else pk);
                 req = gen_csr cr key name (sans_ip s) (sans_dns s)
             in ret (Some \<lparr>ss_ca = cac, ss_csr = req, ss_certificate = gen_certificate cr req cac cak, ss_private_key = key\<rparr>))
       | _ \<Rightarrow> ret None)"


section \<open>Properties\<close>

subsection \<open>The truststore listing\<close>

text \<open>
  What \<^verbatim>\<open>keytool -list\<close> prints for a truststore of SHA-256 certificates: some lines about the
  store, and two lines per certificate.
\<close>

definition full_hex :: "8 word \<Rightarrow> string" where
  "full_hex b = [hex_digit (unat b div 16), hex_digit (unat b mod 16)]"

definition entry_lines :: "string \<times> string \<times> 8 word list \<Rightarrow> string list" where
  "entry_lines e =
     (case e of (alias, date, fp) \<Rightarrow>
        [alias @ '', '' @ date @ '', trustedCertEntry, '',
         ''Certificate fingerprint (SHA-256): '' @ join '':'' (map full_hex fp)])"

definition store_listing :: "string list \<Rightarrow> (string \<times> string \<times> 8 word list) list \<Rightarrow> string" where
  "store_listing head es = join NL (head @ concat (map entry_lines es) @ [[]])"

definition listed_cert_ok :: "string \<times> string \<times> 8 word list \<Rightarrow> bool" where
  "listed_cert_ok e \<longleftrightarrow>
     (case e of (alias, date, fp) \<Rightarrow>
        alias \<noteq> [] \<and> CHR '','' \<notin> set alias \<and> CHR 0x0A \<notin> set alias \<and> CHR 0x0A \<notin> set date \<and> length fp = 32)"

lemma hex_nibble:
  assumes "n < 16"
  shows "hex_val (hex_digit n) = Some n" "hex_digit n \<noteq> CHR '':''" "hex_digit n \<noteq> CHR 0x0A"
proof -
  show v: "hex_val (hex_digit n) = Some n" using assms by (auto simp: hex_digit_def hex_val_def Let_def)
  have "hex_val (CHR '':'') = None" "hex_val (CHR 0x0A) = None" by (simp_all add: hex_val_def)
  then show "hex_digit n \<noteq> CHR '':''" "hex_digit n \<noteq> CHR 0x0A" using v by (metis option.distinct(1))+
qed

lemma byte_nibbles: "unat (b :: 8 word) div 16 < 16" "unat (b :: 8 word) mod 16 < 16"
proof -
  have "unat b < 256" using unsigned_less [where ?'a = nat, of b] by simp
  then show "unat b div 16 < 16" by simp
qed simp

lemma parse_full_hex [simp]: "parse_byte (full_hex b) = Inr b"
proof -
  have lt: "unat b < 256" using unsigned_less [where ?'a = nat, of b] by simp
  have "hex_aux 0 (full_hex b) = Some (16 * (unat b div 16) + unat b mod 16)"
    unfolding full_hex_def
    by (simp only: hex_aux.simps hex_nibble(1) [OF byte_nibbles(1)] hex_nibble(1) [OF byte_nibbles(2)] option.case mult_0_right add_0)
  also have "16 * (unat b div 16) + unat b mod 16 = unat b" by (rule mult_div_mod_eq)
  finally have "hex_aux 0 (full_hex b) = Some (unat b)" .
  moreover have "full_hex b \<noteq> []" by (simp add: full_hex_def)
  ultimately show ?thesis using lt unfolding parse_byte_def by simp
qed

lemma full_hex_chars: "c \<in> set (full_hex b) \<Longrightarrow> hex_val c \<noteq> None \<and> c \<noteq> CHR '':'' \<and> c \<noteq> CHR 0x0A"
  using hex_nibble [OF byte_nibbles(1) [of b]] hex_nibble [OF byte_nibbles(2) [of b]] by (auto simp: full_hex_def)

lemma join_chars: "c \<in> set (join sep xs) \<Longrightarrow> c \<in> set sep \<or> (\<exists>x \<in> set xs. c \<in> set x)"
  by (induction sep xs rule: join.induct) auto

lemma keytool_hash_roundtrip:
  assumes "fp \<noteq> []" shows "keytool_hash_to_bytes (join '':'' (map full_hex fp)) = Inr fp"
proof -
  have "split_char (CHR '':'') (join '':'' (map full_hex fp)) = map full_hex fp"
    using assms full_hex_chars by (intro split_char_join) fastforce+
  moreover have "mapE parse_byte (map full_hex fp) = Inr fp" by (induction fp) auto
  ultimately show ?thesis by (simp add: keytool_hash_to_bytes_def)
qed

lemma join_hash_length: "length (join '':'' (map full_hex fp)) = 3 * length fp - 1"
proof (induction fp)
  case (Cons b fp)
  then show ?case by (cases fp) (auto simp: full_hex_def)
qed simp

lemma entry_alias_line:
  "al \<noteq> [] \<Longrightarrow> CHR '','' \<notin> set al \<Longrightarrow> entry_alias (al @ '', '' @ date @ '', trustedCertEntry, '') = Some al"
proof -
  assume a: "al \<noteq> []" "CHR '','' \<notin> set al"
  then obtain c cs where cs: "al = c # cs" "CHR '','' \<notin> set cs" by (cases al) auto
  have t: "takeWhile (\<lambda>x. x \<noteq> CHR '','') (cs @ CHR '','' # r) = cs" "dropWhile (\<lambda>x. x \<noteq> CHR '','') (cs @ CHR '','' # r) = CHR '','' # r" for r
    using cs(2) by (induction cs) auto
  have "contains ''trustedCertEntry'' (date @ '', '' @ ''trustedCertEntry'' @ '', '')"
    using contains_middle2 [of "''trustedCertEntry''" date "'', ''" "'', ''"] .
  then show ?thesis unfolding entry_alias_def cs(1) by (simp add: t Let_def)
qed

lemma entry_hash_line:
  assumes "length fp = 32"
  shows "entry_hash (''Certificate fingerprint (SHA-256): '' @ join '':'' (map full_hex fp)) = Some (join '':'' (map full_hex fp))"
proof -
  let ?h = "join '':'' (map full_hex fp)"
  have l: "length ?h = 95" using assms join_hash_length by simp
  have "list_all is_hash_char ?h"
    unfolding list_all_iff is_hash_char_def using join_chars [of _ "'':''" "map full_hex fp"] full_hex_chars by fastforce
  then show ?thesis using l unfolding entry_hash_def Let_def by simp
qed

lemma find_entries_hit:
  "entry_alias a = Some x \<Longrightarrow> entry_hash b = Some h \<Longrightarrow> rest \<noteq> [] \<Longrightarrow> find_entries (a # b # rest) = (x, h) # find_entries rest"
  by (cases rest) auto

lemma find_entries_skip:
  assumes "entry_alias a = None" "rest = b # c # rest'"
  shows "find_entries (a # rest) = find_entries rest"
  using assms by simp

lemma find_entries_listing:
  assumes "list_all listed_cert_ok es"
  shows "find_entries (concat (map entry_lines es) @ [[]]) = map (\<lambda>(al, date, fp). (al, join '':'' (map full_hex fp))) es"
  using assms
proof (induction es)
  case (Cons e es)
  obtain al date fp where e: "e = (al, date, fp)" using prod_cases3 by blast
  have ok: "entry_alias (al @ '', '' @ date @ '', trustedCertEntry, '') = Some al"
    "entry_hash (''Certificate fingerprint (SHA-256): '' @ join '':'' (map full_hex fp)) = Some (join '':'' (map full_hex fp))"
    by (rule entry_alias_line entry_hash_line; use Cons.prems e in \<open>simp add: listed_cert_ok_def\<close>)+
  have "find_entries (entry_lines e @ (concat (map entry_lines es) @ [[]])) =
      (al, join '':'' (map full_hex fp)) # find_entries (concat (map entry_lines es) @ [[]])"
    unfolding e entry_lines_def prod.case using find_entries_hit [OF ok] by (simp only: append_Cons append_Nil) simp
  then show ?case using Cons.IH Cons.prems e by simp
qed simp


lemma find_entries_head:
  assumes "\<forall>l \<in> set head. entry_alias l = None" "ls \<noteq> []" "find_entries ls = es"
  shows "find_entries (head @ ls) = es"
  using assms
proof (induction head)
  case (Cons l head)
  then have IH: "find_entries (head @ ls) = es" by simp
  show ?case
  proof (cases "head @ ls")
    case (Cons b bs)
    then show ?thesis
    proof (cases bs)
      case Nil
      then show ?thesis using IH \<open>head @ ls = b # bs\<close> by simp
    next
      case (Cons c cs)
      then show ?thesis using IH Cons.prems Cons \<open>head @ ls = b # bs\<close> \<open>\<forall>l \<in> set (l # head). entry_alias l = None\<close> by simp
    qed
  qed (use Cons.prems in simp)
qed simp

text \<open>C34: reading the listing of a truststore gives every alias with the fingerprint of its
  certificate, for any lines the tool prints before the entries.\<close>

theorem truststore_listing_roundtrip:
  assumes "list_all listed_cert_ok es" and "distinct (map fst es)"
    and "\<forall>l \<in> set head. entry_alias l = None \<and> CHR 0x0A \<notin> set l"
  shows "\<exists>d. parse_truststore (store_listing head es) = Inr d \<and> map_of d = map_of (map (\<lambda>(al, date, fp). (al, fp)) es)"
proof -
  let ?body = "concat (map entry_lines es) @ [[]]"
  let ?pairs = "map (\<lambda>(al, date, fp). (al, fp)) es"
  have nl: "\<forall>l \<in> set (entry_lines e). CHR 0x0A \<notin> set l" if "listed_cert_ok e" for e
  proof -
    obtain al date fp where e: "e = (al, date, fp)" using prod_cases3 by blast
    have "CHR 0x0A \<notin> set (join '':'' (map full_hex fp))"
      using join_chars [of "CHR 0x0A" "'':''" "map full_hex fp"] full_hex_chars by fastforce
    then show ?thesis using that by (simp add: e entry_lines_def listed_cert_ok_def)
  qed
  have "split_char (CHR 0x0A) (store_listing head es) = head @ ?body"
    unfolding store_listing_def NL_def
  proof (rule split_char_join)
    show "\<forall>x \<in> set (head @ ?body). CHR 0x0A \<notin> set x" using assms(1,3) nl by (auto simp: list_all_iff)
  qed simp
  then have entries: "find_entries (split_char (CHR 0x0A) (store_listing head es)) = map (\<lambda>(al, date, fp). (al, join '':'' (map full_hex fp))) es"
    using find_entries_head [OF _ _ find_entries_listing [OF assms(1)], of head] assms(3) by simp
  have "mapE (\<lambda>(al, h). bindE (keytool_hash_to_bytes h) (\<lambda>bs. Inr (al, bs)))
      (map (\<lambda>(al, date, fp). (al, join '':'' (map full_hex fp))) es) = Inr ?pairs"
    using assms(1)
  proof (induction es)
    case (Cons e es)
    obtain al date fp where e: "e = (al, date, fp)" using prod_cases3 by blast
    then have "fp \<noteq> []" using Cons.prems by (auto simp: listed_cert_ok_def)
    then show ?case using Cons keytool_hash_roundtrip [of fp] e by simp
  qed simp
  then have "parse_truststore (store_listing head es) = Inr (dmerge [] ?pairs)"
    unfolding parse_truststore_def entries by simp
  moreover have "wf_dict ?pairs" using assms(2) by (simp add: wf_dict_def keys_def comp_def case_prod_beta)
  then have "map_of (dmerge [] ?pairs) = map_of ?pairs" by (simp add: map_of_rev_wf)
  ultimately show ?thesis by blast
qed

theorem truststore_listing_roundtrip_witness:
  "\<exists>d. parse_truststore (store_listing [''Your keystore contains 1 entry'', []] [(''bundle0'', ''Jan 1, 2024'', replicate 32 7)]) = Inr d \<and>
     map_of d ''bundle0'' = Some (replicate 32 7)"
proof -
  have "entry_alias ''Your keystore contains 1 entry'' = None" "entry_alias [] = None" by code_simp+
  then show ?thesis
    using truststore_listing_roundtrip [of "[(''bundle0'', ''Jan 1, 2024'', replicate 32 7)]" "[''Your keystore contains 1 entry'', []]"]
    by (auto simp: listed_cert_ok_def)
qed

text \<open>Without a separator the text of a fingerprint does not determine it.\<close>

lemma keytool_hash_ambiguous:
  "bytes_to_keytool_hash [] (replicate 30 170 @ [0x01, 0x23]) = bytes_to_keytool_hash [] (replicate 30 170 @ [0x12, 0x03]) \<and>
   replicate 30 (170 :: 8 word) @ [0x01, 0x23] \<noteq> replicate 30 170 @ [0x12, 0x03]"
proof
  have j: "join [] (xs @ ys) = join [] xs @ join [] ys" for xs ys
    by (induction "[] :: string" xs rule: join.induct) (cases ys; simp)+
  have "join [] (map hex_of_byte [0x01, 0x23]) = join [] (map hex_of_byte [0x12, 0x03])"
    by (simp add: hex_of_byte_def)
  then show "bytes_to_keytool_hash [] (replicate 30 170 @ [0x01, 0x23]) = bytes_to_keytool_hash [] (replicate 30 170 @ [0x12, 0x03])"
    unfolding bytes_to_keytool_hash_def map_append j by simp
qed simp


subsection \<open>Subject alternative names\<close>

lemma split_str_part:
  assumes "c \<notin> set x" shows "split_str (c # sep) (x @ (c # sep) @ r) = x # split_str (c # sep) r"
  using assms
proof (induction x)
  case Nil
  show ?case by (subst split_str.simps) (simp del: append_Cons add: startswith_append)
next
  case (Cons d x)
  then have "\<not> startswith ((d # x) @ (c # sep) @ r) (c # sep)" by auto
  with Cons show ?case by (subst split_str.simps) simp
qed

lemma split_str_last:
  assumes "c \<notin> set x" shows "split_str (c # sep) x = [x]"
  using assms
proof (induction x)
  case Nil
  show ?case by (subst split_str.simps) (simp add: startswith_def)
next
  case (Cons d x)
  then have "\<not> startswith (d # x) (c # sep)" by auto
  with Cons show ?case by (subst split_str.simps) simp
qed

lemma split_str_join:
  assumes "xs \<noteq> []" "\<forall>x \<in> set xs. c \<notin> set x" shows "split_str (c # sep) (join (c # sep) xs) = xs"
  using assms
proof (induction xs)
  case (Cons x xs)
  show ?case
  proof (cases "xs = []")
    case True
    then show ?thesis using Cons.prems split_str_last by simp
  next
    case False
    then show ?thesis using Cons split_str_part [of c x sep "join (c # sep) xs"] by (simp add: join_Cons)
  qed
qed simp

text \<open>
  What \<^verbatim>\<open>openssl x509 -ext subjectAltName\<close> prints: a title line and one line with all entries. An entry
  is an address or a name.
\<close>

definition san_text :: "bool \<times> string \<Rightarrow> string" where
  "san_text e = (if fst e then ''IP Address:'' else ''DNS:'') @ snd e"

definition sans_output :: "(bool \<times> string) list \<Rightarrow> string" where
  "sans_output es =
     ''X509v3 Subject Alternative Name: '' @ NL @ ''    '' @ join '', '' (map san_text es) @ NL"

definition san_ok :: "bool \<times> string \<Rightarrow> bool" where
  "san_ok e \<longleftrightarrow> CHR '','' \<notin> set (snd e) \<and> CHR 0x0A \<notin> set (snd e)"

definition sans_of :: "(bool \<times> string) list \<Rightarrow> sans" where
  "sans_of es = \<lparr>sans_ip = map snd (filter fst es), sans_dns = map snd (filter (\<lambda>e. \<not> fst e) es)\<rparr>"

lemma strip_kind: "strip (replicate n (CHR '' '') @ ''IP Address'') = ''IP Address''" "strip (replicate n (CHR '' '') @ ''DNS'') = ''DNS''"
proof -
  have "dropWhile is_space (replicate n (CHR '' '') @ s) = dropWhile is_space s" for s
    by (induction n) (auto simp: is_space_def)
  then show "strip (replicate n (CHR '' '') @ ''IP Address'') = ''IP Address''" "strip (replicate n (CHR '' '') @ ''DNS'') = ''DNS''"
    by (simp_all add: strip_def lstrip_by_def rstrip_by_def is_space_def)
qed

lemma split_entry:
  assumes "CHR '':'' \<notin> set p"
  shows "split_char (CHR '':'') (p @ CHR '':'' # v) = p # split_char (CHR '':'') v"
  using assms by (rule split_char_append)

lemma parse_first_entry:
  "parse_sans_items ((replicate n (CHR '' '') @ san_text e) # items) =
     (if CHR '':'' \<in> set (snd e) then Inl ValueError
      else bindE (parse_sans_items items) (\<lambda>s.
             Inr (if fst e then s\<lparr>sans_ip := snd e # sans_ip s\<rparr> else s\<lparr>sans_dns := snd e # sans_dns s\<rparr>)))"
proof -
  obtain k v where e: "e = (k, v)" by fastforce
  have tx: "replicate n (CHR '' '') @ san_text e = (replicate n (CHR '' '') @ (if k then ''IP Address'' else ''DNS'')) @ CHR '':'' # v"
    by (simp add: e san_text_def)
  have s: "split_char (CHR '':'') (replicate n (CHR '' '') @ san_text e) =
      (replicate n (CHR '' '') @ (if k then ''IP Address'' else ''DNS'')) # split_char (CHR '':'') v"
    unfolding tx by (rule split_entry) auto
  show ?thesis
  proof (cases "CHR '':'' \<in> set v")
    case True
    then obtain a b where "v = a @ CHR '':'' # b" "CHR '':'' \<notin> set a" by (metis split_list_first)
    then have "split_char (CHR '':'') v = a # split_char (CHR '':'') b" by (simp add: split_entry)
    moreover obtain x xs where "split_char (CHR '':'') b = x # xs" using split_char_nonempty list.exhaust by blast
    ultimately show ?thesis using s True e by simp
  next
    case False
    then show ?thesis using s e strip_kind by (cases k) (simp_all add: split_char_no_sep)
  qed
qed

lemma parse_entries:
  "parse_sans_items (map san_text es) =
     (if list_ex (\<lambda>e. CHR '':'' \<in> set (snd e)) es then Inl ValueError else Inr (sans_of es))"
proof (induction es)
  case (Cons e es)
  have "parse_sans_items (san_text e # map san_text es) =
      (if CHR '':'' \<in> set (snd e) then Inl ValueError
       else bindE (parse_sans_items (map san_text es)) (\<lambda>s.
             Inr (if fst e then s\<lparr>sans_ip := snd e # sans_ip s\<rparr> else s\<lparr>sans_dns := snd e # sans_dns s\<rparr>)))"
    using parse_first_entry [of 0 e] by simp
  then show ?case using Cons.IH by (simp add: sans_of_def)
qed (simp add: sans_of_def)

text \<open>The addresses and names read back from a certificate are the ones in it, sorted. A
  certificate with an IPv6 address cannot be read back: its colons make the parser raise.\<close>

theorem certificate_sans_roundtrip:
  assumes "es \<noteq> []" and "list_all san_ok es"
  shows "parse_sans (sans_output es) =
    (if list_ex (\<lambda>e. CHR '':'' \<in> set (snd e)) es then Inl ValueError
     else Inr (Some \<lparr>sans_ip = sort (sans_ip (sans_of es)), sans_dns = sort (sans_dns (sans_of es))\<rparr>))"
proof -
  obtain e es' where es: "es = e # es'" using assms(1) by (cases es) auto
  let ?title = "''X509v3 Subject Alternative Name: ''"
  let ?items = "(''    '' @ san_text e) # map san_text es'"
  have line: "''    '' @ join '', '' (map san_text es) = join '', '' ?items"
    unfolding es by (cases "map san_text es' = []") (simp_all add: join_Cons)
  have comma: "\<forall>x \<in> set ?items. CHR '','' \<notin> set x" and newline: "\<forall>x \<in> set ?items. CHR 0x0A \<notin> set x"
    using assms(2) unfolding es by (auto simp: list_all_iff san_ok_def san_text_def)
  have "CHR 0x0A \<notin> set (join '', '' ?items)" using join_chars [of "CHR 0x0A" "'', ''" ?items] newline by fastforce
  then have split: "split_char (CHR 0x0A) (sans_output es) = [?title, join '', '' ?items, []]"
    unfolding sans_output_def NL_def append_assoc [symmetric, of "''    ''"] line
    using split_char_join [of "[?title, join '', '' ?items, []]" "CHR 0x0A"] by simp
  have ls: "splitlines (sans_output es) = [?title, join '', '' ?items]"
    unfolding splitlines_def Let_def split by simp
  have "\<not> contains ''DNS'' ?title" by code_simp
  then have "sans_line (splitlines (sans_output es)) = join '', '' ?items" unfolding ls by simp
  moreover have "split_str '', '' (join '', '' ?items) = ?items" using comma by (intro split_str_join) simp_all
  moreover have "parse_sans_items ?items = (if list_ex (\<lambda>e. CHR '':'' \<in> set (snd e)) es then Inl ValueError else Inr (sans_of es))"
    using parse_first_entry [of 4 e "map san_text es'"] parse_entries [of es'] unfolding es
    by (simp add: sans_of_def numeral_eq_Suc)
  ultimately show ?thesis unfolding parse_sans_def Let_def ls by simp
qed

theorem certificate_sans_roundtrip_witness:
  "parse_sans (sans_output [(False, ''kafka-0''), (True, ''10.0.0.1'')]) = Inr (Some \<lparr>sans_ip = [''10.0.0.1''], sans_dns = [''kafka-0'']\<rparr>) \<and>
   parse_sans (sans_output [(True, ''fe80::1'')]) = Inl ValueError"
  using certificate_sans_roundtrip [of "[(False, ''kafka-0''), (True, ''10.0.0.1'')]"] certificate_sans_roundtrip [of "[(True, ''fe80::1'')]"]
  by (simp add: san_ok_def sans_of_def)

end
