(* ===== verification/Balancer_Manager.thy ===== *)
theory Balancer_Manager
  imports Tls_Manager
begin

text \<open>
  \<^verbatim>\<open>managers/balancer.py\<close>: the client of Cruise Control's REST interface, the cleaning of its
  answers for Juju actions, and the state of the brokers' storages. What the REST interface
  answers is a \<open>cc_api\<close>, a parameter of the definitions that use it; every request and every pause
  is recorded, so the answers of an interface may depend on the requests made before. A response to a POST has its
  status code, body and task header.
\<close>

section \<open>The client of Cruise Control\<close>

record cc_api =
  cc_get :: "world \<Rightarrow> string \<Rightarrow> (string \<times> string) list \<Rightarrow> exn + json"
  cc_post :: "world \<Rightarrow> string \<Rightarrow> (string \<times> string) list \<Rightarrow> exn + int \<times> json \<times> string option"

text \<open>\<^verbatim>\<open>value.get(key, default)\<close> on a parsed answer.\<close>

definition jget :: "string \<Rightarrow> json \<Rightarrow> json \<Rightarrow> exn + json" where
  "jget k dflt j = (case j of JDict kvs \<Rightarrow> Inr (dget kvs k dflt) | _ \<Rightarrow> Inl AttributeError)"

text \<open>\<^verbatim>\<open>value[key]\<close> on a parsed answer.\<close>

definition jitem :: "string \<Rightarrow> json \<Rightarrow> exn + json" where
  "jitem k j =
     (case j of
        JDict kvs \<Rightarrow> (case map_of kvs k of None \<Rightarrow> Inl KeyError | Some v \<Rightarrow> Inr v)
      | _ \<Rightarrow> Inl TypeError)"

text \<open>Iterating over a parsed list; a dictionary gives its keys.\<close>

definition jiter :: "json \<Rightarrow> exn + json list" where
  "jiter j =
     (case j of
        JList xs \<Rightarrow> Inr xs
      | JDict kvs \<Rightarrow> Inr (map (\<lambda>kv. JStr (fst kv)) kvs)
      | JStr s \<Rightarrow> Inr (map (\<lambda>c. JStr [c]) s)
      | _ \<Rightarrow> Inl TypeError)"

definition default_params :: "(string \<times> string) list" where
  "default_params = [(''json'', ''True'')]"

definition cc_get_request :: "cc_api \<Rightarrow> string \<Rightarrow> (string \<times> string) list \<Rightarrow> json hook" where
  "cc_get_request cc endpoint kwargs =
     (let params = dmerge kwargs default_params
      in bindM (readM (\<lambda>w. cc_get cc w endpoint params)) (\<lambda>r.
         thenM (do_action (Http ''GET'' endpoint params)) (liftE r)))"

definition cc_post_request :: "cc_api \<Rightarrow> string \<Rightarrow> bool \<Rightarrow> int option \<Rightarrow> (int \<times> json \<times> string option) hook" where
  "cc_post_request cc endpoint dryrun brokerid =
     (let kwargs = (case brokerid of None \<Rightarrow> [] | Some b \<Rightarrow> [(''brokerid'', str_int b)]);
          payload = [(''dryrun'', str_bool dryrun)] @ kwargs;
          params = dmerge (dmerge kwargs payload) default_params
      in bindM (readM (\<lambda>w. cc_post cc w endpoint params)) (\<lambda>r.
         thenM (do_action (Http ''POST'' endpoint params)) (liftE r)))"

fun find_task :: "string \<Rightarrow> json list \<Rightarrow> exn + json" where
  "find_task task_id [] = Inr (JStr [])"
| "find_task task_id (t # ts) =
     bindE (jget ''UserTaskId'' (JStr []) t) (\<lambda>i.
       if json_eq i (JStr task_id) then jget ''Status'' (JStr []) t else find_task task_id ts)"

definition get_task_status :: "cc_api \<Rightarrow> string \<Rightarrow> json hook" where
  "get_task_status cc task_id =
     bindM (cc_get_request cc ''user_tasks'' []) (\<lambda>j.
       liftE (bindE (jget ''userTasks'' JNull j) (\<lambda>ts. bindE (jiter ts) (find_task task_id))))"

text \<open>The two retry policies: on an exception, and on an exception or \<^verbatim>\<open>False\<close>. Both answer \<^verbatim>\<open>False\<close> in the end.\<close>

fun retry_exceptions :: "nat \<Rightarrow> bool hook \<Rightarrow> bool hook" where
  "retry_exceptions 0 c = ret False"
| "retry_exceptions (Suc n) c = tryM c (\<lambda>_. True) (\<lambda>_. retry_exceptions n c)"

fun retry_until_true :: "nat \<Rightarrow> bool hook \<Rightarrow> bool hook" where
  "retry_until_true 0 c = ret False"
| "retry_until_true (Suc n) c =
     bindM (tryM c (\<lambda>_. True) (\<lambda>_. ret False)) (\<lambda>ok. if ok then ret True else retry_until_true n c)"

definition cc_state :: "cc_api \<Rightarrow> json hook" where
  "cc_state cc = cc_get_request cc ''state'' [(''verbose'', ''True'')]"

definition monitoring :: "cc_api \<Rightarrow> bool hook" where
  "monitoring cc =
     retry_until_true 3 (bindM (cc_state cc) (\<lambda>j.
       liftE (bindE (jget ''MonitorState'' (JDict []) j) (\<lambda>m.
              bindE (jget ''state'' (JStr []) m) (\<lambda>s. Inr (json_eq s (JStr ''RUNNING'')))))))"

definition executing :: "cc_api \<Rightarrow> bool hook" where
  "executing cc =
     retry_exceptions 3 (bindM (cc_state cc) (\<lambda>j.
       liftE (bindE (jget ''ExecutorState'' (JDict []) j) (\<lambda>m.
              bindE (jget ''state'' (JStr []) m) (\<lambda>s. Inr (\<not> json_eq s (JStr ''NO_TASK_IN_PROGRESS'')))))))"

definition cc_ready :: "cc_api \<Rightarrow> bool hook" where
  "cc_ready cc =
     retry_exceptions 3 (bindM (cc_state cc) (\<lambda>j.
       liftE (bindE (jget ''MonitorState'' (JStr []) j) (\<lambda>m.
              bindE (jget ''numMonitoredWindows'' (JInt 0) m) (\<lambda>a.
              bindE (jget ''numValidPartitions'' (JInt 0) m) (\<lambda>b. Inr (json_true a \<and> json_true b)))))))"


section \<open>Rebalances\<close>

definition rebalance :: "cc_api \<Rightarrow> string \<Rightarrow> bool \<Rightarrow> int option \<Rightarrow> (int \<times> json \<times> string) hook" where
  "rebalance cc mode dryrun brokerid =
     bindM (cc_post_request cc (if mode \<noteq> MODE_FULL then mode @ ''_broker'' else ''rebalance'') dryrun brokerid) (\<lambda>(code, j, task).
       ret (code, j, case task of None \<Rightarrow> [] | Some t \<Rightarrow> t))"

text \<open>
  \<^verbatim>\<open>"Completed" not in status\<close>: a status that is no text raises. The second condition is only asked when
  the first is false.
\<close>

definition task_waiting :: "cc_api \<Rightarrow> string \<Rightarrow> bool hook" where
  "task_waiting cc task_id =
     bindM (get_task_status cc task_id) (\<lambda>st.
       case st of
         JStr s \<Rightarrow> if \<not> contains ''Completed'' s then ret True else executing cc
       | _ \<Rightarrow> raise TypeError)"

text \<open>
  The loop has no bound in the source. \<open>Inr False\<close> stands for a loop that is still waiting when the
  fuel is used up.
\<close>

fun wait_for_task :: "nat \<Rightarrow> cc_api \<Rightarrow> string \<Rightarrow> bool hook" where
  "wait_for_task 0 cc task_id = ret False"
| "wait_for_task (Suc fuel) cc task_id =
     bindM (task_waiting cc task_id) (\<lambda>waiting.
       if \<not> waiting then ret True
       else thenM (do_action Slept) (wait_for_task fuel cc task_id))"

definition create_internal_topics :: "env \<Rightarrow> unit hook" where
  "create_internal_topics env =
     bindM (readM peer_cluster) (\<lambda>r. bindM (liftE r) (\<lambda>pc.
       let args = [''--bootstrap-server'', broker_uris pc, ''--command-config'', CONF (role_paths BALANCER) @ ''/cruisecontrol.properties'']
       in forM BALANCER_TOPICS (\<lambda>topic.
            bindM (balancer_run_bin_command env ''topics'' ([''--list''] @ args) []) (\<lambda>out.
              if contains topic out then skip
              else thenM (balancer_run_bin_command env ''topics'' ([''--create'', ''--topic'', topic] @ args) []) skip))))"

definition machine_cores :: "env \<Rightarrow> string hook" where
  "machine_cores env = bindM (exec env [''nproc'', ''--all''] []) (\<lambda>out. ret (strip out))"

definition get_storage_size :: "env \<Rightarrow> string \<Rightarrow> int hook" where
  "get_storage_size env path =
     bindM (exec env [''bash'', ''-c'', ''df --output=size '' @ path @ '' | sed 1d''] []) (\<lambda>out.
       case py_int out of None \<Rightarrow> raise ValueError | Some i \<Rightarrow> ret i)"

definition machine_storages :: "env \<Rightarrow> string hook" where
  "machine_storages env =
     bindM (readM storage_dirs) (\<lambda>dirs.
     bindM (mapM (\<lambda>d. bindM (get_storage_size env d) (\<lambda>n. ret (d, JStr (str_int n)))) dirs) (\<lambda>kvs.
       ret (dumps (JDict (dmerge [] kvs)))))"


section \<open>Results for actions\<close>

definition sanitise_key :: "string \<Rightarrow> string" where
  "sanitise_key key = lower (replace ''_'' ''-'' (replace ''.'' ''-'' key))"

text \<open>\<^verbatim>\<open>str(value)\<close> of a label after \<^verbatim>\<open>_sanitise_key\<close>, which changes only texts.\<close>

fun py_repr :: "json \<Rightarrow> string" where
  "py_repr JNull = ''None''"
| "py_repr (JBool b) = str_bool b"
| "py_repr (JInt i) = str_int i"
| "py_repr (JFloat t) = t"
| "py_repr (JStr s) = repr_str s"
| "py_repr (JList xs) = ''['' @ join '', '' (map py_repr xs) @ '']''"
| "py_repr (JDict kvs) = ''{'' @ join '', '' (map (\<lambda>kv. repr_str (fst kv) @ '': '' @ py_repr (snd kv)) kvs) @ ''}''"

definition label_str :: "json \<Rightarrow> string" where
  "label_str j = (case j of JStr s \<Rightarrow> sanitise_key s | _ \<Rightarrow> py_repr j)"

definition label_key :: "string \<Rightarrow> string" where
  "label_key k = dget [(''brokers'', ''Broker''), (''hosts'', ''Host''), (''goalSummary'', ''goal'')] k []"

definition item_key :: "string \<Rightarrow> (string \<times> json) list \<Rightarrow> string" where
  "item_key nested_key kvs = lower (nested_key @ ''.'' @ label_str (dget kvs (label_key nested_key) JNull))"

text \<open>
  \<^verbatim>\<open>clean_results\<close> and \<^verbatim>\<open>_build_new_key\<close> call each other; the latter is the case of a labelled list with at
  least one dictionary in it.
\<close>

fun clean_results :: "json \<Rightarrow> json"
  and clean_items :: "json list \<Rightarrow> json list"
  and clean_members :: "(string \<times> json) list \<Rightarrow> (string, json) dict \<Rightarrow> (string, json) dict"
  and build_new_key :: "string \<Rightarrow> json list \<Rightarrow> (string, json) dict \<Rightarrow> (string, json) dict" where
  "clean_results (JList xs) = JList (clean_items xs)"
| "clean_results (JDict kvs) = JDict (clean_members kvs [])"
| "clean_results v = v"
| "clean_items [] = []"
| "clean_items (x # xs) = clean_results x # clean_items xs"
| "clean_members [] d = d"
| "clean_members ((k, v) # kvs) d =
     clean_members kvs
       (case v of
          JList xs \<Rightarrow>
            let new_key = (if label_key k = [] then [] else build_new_key k xs [])
            in if new_key \<noteq> [] then dmerge d new_key else dset (sanitise_key k) (JList (clean_items xs)) d
        | _ \<Rightarrow> dset (sanitise_key k) (clean_results v) d)"
| "build_new_key k [] d = d"
| "build_new_key k (x # xs) d =
     build_new_key k xs
       (case x of JDict kvs \<Rightarrow> dset (item_key k kvs) (JDict (clean_members kvs [])) d | _ \<Rightarrow> d)"


section \<open>Storages of the brokers\<close>

definition BROKERS_START :: string where "BROKERS_START = ''{'' @ DQ @ ''brokers'' @ DQ"

text \<open>\<^verbatim>\<open>re.findall(r'\{"brokers".+', raw)\<close>: the first match, to the end of its line.\<close>

fun find_brokers :: "string \<Rightarrow> string option" where
  "find_brokers [] = None"
| "find_brokers (c # s) =
     (let line = takeWhile (\<lambda>x. x \<noteq> CHR 0x0A) (c # s)
      in if startswith line BROKERS_START \<and> length line > length BROKERS_START then Some line else find_brokers s)"

text \<open>\<^verbatim>\<open>int(value)\<close> of a parsed number or text.\<close>

definition jint :: "json \<Rightarrow> exn + int" where
  "jint j =
     (case j of
        JInt i \<Rightarrow> Inr i
      | JBool b \<Rightarrow> Inr (if b then 1 else 0)
      | JStr s \<Rightarrow> (case py_int s of None \<Rightarrow> Inl ValueError | Some i \<Rightarrow> Inr i)
      | JFloat t \<Rightarrow> (case py_int (takeWhile (\<lambda>c. c \<noteq> CHR ''.'') t) of None \<Rightarrow> Inl ValueError | Some i \<Rightarrow> Inr i)
      | _ \<Rightarrow> Inl TypeError)"

definition log_dir_partitions :: "json \<Rightarrow> exn + json list" where
  "log_dir_partitions d =
     bindE (jitem ''partitions'' d) (\<lambda>ps. bindE (jiter ps) (mapE (jitem ''partition'')))"

definition storage_key :: "int \<Rightarrow> nat \<Rightarrow> string" where
  "storage_key b i = str_int b @ ''/'' @ str_nat i"

definition broker_assignment :: "json \<Rightarrow> exn + (string \<times> json list) list" where
  "broker_assignment j =
     bindE (jitem ''broker'' j) (\<lambda>b. bindE (jint b) (\<lambda>b.
     bindE (jget ''logDirs'' (JList []) j) (\<lambda>ds. bindE (jiter ds) (\<lambda>ds.
       mapE (\<lambda>(i, d). bindE (log_dir_partitions d) (\<lambda>ps. Inr (storage_key b i, ps))) (numbered ds)))))"

definition parse_log_dirs_output :: "string \<Rightarrow> exn + (string, json list) dict" where
  "parse_log_dirs_output raw =
     (case find_brokers raw of
        None \<Rightarrow> Inr []
      | Some part \<Rightarrow>
          bindE (loads part) (\<lambda>state.
          bindE (jget ''brokers'' (JList []) state) (\<lambda>bs.
          bindE (jiter bs) (\<lambda>bs.
          bindE (mapE broker_assignment bs) (\<lambda>es.
            Inr (dmerge [] (concat es)))))))"

definition get_partition_assignment :: "env \<Rightarrow> string \<Rightarrow> (string, json list) dict hook" where
  "get_partition_assignment env bootstrap =
     bindM (readM (env_connect env)) (\<lambda>up.
     bindM (liftE (ping up bootstrap)) (\<lambda>ok.
       if \<not> ok then ret []
       else bindM (tryM (bindM (balancer_run_bin_command env ''log-dirs''
                     [''--bootstrap-server'', bootstrap, ''--command-config'', client_properties BROKER, ''--describe''] []) (\<lambda>raw. ret (Some raw)))
                   is_command_error (\<lambda>e. ret None)) (\<lambda>raw.
              case raw of None \<Rightarrow> ret [] | Some raw \<Rightarrow> liftE (parse_log_dirs_output raw))))"

definition storages_drained :: "(string, json list) dict \<Rightarrow> int \<Rightarrow> bool" where
  "storages_drained assignment broker_id =
     (if assignment = [] then False
      else let ks = filter (\<lambda>k. startswith k (str_int broker_id)) (keys assignment)
           in if ks = [] then True else \<not> list_ex (\<lambda>k. dget assignment k [] \<noteq> []) ks)"

definition all_storages_drained :: "env \<Rightarrow> string \<Rightarrow> int \<Rightarrow> bool hook" where
  "all_storages_drained env bootstrap broker_id =
     bindM (get_partition_assignment env bootstrap) (\<lambda>a. ret (storages_drained a broker_id))"


section \<open>Changes of the configuration\<close>

definition jmem :: "json \<Rightarrow> json list \<Rightarrow> bool" where
  "jmem x ys = list_ex (json_eq x) ys"

text \<open>Deleted and added brokers. When there is no new file the source answers with the new list, which is empty.\<close>

definition compare_capacities_files :: "json \<Rightarrow> json \<Rightarrow> exn + json list \<times> json list" where
  "compare_capacities_files old new =
     (if \<not> json_true old then bindE (capacities_list new) (\<lambda>n. Inr ([], n))
      else if \<not> json_true new then bindE (capacities_list new) (\<lambda>n. Inr (n, []))
      else bindE (capacities_list old) (\<lambda>prev. bindE (capacities_list new) (\<lambda>n.
             Inr (filter (\<lambda>x. \<not> jmem x n) prev, filter (\<lambda>x. \<not> jmem x prev) n))))"

definition config_change_detected :: "world \<Rightarrow> exn + bool" where
  "config_change_detected w =
     (let file = workload_read w (cruise_control_properties BALANCER)
      in bindE (cruise_control_properties_of w) (\<lambda>props.
         bindE (peer_cluster w) (\<lambda>pc.
         bindE (broker_capacities_of pc) (\<lambda>caps.
         bindE (loads (concat (workload_read w (capacity_jbod_json BALANCER)))) (\<lambda>old.
           if \<not> json_eq old caps
           then bindE (compare_capacities_files old caps) (\<lambda>_. Inr True)
           else Inr (set file \<noteq> set props))))))"


section \<open>Properties\<close>

subsection \<open>Waiting for a task\<close>

text \<open>Requests are recorded and change nothing else, so an answer is a function of the trace.\<close>

lemma dmerge_params [simp]: "dmerge [] default_params = [(''json'', ''True'')]"
  by (simp add: dmerge_def default_params_def dset_def)

lemma retry_exceptions_answers: "\<exists>b. fst (retry_exceptions n c w) = Inr b"
  by (induction n arbitrary: w) (auto simp: tryM_apply split: prod.splits sum.splits)

lemma retry_until_true_answers: "\<exists>b. fst (retry_until_true n c w) = Inr b"
  by (induction n arbitrary: w) (auto simp: bindM_apply tryM_apply split: prod.splits sum.splits)

text \<open>The worlds at which the loop looks: after each look the pause is recorded.\<close>

fun look_world :: "nat \<Rightarrow> cc_api \<Rightarrow> string \<Rightarrow> world \<Rightarrow> world" where
  "look_world 0 cc task_id w = w"
| "look_world (Suc n) cc task_id w =
     (let w' = snd (task_waiting cc task_id w) in look_world n cc task_id (w'\<lparr>actions := actions w' @ [Slept]\<rparr>))"

lemma wait_for_task_rounds:
  assumes "fst (task_waiting cc task_id (look_world n cc task_id w)) = Inr False"
    and "\<forall>m < n. fst (task_waiting cc task_id (look_world m cc task_id w)) = Inr True"
  shows "n < fuel \<Longrightarrow> wait_for_task fuel cc task_id w =
      (Inr True, snd (task_waiting cc task_id (look_world n cc task_id w)))"
    and "fuel \<le> n \<Longrightarrow> fst (wait_for_task fuel cc task_id w) = Inr False"
proof -
  show "wait_for_task fuel cc task_id w = (Inr True, snd (task_waiting cc task_id (look_world n cc task_id w)))" if "n < fuel"
    using assms that
  proof (induction n arbitrary: fuel w)
    case 0
    then obtain f where "fuel = Suc f" by (cases fuel) auto
    then show ?case using 0 by (cases "task_waiting cc task_id w") (simp add: bindM_apply)
  next
    case (Suc n)
    then obtain f where f: "fuel = Suc f" by (cases fuel) auto
    obtain r w' where tw: "task_waiting cc task_id w = (r, w')" by fastforce
    with Suc.prems(2) have r: "r = Inr True" by (metis fst_conv look_world.simps(1) zero_less_Suc)
    have "\<forall>m < n. fst (task_waiting cc task_id (look_world m cc task_id (w'\<lparr>actions := actions w' @ [Slept]\<rparr>))) = Inr True"
      using Suc.prems(2) tw by (metis Suc_less_eq look_world.simps(2) snd_conv)
    then show ?case
      using Suc.IH [of "w'\<lparr>actions := actions w' @ [Slept]\<rparr>" f] Suc.prems f tw r by (simp add: bindM_apply thenM_apply Let_def)
  qed
  show "fst (wait_for_task fuel cc task_id w) = Inr False" if "fuel \<le> n"
    using assms(2) that
  proof (induction fuel arbitrary: n w)
    case (Suc f)
    then obtain k where k: "n = Suc k" by (cases n) auto
    obtain r w' where tw: "task_waiting cc task_id w = (r, w')" by fastforce
    with Suc.prems(1) k have r: "r = Inr True" by (metis fst_conv look_world.simps(1) zero_less_Suc)
    have "\<forall>m < k. fst (task_waiting cc task_id (look_world m cc task_id (w'\<lparr>actions := actions w' @ [Slept]\<rparr>))) = Inr True"
      using Suc.prems(1) tw k by (metis Suc_less_eq look_world.simps(2) snd_conv)
    then show ?case using Suc.IH [of k "w'\<lparr>actions := actions w' @ [Slept]\<rparr>"] Suc.prems(2) k tw r
      by (simp add: bindM_apply thenM_apply)
  qed simp
qed


text \<open>A task that is reported complete from the third request on.\<close>

definition slow_cc :: cc_api where
  "slow_cc =
     \<lparr>cc_get = \<lambda>w endpoint params.
        Inr (if endpoint = ''user_tasks''
             then JDict [(''userTasks'', JList [JDict [(''UserTaskId'', JStr ''t1''),
                    (''Status'', JStr (case actions w of _ # _ # _ \<Rightarrow> ''Completed'' | _ \<Rightarrow> ''Active''))]])]
             else JDict [(''ExecutorState'', JDict [(''state'', JStr ''NO_TASK_IN_PROGRESS'')])]),
      cc_post = \<lambda>w endpoint params. Inr (200, JNull, None)\<rparr>"



subsection \<open>Storages\<close>

lemma three_digits: "100 \<le> b \<Longrightarrow> b < 1000 \<Longrightarrow> length (str_int b) = 3"
proof -
  assume "100 \<le> b" "b < 1000"
  then have "\<not> nat b < 10" "\<not> nat b div 10 < 10" "nat b div 10 div 10 < 10" by linarith+
  with \<open>100 \<le> b\<close> show ?thesis
    by (simp add: str_int_def str_nat.simps [of "nat b"] str_nat.simps [of "nat b div 10"] str_nat.simps [of "nat b div 10 div 10"])
qed

lemma storage_key_prefix:
  assumes "100 \<le> b" "b < 1000" "100 \<le> c" "c < 1000"
  shows "startswith (storage_key c i) (str_int b) \<longleftrightarrow> c = b"
proof
  assume "startswith (storage_key c i) (str_int b)"
  then obtain t where "str_int c @ ''/'' @ str_nat i = str_int b @ t" by (auto simp: startswith_iff storage_key_def)
  with three_digits assms have "str_int c = str_int b" by (metis append_eq_append_conv)
  then show "c = b" by simp
qed (simp add: storage_key_def)

text \<open>For the broker ids the charm gives out, which have three digits, a broker counts as drained exactly
  when the cluster reports some assignment and no storage of that broker has a partition on it.\<close>

theorem storages_drained_exact:
  assumes "\<forall>k \<in> set (keys assignment). \<exists>b i. 100 \<le> b \<and> b < 1000 \<and> k = storage_key b i"
    and "100 \<le> broker_id" "broker_id < 1000"
  shows "storages_drained assignment broker_id \<longleftrightarrow>
    assignment \<noteq> [] \<and> (\<forall>i. dget assignment (storage_key broker_id i) [] = [])"
proof -
  have own: "k \<in> set (keys assignment) \<Longrightarrow> startswith k (str_int broker_id) \<longleftrightarrow> (\<exists>i. k = storage_key broker_id i)" for k
    using assms storage_key_prefix by (metis storage_key_def startswith_append)
  have "storages_drained assignment broker_id \<longleftrightarrow> assignment \<noteq> [] \<and>
      (\<forall>k \<in> set (keys assignment). startswith k (str_int broker_id) \<longrightarrow> dget assignment k [] = [])"
    by (auto simp: storages_drained_def Let_def filter_empty_conv list_ex_iff)
  also have "\<dots> \<longleftrightarrow> assignment \<noteq> [] \<and> (\<forall>i. dget assignment (storage_key broker_id i) [] = [])"
    using own by (auto simp: dget_def dom_def split: option.splits)
  finally show ?thesis .
qed

theorem storages_drained_exact_witness:
  "storages_drained [(''100/0'', []), (''101/0'', [JStr ''t-0''])] 100"
proof -
  let ?a = "[(''100/0'', []), (''101/0'', [JStr ''t-0''])]"
  have k: "''100/0'' = storage_key 100 0" "''101/0'' = storage_key 101 0" by code_simp+
  have "\<exists>b i. 100 \<le> b \<and> b < 1000 \<and> storage_key 100 0 = storage_key b i"
    "\<exists>b i. 100 \<le> b \<and> b < 1000 \<and> storage_key 101 0 = storage_key b i"
    by (intro exI [of _ 100] exI [of _ 0], simp) (intro exI [of _ 101] exI [of _ 0], simp)
  then have "\<forall>k \<in> set (keys ?a). \<exists>b i. 100 \<le> b \<and> b < 1000 \<and> k = storage_key b i"
    unfolding k keys_def by simp
  moreover have "storage_key 100 i \<noteq> ''101/0''" for i
    unfolding storage_key_def by (simp add: str_int_code str_pos.simps digit_char_def)
  ultimately show ?thesis using storages_drained_exact [of ?a 100] by (auto simp: dget_def)
qed

text \<open>The ids are compared as text: with ids of different lengths a broker waits for the partitions of another.\<close>

lemma storages_prefix_collision: "\<not> storages_drained [(''10/0'', [JStr ''t-0''])] 1"
  by code_simp


subsection \<open>Capacities\<close>

text \<open>When the new file is missing, the brokers of the old one are not reported as deleted.\<close>

lemma deleted_brokers_lost: "json_true old \<Longrightarrow> compare_capacities_files old (JDict []) = Inr ([], [])"
  by (simp add: compare_capacities_files_def capacities_list_def)


subsection \<open>Results of actions\<close>

text \<open>All keys at all levels of a value.\<close>

fun json_keys :: "json \<Rightarrow> string list" where
  "json_keys (JList xs) = concat (map json_keys xs)"
| "json_keys (JDict kvs) = concat (map (\<lambda>kv. fst kv # json_keys (snd kv)) kvs)"
| "json_keys _ = []"


lemma lower_lower [simp]: "lower (lower s) = lower s"
  by (auto simp: lower_def lower_char_def Let_def)

lemma lower_sanitise [simp]: "lower (sanitise_key k) = sanitise_key k"
  by (simp add: sanitise_key_def)

lemma lower_item_key [simp]: "lower (item_key k kvs) = item_key k kvs"
  by (simp add: item_key_def)

abbreviation lower_keys :: "json \<Rightarrow> bool" where
  "lower_keys j \<equiv> list_all (\<lambda>k. lower k = k) (json_keys j)"

abbreviation lower_members :: "(string, json) dict \<Rightarrow> bool" where
  "lower_members d \<equiv> list_all (\<lambda>kv. lower (fst kv) = fst kv \<and> lower_keys (snd kv)) d"

lemma lower_keys_dict [simp]: "lower_keys (JDict d) \<longleftrightarrow> lower_members d"
  by (induction d) auto

lemma lower_keys_list [simp]: "lower_keys (JList js) \<longleftrightarrow> list_all lower_keys js"
  by (induction js) auto

declare json_keys.simps(1,2) [simp del]

lemma lower_members_dset: "lower_members d \<Longrightarrow> lower k = k \<Longrightarrow> lower_keys v \<Longrightarrow> lower_members (dset k v d)"
  by (induction d) (auto simp: dset_def)

lemma lower_members_dmerge: "lower_members e \<Longrightarrow> lower_members d \<Longrightarrow> lower_members (dmerge d e)"
  unfolding dmerge_def by (induction e arbitrary: d) (auto simp: lower_members_dset split: prod.splits)

lemma clean_lower:
  "lower_keys (clean_results j)"
  "list_all lower_keys (clean_items js)"
  "lower_members d \<Longrightarrow> lower_members (clean_members kvs d)"
  "lower_members d \<Longrightarrow> lower_members (build_new_key k js d)"
proof (induction j and js and kvs d and k js d
    rule: clean_results_clean_items_clean_members_build_new_key.induct)
qed (auto simp: Let_def lower_members_dset lower_members_dmerge split: json.splits)

text \<open>Every key, at every level, of a rebalance proposal cleaned for an action result is in lower case.\<close>

theorem clean_results_lower_case: "list_all (\<lambda>k. lower k = k) (json_keys (clean_results j))"
  by (rule clean_lower)

end
