(* ===== verification/Regex.thy ===== *)
theory Regex
  imports Kafka_Prelude
begin

text \<open>
  What the charm uses of Python's \<^verbatim>\<open>re\<close>: compiled patterns with numbered groups, greedy and lazy
  repetition and anchors, the backtracking matcher, \<^verbatim>\<open>match\<close>, \<^verbatim>\<open>finditer\<close> and \<^verbatim>\<open>sub\<close> with a
  replacement template. The matcher lists all ways to match in the order in which it tries
  them; the first is the match. \<open>run_iff\<close> relates it to the relation a pattern denotes.
\<close>

section \<open>Patterns\<close>

datatype rx =
    Class "char \<Rightarrow> bool"
  | Epsilon
  | Seq rx rx
  | Alt rx rx
  | Star bool rx
  | Group nat rx
  | AtStart
  | AtEnd

text \<open>\<open>Star True\<close> is \<^verbatim>\<open>*\<close>, \<open>Star False\<close> is \<^verbatim>\<open>*?\<close>.\<close>

primrec lit :: "string \<Rightarrow> rx" where
  "lit [] = Epsilon"
| "lit (c # s) = Seq (Class (\<lambda>x. x = c)) (lit s)"

definition any_char :: rx where
  "any_char = Class (\<lambda>x. x \<noteq> CHR 0x0A)"

definition spaces :: rx where
  "spaces = Star True (Class is_space)"

definition optional_rx :: "rx \<Rightarrow> rx" where
  "optional_rx r = Alt r Epsilon"

primrec group_count :: "rx \<Rightarrow> nat" where
  "group_count (Class p) = 0"
| "group_count Epsilon = 0"
| "group_count (Seq a b) = group_count a + group_count b"
| "group_count (Alt a b) = group_count a + group_count b"
| "group_count (Star g a) = group_count a"
| "group_count (Group n a) = Suc (group_count a)"
| "group_count AtStart = 0"
| "group_count AtEnd = 0"


section \<open>The matcher\<close>

text \<open>
  A state is the text still to match and the groups matched so far, the latest first; \<open>n\<close> is the
  length of the whole text. An empty iteration ends a repetition.
\<close>

type_synonym groups = "(nat \<times> string) list"
type_synonym mstate = "string \<times> groups"

definition consumed :: "string \<Rightarrow> string \<Rightarrow> string" where
  "consumed s t = take (length s - length t) s"

function (sequential) ways :: "nat \<Rightarrow> rx \<Rightarrow> mstate \<Rightarrow> mstate list" where
  "ways n (Class p) (s, g) = (case s of [] \<Rightarrow> [] | x # t \<Rightarrow> if p x then [(t, g)] else [])"
| "ways n Epsilon st = [st]"
| "ways n (Seq a b) st = concat (map (ways n b) (ways n a st))"
| "ways n (Alt a b) st = ways n a st @ ways n b st"
| "ways n (Star greedy a) st =
     (let more = concat (map (\<lambda>st'. if length (fst st') < length (fst st) then ways n (Star greedy a) st' else [st']) (ways n a st))
      in if greedy then more @ [st] else st # more)"
| "ways n (Group k a) st = map (\<lambda>st'. (fst st', (k, consumed (fst st) (fst st')) # snd st')) (ways n a st)"
| "ways n AtStart st = (if length (fst st) = n then [st] else [])"
| "ways n AtEnd st = (if fst st \<in> {[], [CHR 0x0A]} then [st] else [])"
  by pat_completeness auto
termination
  by (relation "measures [\<lambda>(n, r, st). size r, \<lambda>(n, r, st). length (fst st)]") auto

declare ways.simps(5) [simp del]
lemmas run_star = ways.simps(5)

definition re_match :: "rx \<Rightarrow> string \<Rightarrow> mstate option" where
  "re_match r s = (case ways (length s) r (s, []) of [] \<Rightarrow> None | st # _ \<Rightarrow> Some st)"

definition group_of :: "groups \<Rightarrow> nat \<Rightarrow> string option" where
  "group_of g k = map_of g k"


section \<open>What a pattern denotes\<close>

text \<open>\<open>denotes n r s t\<close>: the pattern matches \<open>s\<close> up to \<open>t\<close>, disregarding groups and priorities.\<close>

primrec denotes :: "nat \<Rightarrow> rx \<Rightarrow> string \<Rightarrow> string \<Rightarrow> bool" where
  "denotes n (Class p) = (\<lambda>s t. \<exists>x. p x \<and> s = x # t)"
| "denotes n Epsilon = (=)"
| "denotes n (Seq a b) = denotes n a OO denotes n b"
| "denotes n (Alt a b) = (\<lambda>s t. denotes n a s t \<or> denotes n b s t)"
| "denotes n (Star g a) = (denotes n a)\<^sup>*\<^sup>*"
| "denotes n (Group k a) = denotes n a"
| "denotes n AtStart = (\<lambda>s t. s = t \<and> length s = n)"
| "denotes n AtEnd = (\<lambda>s t. s = t \<and> s \<in> {[], [CHR 0x0A]})"

lemma denotes_suffix: "denotes n r s t \<Longrightarrow> \<exists>u. s = u @ t"
proof (induction r arbitrary: s t)
  case (Star g a)
  from Star.prems have "(denotes n a)\<^sup>*\<^sup>* s t" by simp
  then show ?case
  proof (induction rule: rtranclp_induct)
    case (step y z)
    then obtain u v where "s = u @ y" "y = v @ z" using Star.IH by blast
    then show ?case by (metis append.assoc)
  qed simp
qed fastforce+

lemma in_run_star:
  "x \<in> set (ways n (Star g a) st) \<longleftrightarrow>
     x = st \<or> (\<exists>y \<in> set (ways n a st). x \<in> set (if length (fst y) < length (fst st) then ways n (Star g a) y else [y]))"
  by (subst run_star) (auto simp: Let_def)

lemma run_sound: "st' \<in> set (ways n r st) \<Longrightarrow> denotes n r (fst st) (fst st')"
proof (induction n r st arbitrary: st' rule: ways.induct)
  case (3 n a b st)
  then obtain y where y: "y \<in> set (ways n a st)" "st' \<in> set (ways n b y)" by auto
  show ?case unfolding denotes.simps by (rule relcomppI, rule "3.IH"(1) [OF y(1)], rule "3.IH"(2) [OF y])
next
  case (5 n greedy a st)
  from "5.prems" consider "st' = st" | y where "y \<in> set (ways n a st)"
      "st' \<in> set (if length (fst y) < length (fst st) then ways n (Star greedy a) y else [y])"
    using in_run_star [THEN iffD1] by blast
  then show ?case
  proof cases
    case 2
    then have "denotes n a (fst st) (fst y)" using "5.IH"(1) by blast
    moreover have "denotes n (Star greedy a) (fst y) (fst st')"
      using 2 "5.IH"(2) by (auto split: if_splits)
    ultimately show ?thesis by (simp add: converse_rtranclp_into_rtranclp)
  qed simp
qed (auto split: list.splits if_splits)

lemma star_progress:
  "(denotes n a)\<^sup>*\<^sup>* s t \<Longrightarrow> s \<noteq> t \<Longrightarrow> \<exists>m. denotes n a s m \<and> length m < length s \<and> (denotes n a)\<^sup>*\<^sup>* m t"
proof (induction rule: converse_rtranclp_induct)
  case (step y z)
  show ?case
  proof (cases "z = y")
    case False
    then have "length z < length y" using denotes_suffix [OF step(1)] by auto
    with step show ?thesis by blast
  qed (use step in blast)
qed simp

lemma run_complete: "denotes n r s t \<Longrightarrow> \<exists>g'. (t, g') \<in> set (ways n r (s, g))"
proof (induction r arbitrary: s t g)
  case (Seq a b)
  from Seq.prems obtain m where m: "denotes n a s m" "denotes n b m t" by auto
  obtain g1 where 1: "(m, g1) \<in> set (ways n a (s, g))" using Seq.IH(1) [OF m(1), of g] by blast
  obtain g2 where "(t, g2) \<in> set (ways n b (m, g1))" using Seq.IH(2) [OF m(2), of g1] by blast
  with 1 have "(t, g2) \<in> set (ways n (Seq a b) (s, g))" by (auto intro: bexI [OF _ 1])
  then show ?case ..
next
  case (Star greedy a)
  from Star.prems have "(denotes n a)\<^sup>*\<^sup>* s t" by simp
  then show ?case
  proof (induction s arbitrary: g rule: measure_induct_rule [of length])
    case (less s)
    show ?case
    proof (cases "s = t")
      case True
      then have "(t, g) \<in> set (ways n (Star greedy a) (s, g))" by (intro in_run_star [THEN iffD2] disjI1) simp
      then show ?thesis ..
    next
      case False
      then obtain m where m: "denotes n a s m" "length m < length s" "(denotes n a)\<^sup>*\<^sup>* m t"
        using star_progress [OF less.prems] by blast
      obtain g1 where 1: "(m, g1) \<in> set (ways n a (s, g))" using Star.IH [OF m(1), of g] by blast
      obtain g2 where 2: "(t, g2) \<in> set (ways n (Star greedy a) (m, g1))" using less.IH [OF m(2,3), of g1] by blast
      have "(t, g2) \<in> set (ways n (Star greedy a) (s, g))"
        by (intro in_run_star [THEN iffD2] disjI2 bexI [OF _ 1]) (use m(2) 2 in simp)
      then show ?thesis ..
    qed
  qed
next
  case (Alt a b)
  from Alt.prems have "denotes n a s t \<or> denotes n b s t" by simp
  then show ?case using Alt.IH(1) [of s t g] Alt.IH(2) [of s t g] unfolding ways.simps set_append by blast
next
  case (Group k a)
  then obtain g1 where "(t, g1) \<in> set (ways n a (s, g))" unfolding denotes.simps by blast
  then show ?case by (auto intro!: image_eqI [of _ _ "(t, g1)"])
qed auto

lemma run_iff: "(\<exists>g'. (t, g') \<in> set (ways n r (s, g))) \<longleftrightarrow> denotes n r s t"
  using run_sound [of _ n r "(s, g)"] run_complete [of n r s t g] by fastforce

lemma run_suffix: "st' \<in> set (ways n r st) \<Longrightarrow> \<exists>u. fst st = u @ fst st'"
  using run_sound denotes_suffix by blast

lemma re_match_iff: "re_match r s \<noteq> None \<longleftrightarrow> (\<exists>t. denotes (length s) r s t)"
proof -
  have "(\<exists>t. denotes (length s) r s t) \<longleftrightarrow> (\<exists>t g. (t, g) \<in> set (ways (length s) r (s, [])))"
    using run_iff [of _ "length s" r s "[]"] by blast
  then show ?thesis by (auto simp: re_match_def neq_Nil_conv split: list.splits)
qed


section \<open>Searching and replacing\<close>

text \<open>
  The first match at or after the start of \<open>s\<close>: the text skipped, the text where the match starts,
  and the state after it. A match right after an empty one must not be empty.
\<close>

fun search :: "nat \<Rightarrow> rx \<Rightarrow> bool \<Rightarrow> string \<Rightarrow> (string \<times> string \<times> mstate) option" where
  "search n r advance s =
     (case filter (\<lambda>st. advance \<longrightarrow> fst st \<noteq> s) (ways n r (s, [])) of
        st # _ \<Rightarrow> Some ([], s, st)
      | [] \<Rightarrow>
          (case s of
             [] \<Rightarrow> None
           | x # t \<Rightarrow> map_option (\<lambda>(skipped, at, st). (x # skipped, at, st)) (search n r False t)))"

declare search.simps [simp del]

text \<open>The matches of \<^verbatim>\<open>finditer\<close>, each with the text skipped before it, and the rest of the text.\<close>

record found =
  skipped :: string
  whole :: string
  found_groups :: groups

lemma search_suffix:
  "search n r advance s = Some (sk, at, st) \<Longrightarrow>
     s = sk @ at \<and> (\<exists>u. at = u @ fst st \<and> (advance \<longrightarrow> sk = [] \<longrightarrow> u \<noteq> []))"
proof (induction n r advance s arbitrary: sk at rule: search.induct)
  case (1 n r advance s)
  show ?case
  proof (cases "filter (\<lambda>st. advance \<longrightarrow> fst st \<noteq> s) (ways n r (s, []))")
    case Nil
    with "1.prems" obtain x t sk' where "s = x # t" "search n r False t = Some (sk', at, st)" "sk = x # sk'"
      by (auto simp: search.simps [of n r advance s] split: list.splits)
    with "1.IH" [OF Nil] show ?thesis by auto
  next
    case (Cons y ys)
    with "1.prems" have "sk = []" "at = s" "y = st" by (auto simp: search.simps [of n r advance s])
    moreover have "st \<in> set (ways n r (s, []))" "advance \<longrightarrow> fst st \<noteq> s"
      using Cons \<open>y = st\<close> filter_eq_ConsD [OF Cons] by auto
    ultimately show ?thesis using run_suffix [of st n r "(s, [])"] by auto
  qed
qed

function find_iter :: "nat \<Rightarrow> rx \<Rightarrow> bool \<Rightarrow> string \<Rightarrow> found list \<times> string" where
  "find_iter n r advance s =
     (case search n r advance s of
        None \<Rightarrow> ([], s)
      | Some (sk, at, st) \<Rightarrow>
          let (ms, tail) = find_iter n r (fst st = at) (fst st)
          in (\<lparr>skipped = sk, whole = consumed at (fst st), found_groups = snd st\<rparr> # ms, tail))"
  by pat_completeness auto
termination
proof (relation "measure (\<lambda>(n, r, advance, s). 2 * length s + (if advance then 0 else 1))", goal_cases)
  case (2 n r advance s x sk y at st)
  then obtain u where u: "s = sk @ u @ fst st" "advance \<longrightarrow> sk = [] \<longrightarrow> u \<noteq> []" "at = u @ fst st"
    using search_suffix [of n r advance s sk at st] by auto
  show ?case
  proof (cases "u = []")
    case False
    then have "1 \<le> length u" by (cases u) auto
    with u False show ?thesis by simp
  next
    case True
    with u have "advance \<longrightarrow> 1 \<le> length sk" by (cases sk) auto
    with u True show ?thesis by auto
  qed
qed simp

declare find_iter.simps [simp del]

definition finditer :: "rx \<Rightarrow> string \<Rightarrow> found list" where
  "finditer r s = fst (find_iter (length s) r False s)"

text \<open>\<^verbatim>\<open>re.sub\<close> with a function of the match.\<close>

definition re_sub :: "rx \<Rightarrow> (found \<Rightarrow> exn + string) \<Rightarrow> string \<Rightarrow> exn + string" where
  "re_sub r f s =
     (let (ms, tail) = find_iter (length s) r False s
      in bindE (mapE (\<lambda>m. bindE (f m) (\<lambda>v. Inr (skipped m @ v))) ms) (\<lambda>parts. Inr (concat parts @ tail)))"

section \<open>Templates\<close>

text \<open>
  The replacement text of \<^verbatim>\<open>sub\<close>: \<^verbatim>\<open>\1\<close> to \<^verbatim>\<open>\99\<close> and \<^verbatim>\<open>\g<n>\<close> insert groups, three octal digits or a
  leading zero name a character, \<^verbatim>\<open>\n\<close> and the like are the usual characters, other letters are
  errors, and a backslash before anything else stays. A group that took no part is empty.
\<close>

definition is_octal :: "char \<Rightarrow> bool" where
  "is_octal c \<longleftrightarrow> is_digit c \<and> digit_val c < 8"

definition template_error :: exn where
  "template_error = PyException ''re.error''"

definition insert_group :: "nat \<Rightarrow> groups \<Rightarrow> nat \<Rightarrow> exn + string" where
  "insert_group count g k =
     (if k \<le> count then Inr (case group_of g k of None \<Rightarrow> [] | Some v \<Rightarrow> v) else Inl template_error)"

definition control_escapes :: "(char \<times> nat) list" where
  "control_escapes =
     [(CHR ''a'', 7), (CHR ''b'', 8), (CHR ''f'', 12), (CHR ''n'', 10), (CHR ''r'', 13), (CHR ''t'', 9), (CHR ''v'', 11),
      (CHR 0x5C, 92)]"

definition octal :: "string \<Rightarrow> nat" where
  "octal ds = foldl (\<lambda>n d. 8 * n + digit_val d) 0 ds"

text \<open>What follows a backslash: the inserted text and what is left of the template.\<close>

definition is_letter :: "char \<Rightarrow> bool" where
  "is_letter c \<longleftrightarrow> (let n = (of_char c :: nat) in 65 \<le> n \<and> n \<le> 90 \<or> 97 \<le> n \<and> n \<le> 122)"

definition template_escape :: "nat \<Rightarrow> groups \<Rightarrow> char \<Rightarrow> string \<Rightarrow> exn + (string \<times> string)" where
  "template_escape count g c s =
     (if c = CHR ''0'' then
        (let ds = takeWhile is_octal (take 2 s) in Inr ([char_of (octal ds)], drop (length ds) s))
      else if is_digit c then
        (case s of
           d # s' \<Rightarrow>
             if is_digit d then
               (case s' of
                  e # s'' \<Rightarrow>
                    if is_octal c \<and> is_octal d \<and> is_octal e
                    then if octal [c, d, e] > 255 then Inl template_error else Inr ([char_of (octal [c, d, e])], s'')
                    else bindE (insert_group count g (10 * digit_val c + digit_val d)) (\<lambda>v. Inr (v, s'))
                | [] \<Rightarrow> bindE (insert_group count g (10 * digit_val c + digit_val d)) (\<lambda>v. Inr (v, s')))
             else bindE (insert_group count g (digit_val c)) (\<lambda>v. Inr (v, s))
         | [] \<Rightarrow> bindE (insert_group count g (digit_val c)) (\<lambda>v. Inr (v, s)))
      else if c = CHR ''g'' then
        (let name = takeWhile (\<lambda>x. x \<noteq> CHR ''>'') (drop 1 s)
         in if startswith s ''<'' \<and> length name + 1 < length s \<and> name \<noteq> [] \<and> list_all is_digit name
            then bindE (insert_group count g (foldl (\<lambda>n d. 10 * n + digit_val d) 0 name)) (\<lambda>v. Inr (v, drop (length name + 2) s))
            else Inl template_error)
      else case map_of control_escapes c of
             Some n \<Rightarrow> Inr ([char_of n], s)
           | None \<Rightarrow> if is_letter c then Inl template_error else Inr ([CHR 0x5C, c], s))"

lemma template_escape_shorter: "template_escape count g c s = Inr (v, s') \<Longrightarrow> length s' \<le> length s"
  by (auto simp: template_escape_def Let_def bindE_Inr split: if_splits list.splits option.splits)

function expand :: "nat \<Rightarrow> groups \<Rightarrow> string \<Rightarrow> exn + string" where
  "expand count g [] = Inr []"
| "expand count g (c # s) =
     (if c \<noteq> CHR 0x5C then bindE (expand count g s) (\<lambda>v. Inr (c # v))
      else case s of
             [] \<Rightarrow> Inl template_error
           | d # s' \<Rightarrow>
               (case template_escape count g d s' of
                  Inl e \<Rightarrow> Inl e
                | Inr (v, s'') \<Rightarrow> bindE (expand count g s'') (\<lambda>u. Inr (v @ u))))"
  by pat_completeness auto
termination
  by (relation "measure (\<lambda>(count, g, s). length s)") (auto dest!: template_escape_shorter)

text \<open>\<^verbatim>\<open>pattern.sub(template, s)\<close>. Group 0 is the whole match.\<close>

definition sub_template :: "rx \<Rightarrow> string \<Rightarrow> string \<Rightarrow> exn + string" where
  "sub_template r template s =
     re_sub r (\<lambda>m. expand (group_count r) ((0, whole m) # found_groups m) template) s"


section \<open>The match that is found\<close>

text \<open>\<open>finds n r st st'\<close>: the first way to match \<open>r\<close> from \<open>st\<close> ends in \<open>st'\<close>.\<close>

definition finds :: "nat \<Rightarrow> rx \<Rightarrow> mstate \<Rightarrow> mstate \<Rightarrow> bool" where
  "finds n r st st' \<longleftrightarrow> (\<exists>more. ways n r st = st' # more)"

lemma first_basic:
  "p x \<Longrightarrow> finds n (Class p) (x # t, g) (t, g)"
  "finds n Epsilon st st"
  "finds n AtEnd ([], g) ([], g)"
  "finds n (Star False a) st st"
  by (simp_all add: finds_def run_star Let_def)

lemma first_Seq: "finds n a st y \<Longrightarrow> finds n b y z \<Longrightarrow> finds n (Seq a b) st z"
  by (auto simp: finds_def)

lemma first_Alt1: "finds n a st y \<Longrightarrow> finds n (Alt a b) st y"
  by (auto simp: finds_def)

lemma first_Alt2: "ways n a st = [] \<Longrightarrow> finds n b st y \<Longrightarrow> finds n (Alt a b) st y"
  by (auto simp: finds_def)

lemma first_Group: "finds n a (s, g) (t, h) \<Longrightarrow> finds n (Group k a) (s, g) (t, (k, consumed s t) # h)"
  by (auto simp: finds_def)

lemma first_Star_stop: "ways n a st = [] \<Longrightarrow> finds n (Star True a) st st"
  by (simp add: finds_def run_star)

lemma first_Star_step:
  assumes "finds n a st y" and "length (fst y) < length (fst st)" and "finds n (Star True a) y z"
  shows "finds n (Star True a) st z"
  using assms unfolding finds_def by (subst run_star) (auto simp: Let_def)

lemma first_lit: "finds n (lit u) (u @ t, g) (t, g)"
  by (induction u) (auto intro: first_basic first_Seq)

lemma run_lit_other: "s = [] \<or> hd s \<noteq> c \<Longrightarrow> ways n (lit (c # u)) (s, g) = []"
  by (auto split: list.splits)

lemma first_Star_Class:
  "list_all p u \<Longrightarrow> t = [] \<or> \<not> p (hd t) \<Longrightarrow> finds n (Star True (Class p)) (u @ t, g) (t, g)"
proof (induction u)
  case Nil
  then show ?case by (auto intro!: first_Star_stop split: list.splits)
next
  case (Cons x u)
  then show ?case by (auto intro!: first_Star_step [OF first_basic(1)])
qed

lemma consumed_append [simp]: "consumed (u @ t) t = u"
  by (simp add: consumed_def)

lemma first_match: "finds (length s) r (s, []) st \<Longrightarrow> re_match r s = Some st"
  by (auto simp: finds_def re_match_def)

lemma first_search: "finds n r (s, []) st \<Longrightarrow> search n r False s = Some ([], s, st)"
  by (subst search.simps) (auto simp: finds_def)

end
