(* ===== verification/Principal_Mapper.thy ===== *)
theory Principal_Mapper
  imports Regex
begin

text \<open>
  \<^verbatim>\<open>managers/ssl_principal_mapper.py\<close>: the rules that turn the distinguished name of a client
  certificate into the name of a Kafka principal. Compiling the pattern of a rule is a
  parameter, a function from its text to a pattern or an error.
\<close>

section \<open>Rules\<close>

record Rule =
  is_default :: bool
  rule_pattern :: "(string \<times> rx) option"
  replacement :: "string option"
  to_lower_case :: bool
  to_upper_case :: bool

definition mk_rule ::
    "(string \<Rightarrow> exn + rx) \<Rightarrow> string option \<Rightarrow> string option \<Rightarrow> bool \<Rightarrow> bool \<Rightarrow> exn + Rule" where
  "mk_rule compile pattern repl lower_case upper_case =
     bindE (case pattern of
              None \<Rightarrow> Inr None
            | Some p \<Rightarrow> if p = [] then Inr None else bindE (compile p) (\<lambda>r. Inr (Some (p, r)))) (\<lambda>compiled.
       Inr \<lparr>is_default = (pattern = None), rule_pattern = compiled, replacement = repl,
            to_lower_case = lower_case, to_upper_case = upper_case\<rparr>)"

definition default_rule :: Rule where
  "default_rule =
     \<lparr>is_default = True, rule_pattern = None, replacement = None, to_lower_case = False, to_upper_case = False\<rparr>"

definition BACK_REFERENCE_PATTERN :: rx where
  "BACK_REFERENCE_PATTERN = Seq (lit ''$'') (Group 1 (Seq (Class is_digit) (Star True (Class is_digit))))"

definition back_reference :: "nat \<Rightarrow> found \<Rightarrow> exn + string" where
  "back_reference num_capturing_groups m =
     (case map_option py_int (group_of (found_groups m) 1) of
        Some (Some i) \<Rightarrow>
          Inr (if 1 \<le> i \<and> i \<le> int num_capturing_groups then CHR 0x5C # str_int i else CHR ''$'' # str_int i)
      | _ \<Rightarrow> Inl ValueError)"

definition escape_literal_back_references :: "string \<Rightarrow> nat \<Rightarrow> exn + string" where
  "escape_literal_back_references unescaped num_capturing_groups =
     re_sub BACK_REFERENCE_PATTERN (back_reference num_capturing_groups) unescaped"

definition apply_rule :: "Rule \<Rightarrow> string \<Rightarrow> exn + string option" where
  "apply_rule r distinguished_name =
     (case (rule_pattern r, replacement r) of
        (Some (_, pattern), Some repl) \<Rightarrow>
          if is_default r then Inr (Some distinguished_name)
          else case re_match pattern distinguished_name of
                 None \<Rightarrow> Inr None
               | Some _ \<Rightarrow>
                   bindE (escape_literal_back_references repl (group_count pattern)) (\<lambda>template.
                   bindE (sub_template pattern template distinguished_name) (\<lambda>result.
                     Inr (Some (if to_lower_case r then lower result
                                else if to_upper_case r then upper result else result))))
      | _ \<Rightarrow> Inr (Some distinguished_name))"

definition rule_repr :: "Rule \<Rightarrow> string" where
  "rule_repr r =
     (if is_default r then ''DEFAULT''
      else ''RULE:'' @ (case rule_pattern r of None \<Rightarrow> [] | Some (p, _) \<Rightarrow> p)
           @ (case replacement r of None \<Rightarrow> [] | Some v \<Rightarrow> ''/'' @ v)
           @ (if to_lower_case r then ''/L'' else if to_upper_case r then ''/U'' else []))"


section \<open>The list of rules\<close>

text \<open>\<^verbatim>\<open>(\\.|[^\\/])*\<close> with its group, and \<^verbatim>\<open>RULE_PATTERN\<close>, whose groups are numbered from \<open>k + 1\<close>.\<close>

definition rule_field :: "nat \<Rightarrow> rx" where
  "rule_field k =
     Star True (Group k (Alt (Seq (Class (\<lambda>x. x = CHR 0x5C)) any_char) (Class (\<lambda>x. x \<noteq> CHR 0x5C \<and> x \<noteq> CHR ''/''))))"

definition RULE_BODY :: "nat \<Rightarrow> rx" where
  "RULE_BODY k =
     Seq (lit ''RULE:'') (Seq (Group (k + 2) (rule_field (k + 3))) (Seq (lit ''/'')
       (Seq (Group (k + 4) (rule_field (k + 5))) (Seq (lit ''/'')
         (Seq (Group (k + 6) (optional_rx (Class (\<lambda>x. x = CHR ''L'' \<or> x = CHR ''U'')))) (Star False any_char))))))"

definition RULE_PATTERN :: "nat \<Rightarrow> rx" where
  "RULE_PATTERN k = Alt (Group (k + 1) (lit ''DEFAULT'')) (Alt (RULE_BODY k) (Group (k + 7) (Star False any_char)))"

definition RULE_SPLITTER :: rx where
  "RULE_SPLITTER =
     Seq spaces (Seq (Group 1 (RULE_PATTERN 1)) (Seq spaces (Group 9 (Alt (Seq (lit '','') spaces) AtEnd))))"

definition RULE_PARSER :: rx where
  "RULE_PARSER = RULE_PATTERN 0"

definition split_rules :: "string \<Rightarrow> string list" where
  "split_rules rules =
     map (\<lambda>m. case group_of (found_groups m) 1 of None \<Rightarrow> [] | Some v \<Rightarrow> v) (finditer RULE_SPLITTER (strip rules))"

definition parse_rule :: "(string \<Rightarrow> exn + rx) \<Rightarrow> string \<Rightarrow> exn + Rule list" where
  "parse_rule compile rule =
     (case re_match RULE_PARSER rule of
        None \<Rightarrow> Inl ValueError
      | Some (unmatched, g) \<Rightarrow>
          if unmatched \<noteq> [] then Inl ValueError
          else if group_of g 1 \<noteq> None then Inr [default_rule]
          else case group_of g 2 of
                 None \<Rightarrow> Inr []
               | Some p \<Rightarrow>
                   bindE (mk_rule compile (Some p) (group_of g 4) (group_of g 6 = Some ''L'') (group_of g 6 = Some ''U'')) (\<lambda>r.
                     Inr [r]))"

definition parse_rules :: "(string \<Rightarrow> exn + rx) \<Rightarrow> string list \<Rightarrow> exn + Rule list" where
  "parse_rules compile rules = bindE (mapE (parse_rule compile) rules) (\<lambda>rs. Inr (concat rs))"

definition mapper_rules :: "(string \<Rightarrow> exn + rx) \<Rightarrow> string \<Rightarrow> exn + Rule list" where
  "mapper_rules compile rules = parse_rules compile (split_rules rules)"

fun get_name :: "Rule list \<Rightarrow> string \<Rightarrow> exn + string" where
  "get_name [] distinguished_name = Inl NoMatchingRuleError"
| "get_name (r # rs) distinguished_name =
     bindE (apply_rule r distinguished_name) (\<lambda>principal_name.
       case principal_name of Some n \<Rightarrow> Inr n | None \<Rightarrow> get_name rs distinguished_name)"

text \<open>The validator of the option in \<^verbatim>\<open>structured_config.py\<close>.\<close>

definition ssl_principal_mapping_rules_validator :: "(string \<Rightarrow> exn + rx) \<Rightarrow> string \<Rightarrow> exn + string" where
  "ssl_principal_mapping_rules_validator compile v = bindE (mapper_rules compile v) (\<lambda>_. Inr v)"


section \<open>Printing and reading rules\<close>

text \<open>Texts a field of a rule can hold: a backslash quotes the next character, a slash is quoted.\<close>

fun rule_field_ok :: "string \<Rightarrow> bool" where
  "rule_field_ok [] = True"
| "rule_field_ok (c # s) =
     (if c = CHR 0x5C then (case s of [] \<Rightarrow> False | d # s' \<Rightarrow> d \<noteq> CHR 0x0A \<and> rule_field_ok s')
      else c \<noteq> CHR ''/'' \<and> rule_field_ok s)"

lemma first_field:
  "rule_field_ok u \<Longrightarrow> \<exists>gs. fst ` set gs \<subseteq> {k} \<and> finds n (rule_field k) (u @ CHR ''/'' # t, g) (CHR ''/'' # t, gs @ g)"
proof (induction u arbitrary: g rule: rule_field_ok.induct)
  case 1
  have "finds n (rule_field k) (CHR ''/'' # t, g) (CHR ''/'' # t, [] @ g)"
    by (simp add: rule_field_def first_Star_stop)
  then show ?case by (intro exI [of _ "[]"]) simp
next
  case (2 c s)
  let ?a = "Alt (Seq (Class (\<lambda>x. x = CHR 0x5C)) any_char) (Class (\<lambda>x. x \<noteq> CHR 0x5C \<and> x \<noteq> CHR ''/''))"
  have step: "\<exists>gs. fst ` set gs \<subseteq> {k} \<and> finds n (rule_field k) (v @ r @ CHR ''/'' # t, g) (CHR ''/'' # t, gs @ g)"
    if v: "v \<noteq> []" "finds n ?a (v @ r @ CHR ''/'' # t, g) (r @ CHR ''/'' # t, g)"
      and ih: "\<And>g. \<exists>gs. fst ` set gs \<subseteq> {k} \<and> finds n (rule_field k) (r @ CHR ''/'' # t, g) (CHR ''/'' # t, gs @ g)" for v r
  proof -
    have 1: "finds n (Group k ?a) (v @ r @ CHR ''/'' # t, g) (r @ CHR ''/'' # t, (k, v) # g)"
      using first_Group [OF v(2), of k] by simp
    obtain gs where "fst ` set gs \<subseteq> {k}" "finds n (rule_field k) (r @ CHR ''/'' # t, (k, v) # g) (CHR ''/'' # t, gs @ (k, v) # g)"
      using ih by blast
    with v(1) show ?thesis
      by (intro exI [of _ "gs @ [(k, v)]"]) (auto simp: rule_field_def intro!: first_Star_step [OF 1])
  qed
  show ?case
  proof (cases "c = CHR 0x5C")
    case True
    with "2.prems" obtain d s' where d: "s = d # s'" "d \<noteq> CHR 0x0A" "rule_field_ok s'" by (auto split: list.splits)
    have "finds n ?a ([c, d] @ s' @ CHR ''/'' # t, g) (s' @ CHR ''/'' # t, g)"
      using True d by (auto simp: any_char_def intro!: first_Alt1 first_Seq first_basic)
    from step [OF _ this] "2.IH"(1) [OF True d(1,3)] d(1) show ?thesis by simp
  next
    case False
    with "2.prems" have ok: "c \<noteq> CHR ''/''" "rule_field_ok s" by auto
    have "finds n ?a ([c] @ s @ CHR ''/'' # t, g) (s @ CHR ''/'' # t, g)"
      using False ok by (auto intro!: first_Alt2 first_basic)
    from step [OF _ this] "2.IH"(2) [OF False ok(2)] show ?thesis by simp
  qed
qed

definition rule_text :: "string \<Rightarrow> string \<Rightarrow> string \<Rightarrow> string" where
  "rule_text p q flag = ''RULE:'' @ p @ ''/'' @ q @ ''/'' @ flag"

lemma first_body:
  assumes "rule_field_ok p" and "rule_field_ok q" and "flag \<in> {''L'', ''U''}"
  obtains gs where "finds n (RULE_BODY k) (rule_text p q flag @ t, g) (t, gs @ g)"
    "map_of gs (k + 2) = Some p" "map_of gs (k + 4) = Some q" "map_of gs (k + 6) = Some flag"
    "\<forall>j \<le> k + 1. map_of gs j = None"
proof -
  let ?s2 = "flag @ t" and ?s1 = "q @ ''/'' @ flag @ t" and ?s0 = "p @ ''/'' @ q @ ''/'' @ flag @ t"
  obtain g1 where g1: "fst ` set g1 \<subseteq> {k + 3}" "finds n (rule_field (k + 3)) (?s0, g) (CHR ''/'' # ?s1, g1 @ g)"
    using first_field [OF assms(1), of "k + 3" n ?s1 g] by auto
  let ?h1 = "(k + 2, p) # g1 @ g"
  have 1: "finds n (Group (k + 2) (rule_field (k + 3))) (?s0, g) (''/'' @ ?s1, ?h1)"
    using first_Group [OF g1(2), of "k + 2"] consumed_append [of p "''/'' @ ?s1"] by simp
  obtain g2 where g2: "fst ` set g2 \<subseteq> {k + 5}" "finds n (rule_field (k + 5)) (?s1, ?h1) (CHR ''/'' # ?s2, g2 @ ?h1)"
    using first_field [OF assms(2), of "k + 5" n ?s2 ?h1] by auto
  let ?h2 = "(k + 4, q) # g2 @ ?h1"
  have 2: "finds n (Group (k + 4) (rule_field (k + 5))) (?s1, ?h1) (''/'' @ ?s2, ?h2)"
    using first_Group [OF g2(2), of "k + 4"] consumed_append [of q "''/'' @ ?s2"] by simp
  have "finds n (optional_rx (Class (\<lambda>x. x = CHR ''L'' \<or> x = CHR ''U''))) (?s2, ?h2) (t, ?h2)"
    using assms(3) by (auto simp: optional_rx_def intro!: first_Alt1 first_basic)
  from first_Group [OF this, of "k + 6"]
  have 3: "finds n (Group (k + 6) (optional_rx (Class (\<lambda>x. x = CHR ''L'' \<or> x = CHR ''U'')))) (?s2, ?h2) (t, (k + 6, flag) # ?h2)"
    by simp
  let ?gs = "(k + 6, flag) # (k + 4, q) # g2 @ (k + 2, p) # g1"
  have none: "map_of g1 j = None" if "j \<noteq> k + 3" for j using g1(1) that by (auto simp: map_of_eq_None_iff)
  have none2: "map_of g2 j = None" if "j \<noteq> k + 5" for j using g2(1) that by (auto simp: map_of_eq_None_iff)
  show ?thesis
  proof (rule that [of ?gs])
    show "finds n (RULE_BODY k) (rule_text p q flag @ t, g) (t, ?gs @ g)"
      unfolding RULE_BODY_def rule_text_def append_assoc
      by (rule first_Seq [OF first_lit], rule first_Seq [OF 1], rule first_Seq [OF first_lit], rule first_Seq [OF 2],
          rule first_Seq [OF first_lit], rule first_Seq [OF 3]) (simp add: first_basic)
  qed (use none none2 in \<open>auto simp: map_add_def split: option.splits\<close>)
qed

lemma first_pattern_default: "finds n (RULE_PATTERN k) (''DEFAULT'' @ t, g) (t, (k + 1, ''DEFAULT'') # g)"
  using first_Group [OF first_lit [of n "''DEFAULT''" t g], of "k + 1"] consumed_append [of "''DEFAULT''" t]
  by (auto simp: RULE_PATTERN_def simp del: lit.simps consumed_append intro!: first_Alt1)

lemma first_pattern_rule: "finds n (RULE_BODY k) (rule_text p q flag @ t, g) st \<Longrightarrow> finds n (RULE_PATTERN k) (rule_text p q flag @ t, g) st"
  unfolding RULE_PATTERN_def by (rule first_Alt2, simp add: rule_text_def, rule first_Alt1)

definition printed :: "string \<Rightarrow> bool" where
  "printed u \<longleftrightarrow>
     u = ''DEFAULT'' \<or> (\<exists>p q flag. rule_field_ok p \<and> rule_field_ok q \<and> flag \<in> {''L'', ''U''} \<and> u = rule_text p q flag)"

lemma printed_ends: "printed u \<Longrightarrow> u \<noteq> [] \<and> \<not> is_space (hd u) \<and> \<not> is_space (last u)"
  by (auto simp: printed_def rule_text_def is_space_def)

lemma first_printed: "printed u \<Longrightarrow> \<exists>gs. finds n (RULE_PATTERN k) (u @ t, g) (t, gs @ g)"
  unfolding printed_def
proof (elim disjE exE conjE)
  assume "u = ''DEFAULT''"
  then show ?thesis using first_pattern_default [of n k t g] by (intro exI [of _ "[(k + 1, ''DEFAULT'')]"]) simp
next
  fix p q flag assume "rule_field_ok p" "rule_field_ok q" "flag \<in> {''L'', ''U''}" "u = rule_text p q flag"
  then show ?thesis by (metis first_body first_pattern_rule)
qed

lemma first_no_space: "s = [] \<or> \<not> is_space (hd s) \<Longrightarrow> finds n spaces (s, g) (s, g)"
  unfolding spaces_def using first_Star_Class [of is_space "[]" s n g] by simp

text \<open>The splitter at a rule, where the separator \<open>sep\<close> is a comma and a blank, or the end.\<close>

lemma first_splitter:
  assumes "printed u" and "sep = '', '' \<and> t \<noteq> [] \<and> \<not> is_space (hd t) \<or> sep = [] \<and> t = []"
  obtains h where "finds n RULE_SPLITTER (u @ sep @ t, []) (t, h)" "group_of h 1 = Some u"
proof -
  note ends = printed_ends [OF assms(1)]
  have 1: "finds n spaces (u @ sep @ t, []) (u @ sep @ t, [])" using ends by (auto intro: first_no_space)
  obtain gs where "finds n (RULE_PATTERN 1) (u @ sep @ t, []) (sep @ t, gs)" using first_printed [OF assms(1)] by fastforce
  then have 2: "finds n (Group 1 (RULE_PATTERN 1)) (u @ sep @ t, []) (sep @ t, (1, u) # gs)"
    using first_Group [of n "RULE_PATTERN 1" "u @ sep @ t" "[]" "sep @ t" gs 1] by simp
  let ?h = "(1, u) # gs"
  have 3: "finds n spaces (sep @ t, ?h) (sep @ t, ?h)" using assms(2) by (auto simp: is_space_def intro!: first_no_space)
  have "finds n (Alt (Seq (lit '','') spaces) AtEnd) (sep @ t, ?h) (t, ?h)"
    using assms(2)
  proof (elim disjE conjE)
    assume sep: "sep = '', ''" and t: "t \<noteq> []" "\<not> is_space (hd t)"
    have "finds n spaces ('' '' @ t, ?h) (t, ?h)"
      unfolding spaces_def by (rule first_Star_Class) (use t in \<open>auto simp: is_space_def\<close>)
    then have "finds n (Seq (lit '','') spaces) ('','' @ '' '' @ t, ?h) (t, ?h)" by (rule first_Seq [OF first_lit])
    then show ?thesis unfolding sep by (auto intro: first_Alt1)
  next
    assume "sep = []" "t = []"
    then show ?thesis by (auto intro!: first_Alt2 first_basic)
  qed
  then have 4: "finds n (Group 9 (Alt (Seq (lit '','') spaces) AtEnd)) (sep @ t, ?h) (t, (9, consumed (sep @ t) t) # ?h)"
    by (rule first_Group)
  show ?thesis
  proof (rule that)
    show "finds n RULE_SPLITTER (u @ sep @ t, []) (t, (9, consumed (sep @ t) t) # ?h)"
      unfolding RULE_SPLITTER_def by (rule first_Seq [OF 1], rule first_Seq [OF 2], rule first_Seq [OF 3], rule 4)
  qed (simp add: group_of_def)
qed

lemma splitter_at_end:
  obtains m where "find_iter n RULE_SPLITTER False [] = ([m], [])" "group_of (found_groups m) 1 = Some []"
proof -
  have "ways n RULE_SPLITTER ([], []) = [([], [(9, []), (1, []), (8, [])])]"
    by (simp add: RULE_SPLITTER_def RULE_PATTERN_def RULE_BODY_def spaces_def rule_field_def any_char_def run_star consumed_def)
  then have "find_iter n RULE_SPLITTER False [] =
      ([\<lparr>skipped = [], whole = [], found_groups = [(9, []), (1, []), (8, [])]\<rparr>], [])"
    by (simp add: find_iter.simps search.simps consumed_def)
  then show ?thesis by (rule that) (simp add: group_of_def)
qed

text \<open>Lists of printed rules.\<close>

lemma join_printed:
  "us \<noteq> [] \<Longrightarrow> list_all printed us \<Longrightarrow>
     join '', '' us \<noteq> [] \<and> \<not> is_space (hd (join '', '' us)) \<and> \<not> is_space (last (join '', '' us))"
proof (induction us rule: list_nonempty_induct)
  case (cons u us)
  then show ?case using printed_ends [of u] by (auto simp: join_Cons)
qed (use printed_ends in auto)

lemma find_iter_step:
  assumes "finds n r (s, []) (t, h)" and "t \<noteq> s" and "find_iter n r False t = (ms, tail)"
  obtains m where "find_iter n r False s = (m # ms, tail)" "found_groups m = h"
  using assms that by (auto simp: find_iter.simps [of n r False s] first_search)

lemma find_iter_printed:
  "us \<noteq> [] \<Longrightarrow> list_all printed us \<Longrightarrow>
     \<exists>ms. find_iter n RULE_SPLITTER False (join '', '' us) = (ms, []) \<and>
       map (\<lambda>m. group_of (found_groups m) 1) ms = map Some (us @ [[]])"
proof (induction us rule: list_nonempty_induct)
  case (single u)
  then have u: "printed u" by simp
  obtain e where e: "find_iter n RULE_SPLITTER False [] = ([e], [])" "group_of (found_groups e) 1 = Some []"
    by (rule splitter_at_end)
  obtain h where h: "finds n RULE_SPLITTER (u, []) ([], h)" "group_of h 1 = Some u"
    using first_splitter [OF u, of "[]" "[]" n] by auto
  obtain m where "find_iter n RULE_SPLITTER False u = (m # [e], [])" "found_groups m = h"
    using find_iter_step [OF h(1) _ e(1)] printed_ends [OF u] by metis
  with h e show ?case by (intro exI [of _ "[m, e]"]) simp
next
  case (cons u us)
  then have u: "printed u" and us: "list_all printed us" by auto
  let ?t = "join '', '' us"
  obtain ms where ms: "find_iter n RULE_SPLITTER False ?t = (ms, [])"
      "map (\<lambda>m. group_of (found_groups m) 1) ms = map Some (us @ [[]])"
    using cons us by blast
  have t: "?t \<noteq> []" "\<not> is_space (hd ?t)" using join_printed [OF cons(1) us] by auto
  obtain h where h: "finds n RULE_SPLITTER (u @ '', '' @ ?t, []) (?t, h)" "group_of h 1 = Some u"
    using first_splitter [OF u, of "'', ''" ?t n] t by metis
  have "?t \<noteq> u @ '', '' @ ?t" by (metis append_assoc append_self_conv2 append_is_Nil_conv not_Cons_self2 list.distinct(1))
  then obtain m where "find_iter n RULE_SPLITTER False (u @ '', '' @ ?t) = (m # ms, [])" "found_groups m = h"
    using find_iter_step [OF h(1) _ ms(1)] by metis
  with h ms cons(1) show ?case by (intro exI [of _ "m # ms"]) (simp add: join_Cons)
qed

lemma strip_ends: "s = [] \<or> \<not> is_space (hd s) \<and> \<not> is_space (last s) \<Longrightarrow> strip s = s"
proof (cases s rule: rev_cases)
  case (snoc t x)
  assume "s = [] \<or> \<not> is_space (hd s) \<and> \<not> is_space (last s)"
  with snoc show ?thesis by (cases t) (auto simp: strip_def lstrip_by_def rstrip_by_def)
qed (simp add: strip_def lstrip_by_def rstrip_by_def)

lemma split_printed: "list_all printed us \<Longrightarrow> split_rules (join '', '' us) = us @ [[]]"
proof (cases "us = []")
  case True
  obtain e where "find_iter 0 RULE_SPLITTER False [] = ([e], [])" "group_of (found_groups e) 1 = Some []"
    by (rule splitter_at_end)
  with True show ?thesis by (simp add: split_rules_def finditer_def strip_ends)
next
  case False
  assume us: "list_all printed us"
  let ?s = "join '', '' us"
  obtain ms where "find_iter (length ?s) RULE_SPLITTER False ?s = (ms, [])"
      "map (\<lambda>m. group_of (found_groups m) 1) ms = map Some (us @ [[]])"
    using find_iter_printed [OF False us] by blast
  moreover have "strip ?s = ?s" using join_printed [OF False us] by (simp add: strip_ends)
  moreover have "map (\<lambda>m. case group_of (found_groups m) 1 of None \<Rightarrow> [] | Some v \<Rightarrow> v) ms =
      map (\<lambda>x. case x of None \<Rightarrow> [] | Some v \<Rightarrow> v) (map (\<lambda>m. group_of (found_groups m) 1) ms)" by simp
  ultimately show ?thesis by (simp add: split_rules_def finditer_def comp_def)
qed

text \<open>Reading one rule.\<close>

lemma parse_default: "parse_rule compile ''DEFAULT'' = Inr [default_rule]"
proof -
  have "finds (length ''DEFAULT'') RULE_PARSER (''DEFAULT'', []) ([], [(1, ''DEFAULT'')])"
    using first_pattern_default [of "length ''DEFAULT''" 0 "[]" "[]"] by (simp add: RULE_PARSER_def)
  from first_match [OF this] show ?thesis by (simp add: parse_rule_def group_of_def)
qed

lemma parse_empty: "parse_rule compile [] = Inr []"
proof -
  have "ways 0 RULE_PARSER ([], []) = [([], [(7, [])])]"
    by (simp add: RULE_PARSER_def RULE_PATTERN_def RULE_BODY_def any_char_def run_star consumed_def)
  then show ?thesis by (simp add: parse_rule_def re_match_def group_of_def)
qed

lemma parse_rule_text:
  assumes "rule_field_ok p" and "rule_field_ok q" and "flag \<in> {''L'', ''U''}"
  shows "parse_rule compile (rule_text p q flag) =
     bindE (mk_rule compile (Some p) (Some q) (flag = ''L'') (flag = ''U'')) (\<lambda>r. Inr [r])"
proof -
  let ?s = "rule_text p q flag"
  obtain gs where gs: "finds (length ?s) (RULE_BODY 0) (?s @ [], []) ([], gs @ [])"
      "map_of gs (0 + 2) = Some p" "map_of gs (0 + 4) = Some q" "map_of gs (0 + 6) = Some flag" "\<forall>j \<le> 0 + 1. map_of gs j = None"
    by (rule first_body [OF assms, of "length ?s" 0 "[]" "[]"])
  then have "re_match RULE_PARSER ?s = Some ([], gs)"
    using first_pattern_rule [OF gs(1)] by (auto simp: RULE_PARSER_def intro: first_match)
  with gs show ?thesis by (simp add: parse_rule_def group_of_def numeral_2_eq_2)
qed

text \<open>
  The rules that a specification denotes: a default rule, or pattern, replacement and whether the
  result is in upper case.
\<close>

type_synonym rule_spec = "(string \<times> string \<times> bool) option"

definition spec_ok :: "rule_spec \<Rightarrow> bool" where
  "spec_ok spec = (case spec of None \<Rightarrow> True | Some (p, q, up) \<Rightarrow> rule_field_ok p \<and> rule_field_ok q)"

definition rule_of :: "(string \<Rightarrow> exn + rx) \<Rightarrow> rule_spec \<Rightarrow> exn + Rule" where
  "rule_of compile spec =
     (case spec of None \<Rightarrow> mk_rule compile None None False False
      | Some (p, q, up) \<Rightarrow> mk_rule compile (Some p) (Some q) (\<not> up) up)"

lemma repr_rule_of:
  assumes "rule_of compile spec = Inr r" and "spec_ok spec"
  shows "printed (rule_repr r) \<and> parse_rule compile (rule_repr r) = Inr [r]"
proof (cases spec)
  case None
  with assms have "r = default_rule" by (simp add: rule_of_def mk_rule_def default_rule_def)
  then show ?thesis by (simp add: rule_repr_def default_rule_def parse_default [unfolded default_rule_def] printed_def)
next
  case (Some s)
  then obtain p q up where s: "spec = Some (p, q, up)" by (cases s) auto
  let ?flag = "if up then ''U'' else ''L''"
  have ok: "rule_field_ok p" "rule_field_ok q" "?flag \<in> {''L'', ''U''}" using assms(2) s by (auto simp: spec_ok_def)
  have r: "mk_rule compile (Some p) (Some q) (\<not> up) up = Inr r" using assms(1) s by (simp add: rule_of_def)
  then have "rule_repr r = rule_text p q ?flag"
    by (auto simp: mk_rule_def bindE_Inr rule_repr_def rule_text_def split: if_splits)
  moreover have "(?flag = ''L'') = (\<not> up)" "(?flag = ''U'') = up" by auto
  ultimately show ?thesis using parse_rule_text [OF ok, of compile] r ok unfolding printed_def by auto
qed

text \<open>C25: a list of rules that have a case flag or are default rules, printed and joined with commas, is
  split and parsed back to the same rules, commas inside patterns included.\<close>

theorem mapping_rules_roundtrip:
  assumes "mapE (rule_of compile) specs = Inr rules" and "list_all spec_ok specs"
  shows "mapper_rules compile (join '', '' (map rule_repr rules)) = Inr rules"
proof -
  have each: "list_all (\<lambda>r. printed (rule_repr r) \<and> parse_rule compile (rule_repr r) = Inr [r]) rules"
    using assms
  proof (induction specs arbitrary: rules)
    case (Cons s ss)
    then show ?case using repr_rule_of [of compile s] by (auto simp: bindE_Inr)
  qed simp
  then have "list_all printed (map rule_repr rules)" by (simp add: list_all_iff)
  from split_printed [OF this] have "mapper_rules compile (join '', '' (map rule_repr rules)) =
      parse_rules compile (map rule_repr rules @ [[]])" by (simp add: mapper_rules_def)
  also have "mapE (parse_rule compile) (map rule_repr rules @ [[]]) = Inr (map (\<lambda>r. [r]) rules @ [[]])"
    using each by (induction rules) (simp_all add: parse_empty)
  then have "parse_rules compile (map rule_repr rules @ [[]]) = Inr rules"
    by (simp add: parse_rules_def)
  finally show ?thesis .
qed

text \<open>The rule of the default option, and a pattern that contains a comma.\<close>

definition sample_compile :: "string \<Rightarrow> exn + rx" where
  "sample_compile p =
     (if p = ''CN=(.*?),.*''
      then Inr (Seq (lit ''CN='') (Seq (Group 1 (Star False any_char)) (Seq (lit '','') (Star True any_char))))
      else Inl template_error)"

theorem mapping_rules_roundtrip_witness:
  "mapper_rules sample_compile ''RULE:CN=(.*?),.*/$1/L, DEFAULT'' = mapE (rule_of sample_compile) [Some (''CN=(.*?),.*'', ''$1'', False), None]"
proof -
  let ?specs = "[Some (''CN=(.*?),.*'', ''$1'', False), None]"
  obtain rules where r: "mapE (rule_of sample_compile) ?specs = Inr rules"
    by (simp add: rule_of_def mk_rule_def sample_compile_def)
  have "list_all spec_ok ?specs" by (simp add: spec_ok_def)
  from mapping_rules_roundtrip [OF r this] show ?thesis
    using r by (auto simp: rule_of_def mk_rule_def sample_compile_def rule_repr_def)
qed


section \<open>Applying rules\<close>

text \<open>C26: a rule with a pattern and a replacement leaves a name to the next rule exactly when its pattern
  matches no beginning of the name. A match of the whole name is not required.\<close>

theorem rule_applies_iff:
  assumes "\<not> is_default r" and "rule_pattern r = Some (p, pattern)" and "replacement r = Some v"
  shows "apply_rule r name = Inr None \<longleftrightarrow> \<not> (\<exists>t u. name = u @ t \<and> denotes (length name) pattern name t)"
proof -
  have "apply_rule r name = Inr None \<longleftrightarrow> re_match pattern name = None"
    using assms by (auto simp: apply_rule_def bindE_Inr split: option.splits)
  also have "\<dots> \<longleftrightarrow> \<not> (\<exists>t. denotes (length name) pattern name t)"
    using re_match_iff [of pattern name] by blast
  finally show ?thesis using denotes_suffix by blast
qed

text \<open>The engine on the dollar signs of a replacement.\<close>

lemma no_reference_here: "s = [] \<or> hd s \<noteq> CHR ''$'' \<Longrightarrow> ways n BACK_REFERENCE_PATTERN (s, []) = []"
  by (auto simp: BACK_REFERENCE_PATTERN_def split: list.splits)

lemma search_reference:
  assumes "CHR ''$'' \<notin> set u" and "ds \<noteq> []" and "list_all is_digit ds" and "t = [] \<or> \<not> is_digit (hd t)"
  shows "search n BACK_REFERENCE_PATTERN False (u @ CHR ''$'' # ds @ t) = Some (u, CHR ''$'' # ds @ t, t, [(1, ds)])"
  using assms(1)
proof (induction u)
  case Nil
  obtain d ds' where d: "ds = d # ds'" using assms(2) by (cases ds) auto
  have "finds n (Seq (Class is_digit) (Star True (Class is_digit))) (ds @ t, []) (t, [])"
    unfolding d append_Cons by (rule first_Seq [OF first_basic(1) first_Star_Class]) (use assms d in auto)
  from first_Group [OF this, of 1]
  have "finds n BACK_REFERENCE_PATTERN (''$'' @ ds @ t, []) (t, [(1, ds)])"
    unfolding BACK_REFERENCE_PATTERN_def by (intro first_Seq [OF first_lit]) simp
  then show ?case using first_search by fastforce
next
  case (Cons x u)
  then have "x \<noteq> CHR ''$''" by auto
  then have "ways n BACK_REFERENCE_PATTERN ((x # u) @ CHR ''$'' # ds @ t, []) = []" by (intro no_reference_here) simp
  with Cons show ?case by (subst search.simps) simp
qed

lemma search_no_reference: "CHR ''$'' \<notin> set u \<Longrightarrow> search n BACK_REFERENCE_PATTERN False u = None"
proof (induction u)
  case Nil
  show ?case using no_reference_here [of "[]" n] by (subst search.simps) simp
next
  case (Cons x u)
  then have "x \<noteq> CHR ''$''" by auto
  then have "ways n BACK_REFERENCE_PATTERN (x # u, []) = []" by (intro no_reference_here) simp
  with Cons show ?case by (subst search.simps) simp
qed

text \<open>A replacement with references: texts without dollar signs, each followed by a reference, and a last text.\<close>

fun with_references :: "(nat \<Rightarrow> char) \<Rightarrow> (string \<times> nat) list \<Rightarrow> string \<Rightarrow> string" where
  "with_references sign [] end_text = end_text"
| "with_references sign ((u, k) # ps) end_text = u @ sign k # str_nat k @ with_references sign ps end_text"

definition text_ok :: "string \<Rightarrow> bool" where
  "text_ok u \<longleftrightarrow> CHR ''$'' \<notin> set u \<and> (u = [] \<or> \<not> is_digit (hd u))"

lemma with_references_start:
  "list_all (\<lambda>(u, k). text_ok u) ps \<Longrightarrow> text_ok e \<Longrightarrow> (\<forall>k. \<not> is_digit (sign k)) \<Longrightarrow>
     with_references sign ps e = [] \<or> \<not> is_digit (hd (with_references sign ps e))"
  by (cases ps) (auto simp: text_ok_def hd_append split: if_splits)

definition escaped_sign :: "nat \<Rightarrow> nat \<Rightarrow> char" where
  "escaped_sign n k = (if 1 \<le> k \<and> k \<le> n then CHR 0x5C else CHR ''$'')"

lemma back_reference_found:
  "found_groups m = [(1, str_nat k)] \<Longrightarrow> back_reference n m = Inr (escaped_sign n k # str_nat k)"
  using py_int_str_int [of "int k"] by (auto simp: back_reference_def group_of_def escaped_sign_def str_int_def)

lemma find_references:
  assumes "list_all (\<lambda>(u, k). text_ok u) ps" and "text_ok e"
  shows "find_iter l BACK_REFERENCE_PATTERN False (with_references (\<lambda>_. CHR ''$'') ps e) =
     (map (\<lambda>(u, k). \<lparr>skipped = u, whole = CHR ''$'' # str_nat k, found_groups = [(1, str_nat k)]\<rparr>) ps, e)"
  using assms(1)
proof (induction ps)
  case Nil
  have "CHR ''$'' \<notin> set e" using assms(2) by (simp add: text_ok_def)
  then show ?case by (subst find_iter.simps) (simp add: search_no_reference)
next
  case (Cons p ps)
  obtain u k where p: "p = (u, k)" by force
  let ?t = "with_references (\<lambda>_. CHR ''$'') ps e"
  have t: "?t = [] \<or> \<not> is_digit (hd ?t)"
    using with_references_start [of ps e "\<lambda>_. CHR ''$''"] Cons.prems assms(2) by (simp add: p is_digit_def)
  have "search l BACK_REFERENCE_PATTERN False (u @ CHR ''$'' # str_nat k @ ?t) = Some (u, CHR ''$'' # str_nat k @ ?t, ?t, [(1, str_nat k)])"
    by (rule search_reference) (use Cons.prems t str_nat_digits in \<open>auto simp: p text_ok_def list_all_iff\<close>)
  moreover have "?t \<noteq> CHR ''$'' # str_nat k @ ?t" by (metis append_Cons append_self_conv2 list.distinct(1))
  moreover have "consumed (CHR ''$'' # str_nat k @ ?t) ?t = CHR ''$'' # str_nat k"
    using consumed_append [of "CHR ''$'' # str_nat k" ?t] by simp
  ultimately show ?case using Cons by (subst find_iter.simps) (simp add: p)
qed

text \<open>In the replacement of a rule, every reference to a group that the pattern has becomes a group
  reference of Python's templates, and every other one stays as it is, like the text around them.\<close>

theorem back_references_escaped:
  assumes "list_all (\<lambda>(u, k). text_ok u) ps" and "text_ok e"
  shows "escape_literal_back_references (with_references (\<lambda>_. CHR ''$'') ps e) n = Inr (with_references (escaped_sign n) ps e)"
proof -
  let ?f = "\<lambda>m. bindE (back_reference n m) (\<lambda>v. Inr (skipped m @ v))"
  have "mapE ?f (map (\<lambda>(u, k). \<lparr>skipped = u, whole = CHR ''$'' # str_nat k, found_groups = [(1, str_nat k)]\<rparr>) ps) =
      Inr (map (\<lambda>(u, k). u @ escaped_sign n k # str_nat k) ps)"
    by (induction ps) (auto simp: back_reference_found)
  moreover have "concat (map (\<lambda>(u, k). u @ escaped_sign n k # str_nat k) ps) @ e = with_references (escaped_sign n) ps e"
    by (induction ps) auto
  ultimately show ?thesis
    by (simp add: escape_literal_back_references_def re_sub_def find_references [OF assms])
qed

theorem back_references_escaped_witness:
  "escape_literal_back_references (''I owe '' @ CHR ''$'' # str_nat 8 @ '' to '' @ CHR ''$'' # str_nat 1 @ ''.'') 3 =
   Inr (''I owe '' @ CHR ''$'' # str_nat 8 @ '' to '' @ CHR 0x5C # str_nat 1 @ ''.'')"
  using back_references_escaped [of "[(''I owe '', 8), ('' to '', 1)]" "''.''" 3]
  by (simp add: text_ok_def is_digit_def escaped_sign_def)

theorem rule_applies_iff_witness:
  "apply_rule \<lparr>is_default = False, rule_pattern = Some (''CN='', lit ''CN=''), replacement = Some ''x'', to_lower_case = False,
     to_upper_case = False\<rparr> ''O=a'' = Inr None"
  by (subst rule_applies_iff) auto

end
