(* ===== verification/Operator_Base.thy ===== *)
theory Operator_Base
  imports Balancer_Manager Principal_Mapper
begin

text \<open>
  What the event handlers share (\<^verbatim>\<open>charm.py\<close> and the helper methods of \<^verbatim>\<open>events/broker.py\<close>): the
  parameters that stand for the outside, statuses and deferrals, the health of the broker
  service, internal TLS, external services and the data kept in the unit databag.
  A handler is a program over the world of its hook. Emitting an event runs its observers
  at once, so a handler that emits takes the dispatcher as a parameter.
\<close>

section \<open>Programs\<close>

record outside =
  out_env :: env
  out_crypto :: crypto
  out_cc :: cc_api
  out_compile :: "string \<Rightarrow> exn + rx"
  out_b64decode :: "string \<Rightarrow> exn + string"
  out_rounds :: nat

definition readE :: "(world \<Rightarrow> exn + 'a) \<Rightarrow> 'a hook" where
  "readE f = bindM (readM f) liftE"

primrec seqM :: "unit hook list \<Rightarrow> unit hook" where
  "seqM [] = skip"
| "seqM (c # cs) = thenM c (seqM cs)"

definition whenM :: "bool \<Rightarrow> unit hook \<Rightarrow> unit hook" where
  "whenM b c = (if b then c else skip)"

text \<open>\<^verbatim>\<open>event.defer()\<close> and \<^verbatim>\<open>charm._set_status\<close>.\<close>

definition defer_event :: "event \<Rightarrow> unit hook" where
  "defer_event e = do_action (Deferred e)"

definition set_status :: "status \<Rightarrow> unit hook" where
  "set_status s = modM (\<lambda>w. w\<lparr>pending := pending w @ [s]\<rparr>)"

definition refresh_not_ready :: "world \<Rightarrow> bool" where
  "refresh_not_ready w = (case refresh w of None \<Rightarrow> True | Some r \<Rightarrow> in_progress r)"

definition acquire_lock :: "string option \<Rightarrow> unit hook" where
  "acquire_lock callback = do_action (AcquireLock callback)"

definition ping_uris :: "env \<Rightarrow> string \<Rightarrow> bool hook" where
  "ping_uris env uris = readE (\<lambda>w. ping (env_connect env w) uris)"

text \<open>The Log4j options the broker's \<^verbatim>\<open>AuthManager\<close> is built with.\<close>

definition auth_opts :: "string hook" where
  "auth_opts = readE (tools_log4j_opts BROKER)"


text \<open>Every generated password is recorded, so that an \<open>env_password\<close> can give a different one each time.\<close>

definition generate_password :: "env \<Rightarrow> string hook" where
  "generate_password env = bindM (readM (env_password env)) (\<lambda>pw. thenM (do_action Generated) (ret pw))"


section \<open>Health of the broker service\<close>

definition broker_healthy :: "bool hook" where
  "broker_healthy =
     bindM (readE ready_to_start) (\<lambda>current_status.
       if current_status \<noteq> ACTIVE then thenM (set_status current_status) (ret False)
       else bindM (readM (\<lambda>w. active w BROKER)) (\<lambda>up.
         if \<not> up then thenM (set_status SERVICE_NOT_RUNNING) (ret False)
         else ret True))"


section \<open>Internal TLS\<close>

definition write_peer_cluster_ca :: "unit hook" where
  "write_peer_cluster_ca = bindM (readE (\<lambda>w. tls_bundle w PEER_SCOPE)) (\<lambda>b. modM (set_peer_cluster_ca b))"

definition setup_internal_tls :: "outside \<Rightarrow> event \<Rightarrow> unit hook" where
  "setup_internal_tls out event =
     bindM (readM (\<lambda>w. tls_ready w PEER_SCOPE)) (\<lambda>ready.
       if ready then configure BROKER (out_env out) (out_crypto out)
       else bindM (generate_self_signed_certificate (out_env out) (out_crypto out)) (\<lambda>cert.
         case cert of
           None \<Rightarrow> skip
         | Some c \<Rightarrow>
             seqM [modM (set_self_signed PEER_SCOPE c),
                   whenM (event \<notin> {StartEvent, PebbleReadyEvent}) (modM (set_rotate PEER_SCOPE True)),
                   configure BROKER (out_env out) (out_crypto out),
                   bindM (readM leader) (\<lambda>ld. whenM ld write_peer_cluster_ca)]))"


section \<open>External services\<close>

definition apply_built :: "env \<Rightarrow> (world \<Rightarrow> exn + service) \<Rightarrow> unit hook" where
  "apply_built env build =
     bindM (readE build) (\<lambda>svc.
       thenM (liftE (apply_service (env_k8s env) svc)) (do_action (AppliedService (svc_name svc))))"

definition update_external_services :: "env \<Rightarrow> unit hook" where
  "update_external_services env =
     bindM (readM (\<lambda>w. expose_external (cfg w))) (\<lambda>expose.
       case expose of
         None \<Rightarrow> skip
       | Some _ \<Rightarrow>
           thenM (apply_built env (\<lambda>w. build_bootstrap_services (env_k8s env) (manager_of w (unit_name w))))
           (bindM (readE (enabled_auth (env_k8s env))) (\<lambda>auths.
              forM auths (\<lambda>auth. apply_built env
                (\<lambda>w. build_listener_service (env_k8s env) (manager_of w (unit_name w)) auth)))))"


section \<open>Data of the peer-cluster relation\<close>

text \<open>\<^verbatim>\<open>state.peer_cluster.update(items)\<close> and \<^verbatim>\<open>state.peer_cluster_orchestrator.update(items)\<close>.\<close>

definition peer_cluster_update :: "(string, string) dict \<Rightarrow> world \<Rightarrow> world" where
  "peer_cluster_update items w =
     (if runs_broker w then w\<lparr>orchestrator_rel := map_option (rel_update (leader w) items) (orchestrator_rel w)\<rparr>
      else w\<lparr>peer_cluster_rel := map_option (rel_update (leader w) items) (peer_cluster_rel w)\<rparr>)"

definition orchestrator_update :: "(string, string) dict \<Rightarrow> world \<Rightarrow> world" where
  "orchestrator_update items w =
     w\<lparr>peer_cluster_rel := map_option (rel_update (leader w) items) (peer_cluster_rel w)\<rparr>"

text \<open>The items a broker application publishes to its controllers and balancers.\<close>

definition broker_items :: "world \<Rightarrow> exn + (string, string) dict" where
  "broker_items w =
     bindE (peer_cluster w) (\<lambda>pc.
     bindE (racks_of pc) (\<lambda>racks.
     bindE (broker_capacities_of pc) (\<lambda>caps.
     bindE (super_users w) (\<lambda>users.
       Inr [(''roles'', cfg_roles (cfg w)), (''broker-username'', broker_username pc),
            (''broker-password'', broker_password pc), (''broker-uris'', broker_uris pc),
            (''cluster-uuid'', cluster_uuid pc), (''racks'', str_int racks),
            (''broker-capacities'', dumps caps), (''super-users'', users)]))))"

definition publish_broker_items :: "unit hook" where
  "publish_broker_items = thenM write_peer_cluster_ca (bindM (readE broker_items) (\<lambda>items. modM (peer_cluster_update items)))"

definition update_peer_cluster_data :: "unit hook" where
  "update_peer_cluster_data =
     bindM (readM leader) (\<lambda>ld.
       if \<not> ld then skip
       else bindM broker_healthy (\<lambda>ok. whenM ok publish_broker_items))"


section \<open>Credentials, trust and addresses\<close>

text \<open>The conditions are a list, so the health is asked, and its status set, on every unit.\<close>

definition update_credentials_cache :: "env \<Rightarrow> unit hook" where
  "update_credentials_cache env =
     bindM broker_healthy (\<lambda>ok.
     bindM (readM (\<lambda>w. leader w \<and> runs_broker w)) (\<lambda>mine.
       if \<not> (mine \<and> ok) then skip
       else bindM (readE bootstrap_server_internal) (\<lambda>uris.
            bindM (ping_uris env uris) (\<lambda>up.
              if \<not> up then skip
              else bindM (tryM (bindM (get_users env) (\<lambda>us. ret (Some us))) is_command_error (\<lambda>_. ret None)) (\<lambda>users.
                case users of
                  None \<Rightarrow> skip
                | Some us \<Rightarrow>
                    thenM (set_client_properties env)
                    (bindM (readE (clients (env_k8s env))) (\<lambda>cs.
                     bindM auth_opts (\<lambda>opts.
                       forM cs (\<lambda>c.
                         if kc_password c = [] \<or> kc_username c \<in> set us then skip
                         else add_user env opts (kc_username c) (kc_password c))))))))))"

text \<open>Times are numbers of the outside; the restart time is read from the service manager's listing.\<close>

definition last_restart :: "env \<Rightarrow> int hook" where
  "last_restart env =
     bindM (exec env [''pebble'', ''services'', ''--abs-time''] []) (\<lambda>raw. ret (env_last_restart env raw))"

definition update_peer_truststore_state :: "env \<Rightarrow> bool \<Rightarrow> unit hook" where
  "update_peer_truststore_state env force =
     bindM (readM (\<lambda>w. exists_file w (peer_truststore BROKER))) (\<lambda>ex.
       if \<not> ex then skip
       else bindM (if force then ret False
                   else bindM (last_restart env) (\<lambda>restarted.
                        bindM (readM (\<lambda>w. env_modify_time env w (peer_truststore BROKER))) (\<lambda>modified.
                          ret (restarted \<le> modified)))) (\<lambda>needs_restart.
         if needs_restart then skip
         else bindM (peer_trusted_certificates BROKER env) (\<lambda>certs.
           thenM (set_trusted_certificates PEER_SCOPE (map (\<lambda>(alias, h). bytes_to_keytool_hash [] h) certs))
           (bindM (readM leader) (\<lambda>ld. whenM ld refresh_peer_cluster_trust_state)))))"

definition update_ip_addresses :: "env \<Rightarrow> unit hook" where
  "update_ip_addresses env =
     thenM (update_peer_ip_address (env_ip env None))
     (bindM (readE (clients (env_k8s env))) (\<lambda>cs.
        forM cs (\<lambda>c. modM (update_relation_ip_address (kc_rel_id c) (env_ip env (Some (kc_rel_id c)))))))"

definition add_broker_of :: "string \<times> (string \<Rightarrow> string) \<Rightarrow> unit hook" where
  "add_broker_of broker =
     (case broker of (name, get) \<Rightarrow>
        bindM (liftE (broker_id_of name)) (\<lambda>i.
        bindM (liftE (let t = get ''storages'' in loads (if t = [] then ''{}'' else t))) (\<lambda>st.
          add_broker i st (get ''cores''))))"

definition update_brokers_state :: "env \<Rightarrow> unit hook" where
  "update_brokers_state env =
     bindM (readM (\<lambda>w. leader w \<and> runs_broker w)) (\<lambda>mine.
       if \<not> mine then skip
       else bindM (readM brokers) (\<lambda>bs.
            thenM (forM bs add_broker_of)
            (bindM (readE broker_capacities_snapshot) (\<lambda>snapshot.
             bindM (online_brokers env) (\<lambda>online.
               forM (filter (\<lambda>i. i \<notin> online) (keys snapshot)) (\<lambda>i.
                 bindM (readE active_brokers_on_relation) (\<lambda>act.
                   if i \<in> act then skip else remove_broker i)))))))"

end
