(* ===== verification/Tls_Events.thy ===== *)
theory Tls_Events
  imports Operator_Base
begin

text \<open>
  \<^verbatim>\<open>events/tls.py\<close>: certificates of the client and peer relations, their rotation, and the client
  truststore. The two TLS relations differ only in the scope of the state they write. The
  certificates library is a parameter: \<open>lib_keys\<close> gives the private key it holds for a scope, and
  asking it for a new certificate is recorded as an action.
\<close>

section \<open>Initialisation\<close>

definition init_keys :: "(tls_scope \<Rightarrow> string option) \<Rightarrow> unit hook" where
  "init_keys lib_keys =
     forM [CLIENT_SCOPE, PEER_SCOPE] (\<lambda>sc.
       case lib_keys sc of
         None \<Rightarrow> skip
       | Some key \<Rightarrow>
           bindM (readM (\<lambda>w. private_key w sc)) (\<lambda>old.
             if old \<noteq> key then modM (tls_set sc ''private-key'' key) else skip))"

definition init_store_password :: "env \<Rightarrow> string \<Rightarrow> unit hook" where
  "init_store_password env field =
     bindM (readM (\<lambda>w. broker_get w field)) (\<lambda>v.
       if v \<noteq> [] then skip
       else bindM (generate_password env) (\<lambda>pw. modM (broker_update [(field, pw)])))"

definition init_credentials :: "env \<Rightarrow> (tls_scope \<Rightarrow> string option) \<Rightarrow> unit hook" where
  "init_credentials env lib_keys =
     seqM [init_keys lib_keys, init_store_password env ''keystore-password'', init_store_password env ''truststore-password'']"


section \<open>The client truststore\<close>

definition update_alias :: "outside \<Rightarrow> string \<Rightarrow> string \<Rightarrow> unit hook" where
  "update_alias out alias cert =
     bindM (alias_needs_update BROKER (out_env out) (out_crypto out) alias cert) (\<lambda>needed.
       whenM needed (update_cert BROKER (out_env out) alias cert CLIENT_SCOPE))"

text \<open>All conditions are evaluated, the health of the broker first.\<close>

definition update_truststore :: "outside \<Rightarrow> unit hook" where
  "update_truststore out =
     bindM broker_healthy (\<lambda>ok.
     bindM (readE (has_mtls_clients (env_k8s (out_env out)))) (\<lambda>mtls.
     bindM (readM (\<lambda>w. tls_enabled w \<and> certificate w CLIENT_SCOPE \<noteq> [] \<and> ca w CLIENT_SCOPE \<noteq> [])) (\<lambda>tls.
       if \<not> (ok \<and> mtls \<and> tls) then skip
       else seqM
         [bindM (readE (clients (env_k8s (out_env out)))) (\<lambda>cs.
            forM cs (\<lambda>c. update_alias out (generate_alias (kc_app c) (kc_rel_id c)) (mtls_cert c))),
          bindM (readM transferred_certs) (\<lambda>certs.
            forM certs (\<lambda>cert.
              bindM (liftE (x509_name (out_crypto out) cert)) (\<lambda>alias. update_alias out alias cert))),
          reload_truststore BROKER (out_env out)])))"


section \<open>Certificates\<close>

definition tls_events_ready :: "world \<Rightarrow> bool" where
  "tls_events_ready w \<longleftrightarrow> can_connect w \<and> peer_rel w"

definition import_old_bundle :: "env \<Rightarrow> string list \<Rightarrow> tls_scope \<Rightarrow> role \<Rightarrow> unit hook" where
  "import_old_bundle env bundle sc r = import_bundle r env bundle sc OLD_PREFIX"

definition tls_relation_broken :: "(event \<Rightarrow> unit hook) \<Rightarrow> outside \<Rightarrow> tls_scope \<Rightarrow> unit hook" where
  "tls_relation_broken emit out sc =
     bindM (readE (\<lambda>w. tls_bundle w sc)) (\<lambda>old_bundle.
       seqM [modM (tls_set sc ''csr'' []), modM (tls_set sc ''certificate'' []),
             modM (tls_set sc ''chain'' []), modM (tls_set sc ''ca-cert'' []),
             remove_stores BROKER sc, remove_stores BALANCER sc,
             whenM (sc = PEER_SCOPE)
               (seqM [setup_internal_tls out (CertificatesBroken sc),
                      import_old_bundle (out_env out) old_bundle sc BROKER,
                      import_old_bundle (out_env out) old_bundle sc BALANCER,
                      modM (set_rotate sc True),
                      emit ConfigChangedEvent])])"

definition handle_certificate_available :: "outside \<Rightarrow> tls_scope \<Rightarrow> string \<Rightarrow> string \<Rightarrow> string list \<Rightarrow> unit hook" where
  "handle_certificate_available out sc cert authority chain =
     bindM (readM (\<lambda>w. (certificate w sc, ca w sc))) (\<lambda>(old_cert, old_ca).
     bindM (readE (\<lambda>w. tls_bundle w sc)) (\<lambda>old_bundle.
       let certificate_changed = (old_cert \<noteq> [] \<and> cert \<noteq> old_cert);
           ca_changed = (old_ca \<noteq> [] \<and> authority \<noteq> old_ca)
       in seqM [modM (tls_set sc ''certificate'' cert), modM (tls_set sc ''ca-cert'' authority),
                modM (tls_set sc ''chain'' (dumps (json_strs chain))),
                forM [BROKER, BALANCER] (\<lambda>r.
                  seqM [remove_stores r sc, configure r (out_env out) (out_crypto out),
                        whenM ca_changed (import_old_bundle (out_env out) old_bundle sc r)]),
                whenM (certificate_changed \<or> ca_changed) (modM (set_rotate sc True))]))"

definition on_peer_certificate_available :: "(event \<Rightarrow> unit hook) \<Rightarrow> outside \<Rightarrow> string \<Rightarrow> string \<Rightarrow> string list \<Rightarrow> unit hook" where
  "on_peer_certificate_available emit out cert authority chain =
     bindM (readM tls_events_ready) (\<lambda>ready.
       if \<not> ready then defer_event (CertificateAvailable PEER_SCOPE cert authority chain)
       else seqM
         [handle_certificate_available out PEER_SCOPE cert authority chain,
          bindM (readM leader) (\<lambda>ld. whenM ld
            (thenM write_peer_cluster_ca
              (bindM (readM (\<lambda>w. rotate_of w PEER_SCOPE)) (\<lambda>rot.
                 whenM rot (modM (set_peer_cluster_tls_rotate True)))))),
          emit ConfigChangedEvent])"

definition on_client_certificate_available :: "(event \<Rightarrow> unit hook) \<Rightarrow> outside \<Rightarrow> string \<Rightarrow> string \<Rightarrow> string list \<Rightarrow> unit hook" where
  "on_client_certificate_available emit out cert authority chain =
     bindM (readM tls_events_ready) (\<lambda>ready.
       if \<not> ready then defer_event (CertificateAvailable CLIENT_SCOPE cert authority chain)
       else seqM [handle_certificate_available out CLIENT_SCOPE cert authority chain,
                  update_truststore out, emit ConfigChangedEvent])"

text \<open>
  Certificates of the transfer interface. A relation that is gone or inactive is not in
  \<open>cert_transfer_rels\<close>.
\<close>

definition on_mtls_client_certificates_available :: "outside \<Rightarrow> int \<Rightarrow> unit hook" where
  "on_mtls_client_certificates_available out rid =
     bindM (readM (\<lambda>w. rid \<in> set (cert_transfer_rels w))) (\<lambda>related.
       if \<not> related then skip
       else bindM (readM (\<lambda>w. tls_enabled w \<and> certificate w CLIENT_SCOPE \<noteq> [])) (\<lambda>tls.
         if \<not> tls then thenM (set_status NO_CERT) (defer_event (TransferUpdated rid))
         else bindM (readM transferred_certs) (\<lambda>certs.
           if certs = [] then skip else update_truststore out)))"

definition on_mtls_client_certificates_removed :: "outside \<Rightarrow> unit hook" where
  "on_mtls_client_certificates_removed out =
     thenM (update_truststore out)
     (bindM (readM leader) (\<lambda>ld.
        if \<not> ld then skip
        else bindM (readE (has_mtls_clients (env_k8s (out_env out)))) (\<lambda>mtls.
               if mtls then skip else modM (cluster_update [(''mtls'', [])]))))"


section \<open>The private key option\<close>

text \<open>
  The key comes as text or base64; \<open>decode\<close> stands for \<^verbatim>\<open>b64decode\<close>, and \<open>is_pem\<close> for the match of
  the BEGIN or END line at the start.
\<close>

definition starts_pem :: "string \<Rightarrow> bool" where
  "starts_pem s =
     (let d = takeWhile (\<lambda>c. c = CHR ''-'') s; r = dropWhile (\<lambda>c. c = CHR ''-'') s;
          r = (if startswith r ''BEGIN '' then drop 6 r else if startswith r ''END '' then drop 4 r else []);
          upper = (\<lambda>c. c = CHR '' '' \<or> (65 :: nat) \<le> of_char c \<and> of_char c \<le> (90 :: nat));
          m = takeWhile upper r; t = dropWhile upper r
      in d \<noteq> [] \<and> m \<noteq> [] \<and> startswith t ''-'')"

definition set_tls_private_key :: "(string \<Rightarrow> exn + string) \<Rightarrow> string option \<Rightarrow> unit hook" where
  "set_tls_private_key b64decode secret_private_key =
     bindM (readM (\<lambda>w. (private_key w CLIENT_SCOPE, private_key_kind w))) (\<lambda>(old, kind).
       if secret_private_key = Some old then skip
       else case secret_private_key of
         Some (c # cs) \<Rightarrow>
           let s = c # cs
           in bindM (if starts_pem s then ret s else liftE (b64decode s)) (\<lambda>key.
                seqM [modM (broker_update [(''private-key-kind'', ''secret'')]),
                      modM (tls_set CLIENT_SCOPE ''private-key'' key),
                      do_action RefreshCertificates])
       | _ \<Rightarrow>
           if kind = ''lib'' then skip
           else seqM [modM (broker_update [(''private-key-kind'', ''lib'')]),
                      modM (tls_set CLIENT_SCOPE ''private-key'' []),
                      do_action RefreshCertificates])"


section \<open>Rotation\<close>

definition unit_tls_rotate :: "outside \<Rightarrow> unit hook" where
  "unit_tls_rotate out =
     thenM (update_peer_truststore_state (out_env out) False)
     (bindM (peer_trusted_certificates BROKER (out_env out)) (\<lambda>old.
      thenM (update_peer_cluster_trust BROKER (out_env out) (out_crypto out))
      (bindM (peer_trusted_certificates BROKER (out_env out)) (\<lambda>new.
         modM (\<lambda>w. w\<lparr>certs_updated := (set (map snd new) \<noteq> set (map snd old))\<rparr>)))))"

text \<open>Whether to wait for the other application: it must trust the new certificates first.\<close>

definition rotation_blocked :: "crypto \<Rightarrow> world \<Rightarrow> exn + bool" where
  "rotation_blocked cr w =
     (if \<not> tls_rotate w then Inr False
      else bindE (peer_cluster_app_trusts_new_bundle cr w) (\<lambda>trusts.
             Inr (\<not> trusts \<and> \<not> (both_sides_rotating w \<and> runs_broker w))))"

definition config_changed_rotation :: "outside \<Rightarrow> event \<Rightarrow> bool hook" where
  "config_changed_rotation out event =
     thenM (unit_tls_rotate out)
     (bindM (readE (rotation_blocked (out_crypto out))) (\<lambda>blocked.
        if blocked then thenM (defer_event event) (ret False)
        else thenM
          (bindM (sans_changed BROKER (out_env out) (out_crypto out) CLIENT_SCOPE) (\<lambda>changed.
             whenM changed (thenM (modM (tls_set CLIENT_SCOPE ''certificate'' [])) (do_action RefreshCertificates))))
          (thenM
            (bindM (sans_changed BROKER (out_env out) (out_crypto out) PEER_SCOPE) (\<lambda>changed.
               whenM changed
                 (thenM (modM (tls_set PEER_SCOPE ''certificate'' []))
                   (bindM (readM use_internal_tls) (\<lambda>internal.
                      if internal then setup_internal_tls out event else do_action RefreshCertificates)))))
            (ret True))))"

definition handle_config_changed_tls_updates :: "outside \<Rightarrow> unit hook" where
  "handle_config_changed_tls_updates out =
     thenM (update_truststore out)
     (thenM (bindM (readM tls_rotate) (\<lambda>rot. whenM rot
        (thenM (bindM (readM runs_balancer) (\<lambda>bal. whenM bal (modM (set_balancer_tls_rotate True))))
               (modM (set_tls_rotate False)))))
     (modM (\<lambda>w. set_peer_cluster_tls_rotate
        (list_ex (\<lambda>(n, get). get (tls_key PEER_SCOPE ''rotation'') \<noteq> []) (brokers w)) w)))"

end
