(* ===== verification/Controller_Events.thy ===== *)
theory Controller_Events
  imports Operator_Base
begin

text \<open>
  \<^verbatim>\<open>events/controller.py\<close>: the leader creates the data every unit of a KRaft cluster needs, storages
  are formatted once, and the other controllers join and leave the quorum.
\<close>

section \<open>Initial data\<close>

definition init_internal_users :: "env \<Rightarrow> unit hook" where
  "init_internal_users env =
     bindM (readM (\<lambda>w. internal_user_credentials w = [] \<and> runs_broker w)) (\<lambda>needed.
       whenM needed
         (bindM (mapM (\<lambda>u. bindM (generate_password env) (\<lambda>pw. ret (u, pw))) INTERNAL_USERS) (\<lambda>credentials.
            forM credentials (\<lambda>(u, pw). modM (cluster_update [(u @ ''-password'', pw)])))))"

definition init_cluster_uuid :: "env \<Rightarrow> unit hook" where
  "init_cluster_uuid env =
     bindM (readM (\<lambda>w. cluster_get w ''cluster-uuid'' = [] \<and> runs_broker w)) (\<lambda>needed.
       whenM needed
         (bindM (generate_uuid env) (\<lambda>uuid.
            thenM (modM (cluster_update [(''cluster-uuid'', uuid)]))
                  (modM (peer_cluster_update [(''cluster-uuid'', uuid)])))))"

definition bootstrap_items :: "string \<Rightarrow> world \<Rightarrow> exn + (string, string) dict" where
  "bootstrap_items replica_id w =
     bindE (own_bootstrap_controller w) (\<lambda>node.
     bindE (kraft_unit_id w) (\<lambda>i.
       Inr [(''bootstrap-controller'', node), (''bootstrap-unit-id'', str_int i), (''bootstrap-replica-id'', replica_id)]))"

definition init_bootstrap :: "env \<Rightarrow> unit hook" where
  "init_bootstrap env =
     bindM (readM (\<lambda>w. runs_controller w \<and> cluster_get w ''bootstrap-controller'' = [])) (\<lambda>needed.
       whenM needed
         (bindM (generate_password env) (\<lambda>pw.
            seqM [modM (cluster_update [(''controller-password'', pw)]),
                  modM (kraft_update [(''controller-password'', pw)]),
                  bindM (generate_uuid env) (\<lambda>uuid.
                  bindM (readE (bootstrap_items uuid)) (\<lambda>items. modM (cluster_update items)))])))"

definition init_kraft_mode :: "env \<Rightarrow> unit hook" where
  "init_kraft_mode env =
     bindM (readM leader) (\<lambda>ld.
       if \<not> ld then skip
       else seqM [init_internal_users env, init_cluster_uuid env, init_bootstrap env])"


section \<open>Storages\<close>

definition initial_controllers :: "PeerCluster \<Rightarrow> string" where
  "initial_controllers pc = bootstrap_unit_id pc @ ''@'' @ bootstrap_controller pc @ '':'' @ bootstrap_replica_id pc"

definition format_credentials :: "world \<Rightarrow> exn + (string, string) dict" where
  "format_credentials w =
     (if runs_broker w then Inr (internal_user_credentials w)
      else bindE (peer_cluster w) (\<lambda>pc. Inr [(broker_username pc, broker_password pc)]))"

definition kraft_format_storages :: "(event \<Rightarrow> unit hook) \<Rightarrow> env \<Rightarrow> unit hook" where
  "kraft_format_storages emit env =
     thenM (set_server_properties env)
     (bindM (readM (\<lambda>w. get_metadata_directory_id w (log_dirs w))) (\<lambda>formatted.
        if formatted \<noteq> [] then skip
        else bindM (readE format_credentials) (\<lambda>credentials.
             bindM (readE peer_cluster) (\<lambda>pc.
             thenM (format_storages env (cluster_uuid pc) credentials KRAFT_VERSION (Some (initial_controllers pc)))
                   (emit UpdateStatusEvent)))))"


section \<open>Membership of the quorum\<close>

definition kraft_healthy :: "bool hook" where
  "kraft_healthy =
     bindM (readM runs_controller) (\<lambda>c.
       if \<not> c then ret True
       else bindM (readE ready_to_start) (\<lambda>s. readM (\<lambda>w. s = ACTIVE \<and> active w BROKER)))"

definition add_to_quorum :: "env \<Rightarrow> unit hook" where
  "add_to_quorum env =
     bindM (readM (\<lambda>w. leader w \<or> added_to_quorum w \<or> \<not> runs_controller w)) (\<lambda>nothing.
       if nothing then skip
       else bindM (readM (\<lambda>w. cluster_get w ''bootstrap-controller'')) (\<lambda>node.
            bindM (add_controller env node) (\<lambda>dir.
              modM (broker_update [(''metadata-directory-id'', dir), (''added-to-quorum'', ''true'')]))))"

definition remove_from_quorum :: "env \<Rightarrow> unit hook" where
  "remove_from_quorum env =
     bindM (readM (\<lambda>w. runs_controller w \<and> (added_to_quorum w \<or> leader w))) (\<lambda>member.
       if \<not> member then skip
       else bindM (readM (\<lambda>w. if leader w then cluster_get w ''bootstrap-replica-id'' else metadata_directory_id w)) (\<lambda>dir.
            thenM (modM (broker_update [(''added-to-quorum'', [])]))
            (bindM (readE kraft_unit_id) (\<lambda>i.
             bindM (readE own_bootstrap_controller) (\<lambda>node.
               remove_controller env i dir node)))))"


section \<open>Handlers\<close>

definition kraft_on_start :: "(event \<Rightarrow> unit hook) \<Rightarrow> env \<Rightarrow> event \<Rightarrow> unit hook" where
  "kraft_on_start emit env event =
     bindM (readM (\<lambda>w. (can_connect w, refresh w))) (\<lambda>(conn, ref).
       case ref of
         None \<Rightarrow> defer_event event
       | Some r \<Rightarrow>
           if \<not> conn then defer_event event
           else if in_progress r then skip
           else thenM (init_kraft_mode env)
             (bindM (readE ready_to_start) (\<lambda>s.
                if s \<noteq> ACTIVE then defer_event event else kraft_format_storages emit env)))"

definition kraft_on_update_status :: "env \<Rightarrow> unit hook" where
  "kraft_on_update_status env =
     bindM (readM refresh_not_ready) (\<lambda>busy.
       if busy then skip
       else bindM kraft_healthy (\<lambda>ok.
         whenM ok (thenM (set_client_properties env) (add_to_quorum env))))"

definition leader_elected :: "(event \<Rightarrow> unit hook) \<Rightarrow> unit hook" where
  "leader_elected emit =
     bindM (readM (\<lambda>w. cluster_get w ''bootstrap-controller'' = [] \<or> \<not> runs_controller w)) (\<lambda>nothing.
       if nothing then skip
       else bindM (readE (\<lambda>w. bootstrap_items (metadata_directory_id w) w)) (\<lambda>items.
            seqM [modM (cluster_update items), modM (orchestrator_update items), emit ConfigChangedEvent]))"

definition on_peer_relation_departed :: "env \<Rightarrow> string \<Rightarrow> unit hook" where
  "on_peer_relation_departed env departing_unit =
     bindM (readM unit_name) (\<lambda>name. whenM (departing_unit = name) (remove_from_quorum env))"



section \<open>Properties\<close>

text \<open>
  The state between two steps of the initialisation: the application databag can be written, the
  configuration is the same, and fields that were set still are. The id of the cluster and the
  bootstrap controller, once set, are never replaced.
\<close>

definition grows :: "world \<Rightarrow> world \<Rightarrow> bool" where
  "grows w w' \<longleftrightarrow>
     leader w' \<and> peer_rel w' \<and> bags_ok w' \<and> cfg w' = cfg w \<and> unit_name w' = unit_name w \<and>
     (\<forall>k. cluster_get w k \<noteq> [] \<longrightarrow> cluster_get w' k \<noteq> []) \<and>
     (\<forall>k \<in> {''cluster-uuid'', ''bootstrap-controller''}. cluster_get w k \<noteq> [] \<longrightarrow> cluster_get w' k = cluster_get w k)"

lemma grows_trans: "grows u v \<Longrightarrow> grows v w \<Longrightarrow> grows u w"
  by (auto simp: grows_def)

lemma cluster_get_trace [simp]:
  "cluster_get (w\<lparr>actions := a\<rparr>) k = cluster_get w k" "cluster_get (w\<lparr>files := f\<rparr>) k = cluster_get w k"
  by (simp_all add: cluster_get_def)

lemma grows_refl: "leader w \<Longrightarrow> peer_rel w \<Longrightarrow> bags_ok w \<Longrightarrow> grows w w"
  by (simp add: grows_def)

lemma grows_trace: "grows u w \<Longrightarrow> grows u (w\<lparr>actions := a\<rparr>)" "grows u w \<Longrightarrow> grows u (w\<lparr>files := f\<rparr>)"
  by (simp_all add: grows_def bags_ok_def)

lemma grows_rel: "grows u w \<Longrightarrow> grows u (peer_cluster_update items w)"
  by (auto simp: grows_def peer_cluster_update_def bags_ok_def cluster_get_def)

lemma get_peer_update: "cluster_get (peer_cluster_update items w) k = cluster_get w k"
  by (simp add: cluster_get_def peer_cluster_update_def)

lemma get_after_update:
  "grows u w \<Longrightarrow> cluster_get (cluster_update items w) k = (case map_of (rev items) k of None \<Rightarrow> cluster_get w k | Some v \<Rightarrow> v)"
  by (simp add: grows_def cluster_get_update)

lemma grows_update:
  assumes "grows u w" and "list_all (\<lambda>kv. snd kv \<noteq> []) items"
    and "\<forall>k \<in> {''cluster-uuid'', ''bootstrap-controller''}. cluster_get u k \<noteq> [] \<longrightarrow> k \<notin> fst ` set items"
  shows "grows u (cluster_update items w)"
proof -
  have none: "k \<notin> fst ` set items \<Longrightarrow> map_of (rev items) k = None" for k
    by (simp add: map_of_eq_None_iff)
  have some: "map_of (rev items) k = Some v \<Longrightarrow> v \<noteq> []" for k v
    using assms(2) by (fastforce simp: list_all_iff dest!: map_of_SomeD)
  show ?thesis
    using assms(1,3) none some get_after_update [OF assms(1), of items]
    by (auto simp: grows_def split: option.splits)
qed

lemma generate_password_run: "generate_password env w = (Inr (env_password env w), w\<lparr>actions := actions w @ [Generated]\<rparr>)"
  by (simp add: generate_password_def bindM_apply thenM_apply)

text \<open>The id that \<^verbatim>\<open>kafka-storage.sh random-uuid\<close> prints, as the charm reads it.\<close>

definition new_uuid :: "(string list \<Rightarrow> string) \<Rightarrow> string" where
  "new_uuid out = strip (out (bin_command ''storage'' [''random-uuid'']))"

lemma generate_uuid_run:
  assumes "tools_succeed env out"
  obtains f a where "generate_uuid env w = (Inr (new_uuid out), w\<lparr>files := f, actions := a\<rparr>)"
proof -
  obtain f where "run_bin_command env ''storage'' [''random-uuid''] [] w =
      (Inr (out (bin_command ''storage'' [''random-uuid''])), w\<lparr>files := f, actions := actions w @ [Exec None (bin_command ''storage'' [''random-uuid'']) []]\<rparr>)"
    by (rule run_tool [OF assms, of "[]" "[]" "''storage''" "[''random-uuid'']" w]) auto
  then have "generate_uuid env w =
      (Inr (new_uuid out), w\<lparr>files := f, actions := actions w @ [Exec None (bin_command ''storage'' [''random-uuid'']) []]\<rparr>)"
    by (simp add: generate_uuid_def new_uuid_def bindM_apply)
  then show ?thesis by (rule that)
qed

lemma init_users_run:
  assumes "grows u w" and "\<forall>w. env_password env w \<noteq> []" and "runs_broker w"
  obtains w' where "init_internal_users env w = (Inr (), w')" "grows u w'" "internal_user_credentials w' \<noteq> []"
    "cluster_get w' ''bootstrap-controller'' = cluster_get w ''bootstrap-controller''"
proof (cases "internal_user_credentials w = []")
  case False
  with assms that show ?thesis by (simp add: init_internal_users_def bindM_apply whenM_def)
next
  case True
  let ?w1 = "w\<lparr>actions := actions w @ [Generated]\<rparr>"
  let ?w2 = "w\<lparr>actions := actions w @ [Generated, Generated]\<rparr>"
  let ?a = "[(''replication-password'', env_password env w)]" and ?b = "[(''operator-password'', env_password env ?w1)]"
  let ?w' = "cluster_update ?b (cluster_update ?a ?w2)"
  have g2: "grows u ?w2" using assms(1) by (rule grows_trace)
  then have g3: "grows u (cluster_update ?a ?w2)" by (rule grows_update) (use assms(2) in auto)
  then have g4: "grows u ?w'" by (rule grows_update) (use assms(2) in auto)
  have "init_internal_users env w = (Inr (), ?w')"
    using True assms(3)
    by (simp add: init_internal_users_def bindM_apply whenM_def INTERNAL_USERS_def INTER_BROKER_USER_def ADMIN_USER_def
        generate_password_run thenM_apply)
  moreover have "internal_user_credentials ?w' \<noteq> []"
    using assms(2) by (simp add: internal_user_credentials_def INTERNAL_USERS_def INTER_BROKER_USER_def ADMIN_USER_def
        get_after_update [OF g3] get_after_update [OF g2] Let_def)
  moreover have "cluster_get ?w' ''bootstrap-controller'' = cluster_get w ''bootstrap-controller''"
    by (simp add: get_after_update [OF g3] get_after_update [OF g2])
  ultimately show ?thesis using that g4 by blast
qed

lemma grows_credentials: "grows u w \<Longrightarrow> internal_user_credentials u \<noteq> [] \<Longrightarrow> internal_user_credentials w \<noteq> []"
  by (auto simp: grows_def internal_user_credentials_def INTERNAL_USERS_def INTER_BROKER_USER_def ADMIN_USER_def Let_def
      split: if_splits)

lemma init_uuid_run:
  assumes "grows u w" and "tools_succeed env out" and "new_uuid out \<noteq> []" and "runs_broker w"
    and kept: "cluster_get u ''cluster-uuid'' \<noteq> [] \<Longrightarrow> cluster_get w ''cluster-uuid'' \<noteq> []"
  obtains w' where "init_cluster_uuid env w = (Inr (), w')" "grows u w'" "cluster_get w' ''cluster-uuid'' \<noteq> []"
    "cluster_get w' ''bootstrap-controller'' = cluster_get w ''bootstrap-controller''"
proof (cases "cluster_get w ''cluster-uuid'' = []")
  case False
  with assms show ?thesis by (intro that [of w]) (simp_all add: init_cluster_uuid_def bindM_apply whenM_def)
next
  case True
  obtain f a where g: "generate_uuid env w = (Inr (new_uuid out), w\<lparr>files := f, actions := a\<rparr>)"
    by (rule generate_uuid_run [OF assms(2)])
  let ?w1 = "w\<lparr>files := f, actions := a\<rparr>" and ?items = "[(''cluster-uuid'', new_uuid out)]"
  let ?w' = "peer_cluster_update ?items (cluster_update ?items ?w1)"
  have g1: "grows u ?w1" using assms(1) by (auto intro: grows_trace)
  then have g2: "grows u (cluster_update ?items ?w1)" by (rule grows_update) (use assms(3) True kept in auto)
  have "init_cluster_uuid env w = (Inr (), ?w')"
    using True assms(4) g by (simp add: init_cluster_uuid_def bindM_apply thenM_apply whenM_def)
  moreover have "cluster_get ?w' ''cluster-uuid'' \<noteq> []"
    "cluster_get ?w' ''bootstrap-controller'' = cluster_get w ''bootstrap-controller''"
    using assms(3) by (simp_all add: get_peer_update get_after_update [OF g1])
  ultimately show ?thesis using that grows_rel [OF g2] by blast
qed


lemma kraft_update_single: "single_app w \<Longrightarrow> kraft_update items w = cluster_update items w"
  by (simp add: kraft_update_def)

lemma single_app_update:
  "single_app (cluster_update items w) = single_app w" "single_app (w\<lparr>actions := a\<rparr>) = single_app w"
  by (simp_all add: single_app_def runs_broker_def runs_controller_def cluster_update_def)

lemma single_app_controller: "single_app w \<Longrightarrow> runs_controller w" "single_app w \<Longrightarrow> runs_broker w"
  by (simp_all add: single_app_def)

lemma grows_single_app: "grows u w \<Longrightarrow> single_app w = single_app u"
  by (simp add: grows_def single_app_def runs_broker_def runs_controller_def)

lemma init_bootstrap_run:
  assumes "grows u w" and "tools_succeed env out" and "new_uuid out \<noteq> []" and "single_app w"
    and pw: "\<forall>w. env_password env w \<noteq> []" and i: "unit_id_of (unit_name w) = Inr i"
    and kept: "cluster_get u ''bootstrap-controller'' \<noteq> [] \<Longrightarrow> cluster_get w ''bootstrap-controller'' \<noteq> []"
  obtains w' where "init_bootstrap env w = (Inr (), w')" "grows u w'" "cluster_get w' ''bootstrap-controller'' \<noteq> []"
    "cluster_get w ''bootstrap-controller'' = [] \<longrightarrow>
       cluster_get w' ''controller-password'' \<noteq> [] \<and> cluster_get w' ''bootstrap-replica-id'' = new_uuid out \<and>
       cluster_get w' ''bootstrap-unit-id'' = str_int (KRAFT_NODE_ID_OFFSET + i)"
proof (cases "cluster_get w ''bootstrap-controller'' = []")
  case False
  with assms show ?thesis by (intro that [of w]) (simp_all add: init_bootstrap_def bindM_apply whenM_def)
next
  case True
  let ?w1 = "w\<lparr>actions := actions w @ [Generated]\<rparr>" and ?p = "[(''controller-password'', env_password env w)]"
  let ?w2 = "cluster_update ?p (cluster_update ?p ?w1)"
  obtain f a where g: "generate_uuid env ?w2 = (Inr (new_uuid out), ?w2\<lparr>files := f, actions := a\<rparr>)"
    by (rule generate_uuid_run [OF assms(2)])
  let ?w3 = "?w2\<lparr>files := f, actions := a\<rparr>"
  have g1: "grows u ?w1" using assms(1) by (rule grows_trace)
  then have ga: "grows u (cluster_update ?p ?w1)" by (rule grows_update) (use pw in auto)
  then have g2: "grows u ?w2" by (rule grows_update) (use pw in auto)
  then have g3: "grows u ?w3" by (auto intro: grows_trace)
  have same: "cfg ?w3 = cfg w" "unit_name ?w3 = unit_name w" by (simp_all add: cluster_update_def)
  obtain node where node: "own_bootstrap_controller ?w3 = Inr node" "node \<noteq> []"
    using assms(4) i same by (auto simp: own_bootstrap_controller_def single_app_def runs_controller_def internal_address_def
        internal_auth_def host_port_def ports_of_def SECURITY_PROTOCOL_PORTS_def Let_def)
  let ?items = "[(''bootstrap-controller'', node), (''bootstrap-unit-id'', str_int (KRAFT_NODE_ID_OFFSET + i)),
    (''bootstrap-replica-id'', new_uuid out)]"
  have items: "bootstrap_items (new_uuid out) ?w3 = Inr ?items"
    using node assms(4) i same
    by (simp add: bootstrap_items_def kraft_unit_id_def single_app_def runs_broker_def runs_controller_def)
  have run: "init_bootstrap env w = (Inr (), cluster_update ?items ?w3)"
    using True assms(4) g items
    by (simp add: init_bootstrap_def bindM_apply thenM_apply whenM_def generate_password_run kraft_update_single
        single_app_update single_app_controller readE_def liftE_def)
  have g4: "grows u (cluster_update ?items ?w3)"
    using g3 by (rule grows_update) (use node assms(3) True kept in \<open>auto\<close>)
  show ?thesis
    by (rule that [OF run g4]) (use node pw in \<open>simp_all add: get_after_update [OF g3] get_after_update [OF ga]\<close>)
qed


text \<open>C18: When the leader of an application that runs brokers and controllers sets up KRaft mode, and the
  tools it calls succeed, the set-up returns, and then the internal users have credentials, and the
  cluster id, the bootstrap controller and (where it was not set up before) the controllers'
  password, the id of the bootstrap node and its directory id are recorded. A cluster id or
  bootstrap controller that was recorded before is kept.\<close>

theorem init_kraft_mode_sets_up:
  assumes "leader w" and "peer_rel w" and "bags_ok w" and "single_app w"
    and "unit_id_of (unit_name w) = Inr i" and "\<forall>w. env_password env w \<noteq> []"
    and "tools_succeed env out" and "new_uuid out \<noteq> []"
  shows "\<exists>w'. init_kraft_mode env w = (Inr (), w') \<and> internal_user_credentials w' \<noteq> [] \<and>
     (\<forall>k \<in> {''cluster-uuid'', ''bootstrap-controller''}.
        cluster_get w' k \<noteq> [] \<and> (cluster_get w k \<noteq> [] \<longrightarrow> cluster_get w' k = cluster_get w k)) \<and>
     (cluster_get w ''bootstrap-controller'' = [] \<longrightarrow>
        cluster_get w' ''controller-password'' \<noteq> [] \<and> cluster_get w' ''bootstrap-replica-id'' = new_uuid out \<and>
        cluster_get w' ''bootstrap-unit-id'' = str_int (KRAFT_NODE_ID_OFFSET + i))"
proof -
  note roles = single_app_controller [OF assms(4)]
  obtain w1 where 1: "init_internal_users env w = (Inr (), w1)" "grows w w1" "internal_user_credentials w1 \<noteq> []"
    "cluster_get w1 ''bootstrap-controller'' = cluster_get w ''bootstrap-controller''"
    by (rule init_users_run [OF grows_refl assms(6) roles(2)]) (use assms in auto)
  then have s1: "single_app w1" using assms(4) by (simp add: grows_single_app)
  have g1: "grows w1 w1" using 1(2) by (simp add: grows_def)
  obtain w2 where 2: "init_cluster_uuid env w1 = (Inr (), w2)" "grows w1 w2" "cluster_get w2 ''cluster-uuid'' \<noteq> []"
    "cluster_get w2 ''bootstrap-controller'' = cluster_get w1 ''bootstrap-controller''"
    by (rule init_uuid_run [OF g1 assms(7,8) single_app_controller(2) [OF s1]])
  then have g2: "grows w2 w2" "single_app w2" using s1 by (simp add: grows_def, simp add: grows_single_app)
  have i: "unit_id_of (unit_name w2) = Inr i" using assms(5) 1(2) 2(2) by (simp add: grows_def)
  obtain w3 where 3: "init_bootstrap env w2 = (Inr (), w3)" "grows w2 w3" "cluster_get w3 ''bootstrap-controller'' \<noteq> []"
    "cluster_get w2 ''bootstrap-controller'' = [] \<longrightarrow>
       cluster_get w3 ''controller-password'' \<noteq> [] \<and> cluster_get w3 ''bootstrap-replica-id'' = new_uuid out \<and>
       cluster_get w3 ''bootstrap-unit-id'' = str_int (KRAFT_NODE_ID_OFFSET + i)"
    by (rule init_bootstrap_run [OF g2(1) assms(7,8) g2(2) assms(6) i])
  have "init_kraft_mode env w = (Inr (), w3)"
    using assms(1) 1(1) 2(1) 3(1) by (simp add: init_kraft_mode_def bindM_apply thenM_apply)
  moreover have "grows w1 w3" "grows w w3" using 1(2) 2(2) 3(2) grows_trans by blast+
  moreover have "cluster_get w3 ''cluster-uuid'' \<noteq> []" using 2(3) 3(2) by (simp add: grows_def)
  ultimately show ?thesis
    using 1(4) 2(4) 3(3,4) grows_credentials [OF \<open>grows w1 w3\<close> 1(3)] by (auto simp: grows_def)
qed


text \<open>Tools that answer every command with the same id.\<close>

definition uuid_env :: env where
  "uuid_env = silent_env\<lparr>env_exec := \<lambda>w d c e. (Inr ''xyz'', files w)\<rparr>"

lemma uuid_env_succeeds: "tools_succeed uuid_env (\<lambda>_. ''xyz'')" "\<forall>w. env_password uuid_env w \<noteq> []" "new_uuid (\<lambda>_. ''xyz'') \<noteq> []"
  by (simp_all add: tools_succeed_def uuid_env_def silent_env_def new_uuid_def) code_simp

definition kraft_world :: world where
  "kraft_world = blank_world\<lparr>cfg := (cfg blank_world)\<lparr>cfg_roles := ''broker,controller''\<rparr>\<rparr>"

lemma kraft_world_ok:
  "leader kraft_world" "peer_rel kraft_world" "bags_ok kraft_world" "single_app kraft_world"
  "unit_id_of (unit_name kraft_world) = Inr 0" "cluster_get kraft_world ''bootstrap-controller'' = []"
  by code_simp+

theorem init_kraft_mode_sets_up_witness:
  "fst (init_kraft_mode uuid_env kraft_world) = Inr () \<and>
   cluster_get (snd (init_kraft_mode uuid_env kraft_world)) ''bootstrap-unit-id'' = str_int (KRAFT_NODE_ID_OFFSET + 0)"
  using init_kraft_mode_sets_up [OF kraft_world_ok(1-5) uuid_env_succeeds(2,1,3)] kraft_world_ok(6) by fastforce

end
