(* ===== verification/Provider_Events.thy ===== *)
theory Provider_Events
  imports Operator_Base
begin

text \<open>
  \<^verbatim>\<open>events/provider.py\<close>: users, access rules and connection data of client applications. The
  library that writes a response to a client is a parameter of the program: a response is
  recorded with its fields.
\<close>

section \<open>Creating a client\<close>

definition client_alias :: "KafkaClient \<Rightarrow> string" where
  "client_alias c = generate_alias (kc_app c) (kc_rel_id c)"

definition tls_for_clients :: "world \<Rightarrow> bool" where
  "tls_for_clients w \<longleftrightarrow> tls_enabled w \<and> certificate w CLIENT_SCOPE \<noteq> []"

definition client_acls :: "env \<Rightarrow> string \<Rightarrow> KafkaClient \<Rightarrow> unit hook" where
  "client_acls env username c =
     bindM auth_opts (\<lambda>opts.
       update_user_acls env opts username (req_resource (kc_request c)) (extra_user_roles c)
         (consumer_group_prefix c) (permissions c))"

definition create_client :: "env \<Rightarrow> KafkaClient \<Rightarrow> unit hook" where
  "create_client env c =
     bindM (if kc_password c \<noteq> [] then ret (kc_password c) else generate_password env) (\<lambda>password.
     bindM auth_opts (\<lambda>opts.
     bindM (tryM (thenM (add_user env opts (kc_username c) password) (ret True)) is_command_error (\<lambda>_. ret False)) (\<lambda>added.
       if \<not> added then skip
       else thenM (client_acls env (kc_username c) c)
         (bindM (readE super_users) (\<lambda>users.
            modM (cluster_update [(''super-users'', users), (kc_username c, password)]))))))"

definition handle_client_request :: "outside \<Rightarrow> KafkaClient \<Rightarrow> unit hook" where
  "handle_client_request out c =
     bindM (readM (\<lambda>w. cluster_get w (kc_username c))) (\<lambda>known.
       if req_resource (kc_request c) = [] \<or> known \<noteq> [] then skip
       else bindM (readE bootstrap_server_internal) (\<lambda>uris.
            bindM (ping_uris (out_env out) uris) (\<lambda>up.
              if \<not> up then skip
              else bindM broker_healthy (\<lambda>ok.
                   bindM (readM (\<lambda>w. (leader w \<and> peer_rel w, tls_for_clients w))) (\<lambda>(mine, tls).
                     if \<not> ok \<or> \<not> mine then skip
                     else if mtls_cert c \<noteq> [] \<and> \<not> tls then set_status MTLS_REQUIRES_TLS
                     else bindM (if mtls_cert c = [] then ret False
                                 else alias_needs_update BROKER (out_env out) (out_crypto out) (client_alias c) (mtls_cert c)) (\<lambda>waiting.
                            if waiting then skip else create_client (out_env out) c))))))"


section \<open>Removing clients\<close>

definition broken_clients :: "k8s_api \<Rightarrow> world \<Rightarrow> exn + string list" where
  "broken_clients api w =
     bindE (clients api w) (\<lambda>cs.
       Inr (if peer_rel w
            then filter (\<lambda>u. startswith u ''relation-'' \<and> u \<notin> set (map kc_username cs)) (keys (app_items (app_bag w)))
            else []))"

definition remove_broken_clients :: "env \<Rightarrow> unit hook" where
  "remove_broken_clients env =
     bindM (readE (broken_clients (env_k8s env))) (\<lambda>usernames.
     bindM auth_opts (\<lambda>opts.
       forM usernames (\<lambda>u.
         seqM [remove_all_user_acls env opts u, delete_user env opts u, modM (cluster_update [(u, [])])])))"


section \<open>Responses\<close>

text \<open>Version 1 carries the TLS flag as a boolean.\<close>

definition response_tls :: "KafkaClient \<Rightarrow> string" where
  "response_tls c = (if kc_version c = ''v1'' then str_bool (kc_tls c = ''enabled'') else kc_tls c)"

definition optional :: "string \<Rightarrow> string option \<Rightarrow> (string \<times> string) list" where
  "optional k v = (case v of None \<Rightarrow> [] | Some s \<Rightarrow> [(k, s)])"

definition client_response :: "env \<Rightarrow> world \<Rightarrow> KafkaClient \<Rightarrow> exn + (string \<times> string) list" where
  "client_response env w c =
     bindE (bootstrap_server c) (\<lambda>endpoints.
       Inr (optional ''request-id'' (req_id (kc_request c)) @
            [(''salt'', req_salt (kc_request c)), (''username'', kc_username c), (''password'', kc_password c),
             (''endpoints'', endpoints), (''consumer-group-prefix'', consumer_group_prefix c),
             (''tls'', response_tls c), (''tls-ca'', ca w CLIENT_SCOPE), (''resource'', req_resource (kc_request c))] @
            optional ''secret-user'' (env_secret_id env ''user'' (kc_rel_id c) (req_id (kc_request c))) @
            optional ''secret-tls'' (env_secret_id env ''tls'' (kc_rel_id c) (req_id (kc_request c))) @
            [(''version'', kc_version c)]))"

definition update_client :: "outside \<Rightarrow> KafkaClient \<Rightarrow> unit hook" where
  "update_client out c =
     (if kc_units c = [] \<or> \<not> kc_active c then skip
      else thenM (handle_client_request out c)
        (if kc_password c = [] \<or> req_resource (kc_request c) = [] then skip
         else bindM (readE (\<lambda>w. needs_update (env_secret (out_env out)) c (ca w CLIENT_SCOPE))) (\<lambda>stale.
           if \<not> stale then skip
           else bindM (readE (\<lambda>w. client_response (out_env out) w c)) (\<lambda>response.
                  do_action (Responded (kc_rel_id c) response)))))"

definition reconcile :: "outside \<Rightarrow> unit hook" where
  "reconcile out =
     bindM (readM leader) (\<lambda>ld.
       if \<not> ld then skip
       else bindM broker_healthy (\<lambda>ok.
         if \<not> ok then skip
         else thenM (remove_broken_clients (out_env out))
                (bindM (readE (clients (env_k8s (out_env out)))) (\<lambda>cs. forM cs (update_client out)))))"


section \<open>Handlers\<close>

text \<open>\<open>config_changed\<close> is the broker's own handler, called directly.\<close>

definition on_topic_requested :: "(event \<Rightarrow> unit hook) \<Rightarrow> outside \<Rightarrow> int \<Rightarrow> unit hook" where
  "on_topic_requested config_changed out rid =
     thenM (bindM (readE (clients (env_k8s (out_env out)))) (\<lambda>cs.
              forM (filter (\<lambda>c. kc_rel_id c = rid) cs) (handle_client_request out)))
       (config_changed (TopicRequested rid))"

definition on_client_relation_created :: "(event \<Rightarrow> unit hook) \<Rightarrow> unit hook" where
  "on_client_relation_created config_changed = config_changed ClientCreated"

text \<open>
  One client of a relation whose certificate changed; the answer says whether the handler goes
  on with the next.
\<close>

definition update_mtls_client :: "outside \<Rightarrow> event \<Rightarrow> KafkaClient \<Rightarrow> bool hook" where
  "update_mtls_client out event c =
     bindM (liftE (is_valid_leaf_certificate (out_crypto out) (mtls_cert c))) (\<lambda>leaf.
       if \<not> leaf then thenM (set_status INVALID_CLIENT_CERTIFICATE) (ret False)
       else bindM (readE bootstrap_server_internal) (\<lambda>uris.
            bindM (ping_uris (out_env out) uris) (\<lambda>up.
              if \<not> up then thenM (defer_event event) (ret False)
              else bindM (liftE (x509_name (out_crypto out) (mtls_cert c))) (\<lambda>dn.
                   bindM (readM (\<lambda>w. ssl_principal_mapping_rules (cfg w))) (\<lambda>rules.
                     case bindE (mapper_rules (out_compile out) rules) (\<lambda>rs. get_name rs dn) of
                       Inl NoMatchingRuleError \<Rightarrow> ret False
                     | Inl e \<Rightarrow> raise e
                     | Inr cert_principal \<Rightarrow>
                         bindM auth_opts (\<lambda>opts.
                           thenM (remove_all_user_acls (out_env out) opts (kc_username c))
                             (thenM (client_acls (out_env out) cert_principal c) (ret True))))))))"

fun update_mtls_clients :: "outside \<Rightarrow> event \<Rightarrow> KafkaClient list \<Rightarrow> bool hook" where
  "update_mtls_clients out event [] = ret True"
| "update_mtls_clients out event (c # cs) =
     bindM (update_mtls_client out event c) (\<lambda>go. if go then update_mtls_clients out event cs else ret False)"

definition on_mtls_cert_updated :: "(event \<Rightarrow> unit hook) \<Rightarrow> outside \<Rightarrow> int \<Rightarrow> unit hook" where
  "on_mtls_cert_updated emit out rid =
     bindM (readM (\<lambda>w. list_ex (\<lambda>r. cr_id r = rid \<and> cr_active r) (client_rels w))) (\<lambda>related.
       if \<not> related then skip
       else bindM (readE (clients (env_k8s (out_env out)))) (\<lambda>cs.
         let mtls_clients = filter (\<lambda>c. kc_rel_id c = rid \<and> mtls_cert c \<noteq> []) cs
         in if mtls_clients = [] then skip
            else bindM broker_healthy (\<lambda>ok.
              if \<not> ok then defer_event (MtlsCertUpdated rid)
              else bindM (readM tls_for_clients) (\<lambda>tls.
                if \<not> tls then thenM (set_status MTLS_REQUIRES_TLS) (defer_event (MtlsCertUpdated rid))
                else bindM (update_mtls_clients out (MtlsCertUpdated rid) mtls_clients) (\<lambda>done_all.
                       whenM done_all (emit ConfigChangedEvent))))))"

definition remove_client_certificate :: "outside \<Rightarrow> string \<Rightarrow> unit hook" where
  "remove_client_certificate out alias =
     thenM (bindM (readM leader) (\<lambda>ld. whenM ld
              (bindM (alias_common_name BROKER (out_env out) (out_crypto out) alias) (\<lambda>username.
               bindM auth_opts (\<lambda>opts. remove_all_user_acls (out_env out) opts username)))))
       (thenM (remove_cert BROKER (out_env out) alias CLIENT_SCOPE) (reload_truststore BROKER (out_env out)))"

definition on_client_relation_broken :: "outside \<Rightarrow> string \<Rightarrow> int \<Rightarrow> unit hook" where
  "on_client_relation_broken out app rid =
     bindM broker_healthy (\<lambda>ok.
       if \<not> ok then defer_event (ClientBroken app rid)
       else let alias = generate_alias app rid
            in thenM
                 (bindM (client_trusted_certificates BROKER (out_env out)) (\<lambda>certs.
                  bindM (readM (\<lambda>w. hd (split_char (CHR ''/'') (unit_name w)))) (\<lambda>own_app.
                    whenM (alias \<in> set (keys certs) \<and> app \<noteq> own_app) (remove_client_certificate out alias))))
                 (reconcile out))"



section \<open>Properties\<close>

text \<open>A client is created in a world whose application data can be written.\<close>

definition can_create :: "world \<Rightarrow> string \<Rightarrow> string list \<Rightarrow> (string, string) dict \<Rightarrow> bool" where
  "can_create w log4j conn opts \<longleftrightarrow>
     leader w \<and> peer_rel w \<and> bags_ok w \<and> runs_broker w \<and> connection_args w = Inr conn \<and>
     tools_log4j_opts BROKER w = Inr log4j \<and> parse_opts [log4j] = Inr opts"

lemma can_create_trace [simp]:
  "can_create (w\<lparr>actions := a\<rparr>) log4j conn opts = can_create w log4j conn opts"
  "can_create (w\<lparr>files := f\<rparr>) log4j conn opts = can_create w log4j conn opts"
proof -
  have "log_level (w\<lparr>actions := a\<rparr>) = log_level w" "log_level (w\<lparr>files := f\<rparr>) = log_level w" by (simp_all add: log_level_def)
  moreover have "connection_args (w\<lparr>actions := a\<rparr>) = connection_args w" "connection_args (w\<lparr>files := f\<rparr>) = connection_args w"
    using connection_args_frame [where w = w and f = "files w" and a = a] connection_args_frame [where w = w and f = f and a = "actions w"] by simp_all
  ultimately show "can_create (w\<lparr>actions := a\<rparr>) log4j conn opts = can_create w log4j conn opts"
    and "can_create (w\<lparr>files := f\<rparr>) log4j conn opts = can_create w log4j conn opts"
    by (simp_all only: can_create_def tools_log4j_opts_def) (simp_all add: bags_ok_def runs_broker_def del: parse_opts.simps)
qed

lemma client_password_run:
  obtains pw acts where "(if kc_password c \<noteq> [] then ret (kc_password c) else generate_password env) w = (Inr pw, w\<lparr>actions := acts\<rparr>)"
    "pw = (if kc_password c \<noteq> [] then kc_password c else env_password env w)"
proof (cases "kc_password c = []")
  case True
  then show ?thesis
    by (intro that [of "env_password env w" "actions w @ [Generated]"]) (simp_all add: generate_password_def bindM_apply thenM_apply)
next
  case False
  then show ?thesis by (intro that [of "kc_password c" "actions w"]) simp_all
qed

lemma auth_opts_run: "can_create w log4j conn opts \<Longrightarrow> auth_opts w = (Inr log4j, w)"
  by (simp add: can_create_def auth_opts_def readE_def bindM_apply)

definition add_user_args :: "string \<Rightarrow> string \<Rightarrow> string list \<Rightarrow> string list" where
  "add_user_args username password conn =
     [''--alter'', ''--entity-type=users'', ''--entity-name='' @ username,
      ''--add-config=SCRAM-SHA-512=[password='' @ password @ '']''] @ conn"

lemma add_user_run:
  assumes "can_create w log4j conn opts" and "tools_succeed env out"
  obtains fs where "add_user env log4j u pw w =
    (Inr (), w\<lparr>files := fs, actions := actions w @ [Exec None (bin_command ''configs'' (add_user_args u pw conn)) opts]\<rparr>)"
proof -
  have ok: "parse_opts [log4j] = Inr opts" "connection_args w = Inr conn" using assms(1) by (simp_all add: can_create_def)
  obtain fs where "run_bin_command env ''configs'' (add_user_args u pw conn) [log4j] w =
     (Inr (out (bin_command ''configs'' (add_user_args u pw conn))),
      w\<lparr>files := fs, actions := actions w @ [Exec None (bin_command ''configs'' (add_user_args u pw conn)) opts]\<rparr>)"
    by (rule run_tool [OF assms(2) ok(1)])
  then show ?thesis using ok by (intro that [of fs]) (simp add: add_user_def add_user_args_def bindM_apply thenM_apply)
qed

lemma client_acls_run:
  assumes "can_create w log4j conn opts" and "tools_succeed env out"
  obtains fs acts where "client_acls env u c w = (Inr (), w\<lparr>files := fs, actions := actions w @ acts\<rparr>)"
proof -
  have ok: "parse_opts [log4j] = Inr opts" "connection_args w = Inr conn" using assms(1) by (simp_all add: can_create_def)
  show ?thesis
    by (rule update_user_acls_trace [OF assms(2) ok(2,1) refl refl, of u "req_resource (kc_request c)" "extra_user_roles c"
          "consumer_group_prefix c" "permissions c"])
       (rule that, simp add: client_acls_def bindM_apply auth_opts_run [OF assms(1)])
qed


text \<open>C19: when the tools succeed, creating a client adds its user with the password that is then recorded for
  it, the client's own one if it has one, and changes no other field of the application data
  than the list of super users.\<close>

theorem create_client_records_password:
  assumes "can_create w log4j conn opts" and "tools_succeed env out" and "\<forall>w. env_password env w \<noteq> []"
  shows "\<exists>w' pw before after.
     create_client env c w = (Inr (), w') \<and> pw \<noteq> [] \<and> (kc_password c \<noteq> [] \<longrightarrow> pw = kc_password c) \<and>
     actions w' = before @ Exec None (bin_command ''configs'' (add_user_args (kc_username c) pw conn)) opts # after \<and>
     cluster_get w' (kc_username c) = pw \<and>
     (\<forall>k. k \<noteq> ''super-users'' \<longrightarrow> k \<noteq> kc_username c \<longrightarrow> cluster_get w' k = cluster_get w k)"
proof -
  obtain pw a1 where pw: "(if kc_password c \<noteq> [] then ret (kc_password c) else generate_password env) w = (Inr pw, w\<lparr>actions := a1\<rparr>)"
    "pw = (if kc_password c \<noteq> [] then kc_password c else env_password env w)"
    by (rule client_password_run)
  let ?w1 = "w\<lparr>actions := a1\<rparr>" and ?x = "Exec None (bin_command ''configs'' (add_user_args (kc_username c) pw conn)) opts"
  have c1: "can_create ?w1 log4j conn opts" using assms(1) by simp
  obtain f2 where add: "add_user env log4j (kc_username c) pw ?w1 = (Inr (), ?w1\<lparr>files := f2, actions := actions ?w1 @ [?x]\<rparr>)"
    by (rule add_user_run [OF c1 assms(2)])
  let ?w2 = "?w1\<lparr>files := f2, actions := actions ?w1 @ [?x]\<rparr>"
  have c2: "can_create ?w2 log4j conn opts" using c1 by simp
  obtain f3 a3 where acls: "client_acls env (kc_username c) c ?w2 = (Inr (), ?w2\<lparr>files := f3, actions := actions ?w2 @ a3\<rparr>)"
    by (rule client_acls_run [OF c2 assms(2)])
  let ?w3 = "?w2\<lparr>files := f3, actions := actions ?w2 @ a3\<rparr>"
  have ok: "leader ?w3" "peer_rel ?w3" "bags_ok ?w3" "runs_broker ?w3"
    using assms(1) by (simp_all add: can_create_def bags_ok_def runs_broker_def)
  then obtain users where users: "super_users ?w3 = Inr users" by (simp add: super_users_def runs_controller_only_def Let_def)
  let ?items = "[(''super-users'', users), (kc_username c, pw)]"
  have run: "create_client env c w = (Inr (), cluster_update ?items ?w3)"
    using pw(1) add acls users auth_opts_run [OF c1]
    by (simp add: create_client_def bindM_apply thenM_apply tryM_apply readE_def)
  have get: "cluster_get (cluster_update ?items ?w3) k = (case map_of (rev ?items) k of None \<Rightarrow> cluster_get w k | Some v \<Rightarrow> v)" for k
    using cluster_get_update [OF ok(3,2,1), of ?items k] by (simp add: cluster_get_def)
  have acts: "actions (cluster_update ?items ?w3) = a1 @ ?x # a3" by (simp add: cluster_update_def)
  show ?thesis
    using run get [of "kc_username c"] get acts pw(2) assms(3)
    by (intro exI [of _ "cluster_update ?items ?w3"] exI [of _ pw] exI [of _ a1] exI [of _ a3]) (auto split: if_splits)
qed




definition sample_client :: KafkaClient where
  "sample_client =
     \<lparr>kc_rel_id = 3, kc_app = ''app'', kc_units = [''app/0''], kc_active = True,
      kc_request = \<lparr>req_resource = ''news'', req_roles = ''producer'', req_mtls_cert = [], req_id = None, req_salt = [],
                    req_permissions = []\<rparr>,
      kc_data = [], kc_bootstrap_server = [], kc_password = [], kc_tls = ''disabled'', kc_written = [], kc_written_requests = None\<rparr>"

lemma can_create_blank:
  "can_create blank_world (projr (tools_log4j_opts BROKER blank_world)) (projr (connection_args blank_world))
     (projr (parse_opts [projr (tools_log4j_opts BROKER blank_world)]))"
  by code_simp

theorem create_client_records_password_witness:
  "cluster_get (snd (create_client silent_env sample_client blank_world)) (kc_username sample_client) \<noteq> []"
  using create_client_records_password [OF can_create_blank silent_env_succeeds, of sample_client]
  by (auto simp: silent_env_def)


end
