(* ===== verification/Balancer_Events.thy ===== *)
theory Balancer_Events
  imports Operator_Base
begin

text \<open>
  \<^verbatim>\<open>events/balancer.py\<close>: the life of the Cruise Control service on the leader, and rebalances asked
  for by an operator or by the charm itself.
\<close>

section \<open>Rebalance events\<close>

text \<open>What a deferred event is saved as, and restored from.\<close>

definition rebalance_snapshot :: "string \<Rightarrow> int option \<Rightarrow> (string, string) dict" where
  "rebalance_snapshot mode broker_id =
     (''mode'', mode) # (case broker_id of Some b \<Rightarrow> if b \<noteq> 0 then [(''broker_id'', str_int b)] else [] | None \<Rightarrow> [])"

definition rebalance_restore :: "(string, string) dict \<Rightarrow> exn + string \<times> int option" where
  "rebalance_restore d =
     (case map_of d ''mode'' of
        None \<Rightarrow> Inl KeyError
      | Some mode \<Rightarrow>
          (case map_of d ''broker_id'' of
             None \<Rightarrow> Inr (mode, None)
           | Some t \<Rightarrow> if t = [] then Inr (mode, None)
                       else (case py_int t of None \<Rightarrow> Inl ValueError | Some b \<Rightarrow> Inr (mode, Some b))))"


section \<open>The service\<close>

definition balancer_healthy :: "bool hook" where
  "balancer_healthy =
     bindM (readM runs_balancer) (\<lambda>bal.
       if \<not> bal then ret True
       else bindM (readE balancer_status) (\<lambda>s.
         if s \<noteq> ACTIVE then thenM (set_status s) (ret False)
         else bindM (readM (\<lambda>w. \<not> active w BALANCER \<and> leader w)) (\<lambda>down.
           if down then thenM (set_status CC_NOT_RUNNING) (ret False) else ret True)))"

definition balancer_setup_internal_tls :: "outside \<Rightarrow> unit hook" where
  "balancer_setup_internal_tls out =
     bindM (readM (\<lambda>w. tls_ready w PEER_SCOPE)) (\<lambda>ready.
       if ready then configure BALANCER (out_env out) (out_crypto out)
       else bindM (generate_self_signed_certificate (out_env out) (out_crypto out)) (\<lambda>cert.
         case cert of
           None \<Rightarrow> skip
         | Some c \<Rightarrow> thenM (modM (set_self_signed PEER_SCOPE c)) (configure BALANCER (out_env out) (out_crypto out))))"

definition balancer_on_install :: "unit hook" where
  "balancer_on_install =
     bindM (readM can_connect) (\<lambda>conn. if \<not> conn then defer_event InstallEvent else set_balancer_environment)"

definition balancer_credentials :: "env \<Rightarrow> unit hook" where
  "balancer_credentials env =
     bindM (readM (\<lambda>w. cluster_get w ''balancer-password'')) (\<lambda>pw.
       if pw \<noteq> [] then skip
       else bindM (generate_password env) (\<lambda>pw.
            bindM (readE (\<lambda>w. internal_address (unit_name w))) (\<lambda>addr.
              let payload = [(''balancer-username'', BALANCER_WEBSERVER_USER), (''balancer-password'', pw),
                             (''balancer-uris'', host_port addr BALANCER_WEBSERVER_PORT)]
              in thenM (modM (cluster_update payload)) (modM (orchestrator_update payload)))))"

definition balancer_on_start :: "outside \<Rightarrow> event \<Rightarrow> unit hook" where
  "balancer_on_start out event =
     bindM (readE balancer_status) (\<lambda>s.
       if s \<noteq> ACTIVE then set_status s
       else thenM (seqM [balancer_credentials (out_env out), balancer_setup_internal_tls out,
                         set_cruise_control_properties, set_broker_capacities, set_cruise_control_auth])
         (bindM (tryM (thenM (create_internal_topics (out_env out)) (ret True)) is_command_error (\<lambda>_. ret False)) (\<lambda>created.
            if \<not> created then defer_event event
            else thenM (restart_service BALANCER)
              (bindM (readM balancer_tls_rotate) (\<lambda>rot. whenM rot (modM (set_balancer_tls_rotate False)))))))"


section \<open>Rebalances\<close>

text \<open>\<^verbatim>\<open>x in value\<close> on a parsed answer.\<close>

definition jin :: "string \<Rightarrow> json \<Rightarrow> exn + bool" where
  "jin x j =
     (case j of
        JDict kvs \<Rightarrow> Inr (x \<in> set (keys kvs))
      | JList xs \<Rightarrow> Inr (jmem (JStr x) xs)
      | JStr s \<Rightarrow> Inr (contains x s)
      | _ \<Rightarrow> Inl TypeError)"

definition json_str :: "json \<Rightarrow> string" where
  "json_str j = (case j of JStr s \<Rightarrow> s | _ \<Rightarrow> py_repr j)"

text \<open>The ids a broker may have; for other applications the unit numbers, as in the source.\<close>

definition available_brokers :: "world \<Rightarrow> exn + int list" where
  "available_brokers w =
     (if runs_broker w then mapE (\<lambda>(n, _). broker_id_of n) (brokers w)
      else bindE (peer_cluster w) (\<lambda>pc.
             case pc_rel pc of None \<Rightarrow> Inr [] | Some r \<Rightarrow> mapE unit_id_of (rel_units r)))"

definition quoted :: "string \<Rightarrow> string" where
  "quoted s = SQ # s @ [SQ]"

definition fail_if :: "bool hook \<Rightarrow> string \<Rightarrow> unit hook" where
  "fail_if check msg = bindM check (\<lambda>b. if b then raise (RebalanceError msg) else skip)"

definition notM :: "bool hook \<Rightarrow> bool hook" where
  "notM c = bindM c (\<lambda>b. ret (\<not> b))"

definition rebalance_checks :: "cc_api \<Rightarrow> bool \<Rightarrow> string \<Rightarrow> int option \<Rightarrow> int list \<Rightarrow> unit hook" where
  "rebalance_checks cc by_action mode broker_id available =
     (let of_broker = mode \<in> {MODE_ADD, MODE_REMOVE}
      in seqM
        [fail_if (readM (\<lambda>w. \<not> runs_balancer w)) ''Action must be run on an application with balancer role'',
         fail_if (readM (\<lambda>w. \<not> leader w)) ''Action must be run on the application leader'',
         fail_if (notM (monitoring cc)) ''CruiseControl balancer service is not yet ready'',
         fail_if (executing cc) ''CruiseControl balancer service is currently executing a task, please try again later'',
         fail_if (notM (cc_ready cc)) ''CruiseControl balancer service has not yet collected enough data to provide a partition reallocation proposal'',
         fail_if (ret (of_broker \<and> broker_id = None)) (quoted MODE_ADD @ '' and '' @ quoted MODE_REMOVE @ '' rebalance action require passing the '' @ quoted ''brokerid'' @ '' parameter''),
         fail_if (ret (by_action \<and> of_broker \<and> broker_id \<notin> Some ` set available)) ''invalid brokerid''])"

text \<open>
  The operation blocks until the task is done. A loop that outlasts \<open>out_rounds\<close> looks has no
  result in the source; here it ends with an exception of its own.
\<close>

definition operator_rebalance :: "outside \<Rightarrow> bool \<Rightarrow> string \<Rightarrow> int option \<Rightarrow> bool \<Rightarrow> json hook" where
  "operator_rebalance out by_action mode broker_id dryrun =
     bindM (readE available_brokers) (\<lambda>available.
     thenM (rebalance_checks (out_cc out) by_action mode broker_id available)
     (bindM (rebalance (out_cc out) mode dryrun broker_id) (\<lambda>(code, j, task).
      bindM (if code \<noteq> 200 then ret True else liftE (jin ''errorMessage'' j)) (\<lambda>failed.
        if failed then
          bindM (liftE (jget ''errorMessage'' (JStr []) j)) (\<lambda>msg.
            raise (RebalanceError (quoted mode @ '' rebalance failed with status code '' @ str_int code @ '' - '' @ json_str msg)))
        else thenM (set_status WAITING_FOR_REBALANCE)
          (bindM (wait_for_task (out_rounds out) (out_cc out) task) (\<lambda>finished.
             if finished then ret j else raise (PyException ''still waiting'')))))))"

definition is_rebalance_error :: "exn \<Rightarrow> bool" where
  "is_rebalance_error e = (case e of RebalanceError _ \<Rightarrow> True | _ \<Rightarrow> False)"

definition rebalance_message :: "exn \<Rightarrow> string" where
  "rebalance_message e = (case e of RebalanceError m \<Rightarrow> m | _ \<Rightarrow> [])"

definition fail_action :: "string \<Rightarrow> unit hook" where
  "fail_action msg = thenM (do_action (ActionResult [(''error'', msg)])) (do_action (ActionFailed msg))"

definition on_rebalance_action :: "outside \<Rightarrow> string \<Rightarrow> int option \<Rightarrow> bool \<Rightarrow> unit hook" where
  "on_rebalance_action out mode broker_id dryrun =
     bindM (tryM (bindM (operator_rebalance out True mode broker_id dryrun) (\<lambda>j. ret (Inr j))) is_rebalance_error
              (\<lambda>e. ret (Inl (rebalance_message e)))) (\<lambda>r.
       case r of
         Inl msg \<Rightarrow> fail_action msg
       | Inr j \<Rightarrow>
           (case clean_results j of
              JDict kvs \<Rightarrow> do_action (ActionResult (map (\<lambda>(k, v). (k, json_str v)) kvs))
            | _ \<Rightarrow> fail_action ''Unknown error''))"

definition on_rebalance_event :: "outside \<Rightarrow> string \<Rightarrow> int option \<Rightarrow> unit hook" where
  "on_rebalance_event out mode broker_id =
     bindM (case broker_id of
              Some b \<Rightarrow>
                if mode = ''remove'' \<and> b \<noteq> 0
                then bindM (readE peer_cluster) (\<lambda>pc. all_storages_drained (out_env out) (broker_uris pc) b)
                else ret False
            | None \<Rightarrow> ret False) (\<lambda>drained.
       if drained then skip
       else bindM (monitoring (out_cc out)) (\<lambda>mon.
            bindM (executing (out_cc out)) (\<lambda>busy.
            bindM (cc_ready (out_cc out)) (\<lambda>ready.
              if \<not> mon \<or> busy \<or> \<not> ready then skip
              else tryM (thenM (operator_rebalance out False mode broker_id False) skip) is_rebalance_error (\<lambda>_. skip)))))"

definition rebalance_empty_brokers :: "(event \<Rightarrow> unit hook) \<Rightarrow> (string, json list) dict \<Rightarrow> unit hook" where
  "rebalance_empty_brokers emit assignment =
     forM assignment (\<lambda>(storage, partitions).
       case py_int (hd (split_char (CHR ''/'') storage)) of
         None \<Rightarrow> raise ValueError
       | Some b \<Rightarrow> whenM (partitions = []) (emit (RebalanceEvent ''add'' (Some b))))"

definition balancer_on_config_changed :: "(event \<Rightarrow> unit hook) \<Rightarrow> outside \<Rightarrow> unit hook" where
  "balancer_on_config_changed emit out =
     bindM (readM leader) (\<lambda>ld.
       if \<not> ld then skip
       else bindM balancer_healthy (\<lambda>ok.
         if \<not> ok then skip
         else bindM (readE config_change_detected) (\<lambda>changed.
              bindM (readM balancer_tls_rotate) (\<lambda>rot.
              thenM (whenM (changed \<or> rot)
                      (seqM [set_cruise_control_properties, set_broker_capacities, emit StartEvent]))
                (bindM (readE peer_cluster) (\<lambda>pc.
                 bindM (get_partition_assignment (out_env out) (broker_uris pc)) (rebalance_empty_brokers emit)))))))"


section \<open>Properties\<close>

text \<open>A rebalance event that is saved when it is deferred is restored with its mode and its broker, except
  that broker 0 is forgotten.\<close>

theorem rebalance_event_roundtrip:
  "rebalance_restore (rebalance_snapshot mode b) = Inr (mode, if b = Some 0 then None else b)"
  by (cases b) (auto simp: rebalance_restore_def rebalance_snapshot_def)

end
