(* ===== verification/Broker_Events.thy ===== *)
theory Broker_Events
  imports Tls_Events Controller_Events Provider_Events Balancer_Events
begin

text \<open>
  \<^verbatim>\<open>events/broker.py\<close>: the life of the Kafka service. The handlers are composed of the programs of
  the other handlers and managers in the order of the source.
\<close>

section \<open>Installing and starting\<close>

definition broker_on_install :: "env \<Rightarrow> unit hook" where
  "broker_on_install env =
     bindM (readM can_connect) (\<lambda>conn.
       if \<not> conn then defer_event InstallEvent
       else thenM (set_environment env) (update_external_services env))"

definition publish_machine :: "env \<Rightarrow> unit hook" where
  "publish_machine env =
     bindM (readM peer_rel) (\<lambda>related. whenM related
       (bindM (machine_cores env) (\<lambda>n.
        bindM (readE rack) (\<lambda>r. modM (broker_update [(''cores'', n), (''rack'', r)])))))"

definition init_internal_ca :: "crypto \<Rightarrow> unit hook" where
  "init_internal_ca cr =
     bindM (readM (\<lambda>w. \<not> tls_ready w PEER_SCOPE \<and> internal_ca w = None \<and> leader w)) (\<lambda>needed. whenM needed
       (bindM (readM (generate_internal_ca cr)) (\<lambda>(authority, key).
          thenM (modM (set_internal_ca authority)) (modM (set_internal_ca_key key)))))"

definition start_broker :: "(event \<Rightarrow> unit hook) \<Rightarrow> outside \<Rightarrow> unit hook" where
  "start_broker emit out =
     seqM [kraft_format_storages emit (out_env out),
           update_external_services (out_env out),
           update_ip_addresses (out_env out),
           set_server_properties (out_env out),
           set_client_properties (out_env out),
           bindM (readM (\<lambda>w. tls_enabled w \<and> certificate w CLIENT_SCOPE \<noteq> [] \<and> ca w CLIENT_SCOPE \<noteq> [])) (\<lambda>tls.
             whenM tls (configure BROKER (out_env out) (out_crypto out))),
           start_service BROKER,
           emit UpdateStatusEvent]"

definition broker_on_start :: "(event \<Rightarrow> unit hook) \<Rightarrow> outside \<Rightarrow> event \<Rightarrow> unit hook" where
  "broker_on_start emit out event =
     bindM (readM (\<lambda>w. (can_connect w, refresh w))) (\<lambda>(conn, ref).
       case ref of
         None \<Rightarrow> defer_event event
       | Some r \<Rightarrow>
           if \<not> conn then defer_event event
           else thenM (publish_machine (out_env out))
             (if in_progress r then skip
              else thenM (init_internal_ca (out_crypto out))
                (thenM (setup_internal_tls out event)
                  (bindM (readE ready_to_start) (\<lambda>s.
                     if s \<noteq> ACTIVE then thenM (set_status s) (defer_event event)
                     else start_broker emit out)))))"


section \<open>Changes of the configuration\<close>

definition is_storage_event :: "event \<Rightarrow> bool" where
  "is_storage_event e \<longleftrightarrow> e \<in> {StorageAttachedEvent, StorageDetachingEvent}"

definition handle_configuration_updates :: "outside \<Rightarrow> event \<Rightarrow> unit hook" where
  "handle_configuration_updates out event =
     bindM (readM (\<lambda>w. active w BROKER)) (\<lambda>up.
       if \<not> up then skip
       else bindM (readE (properties_changed (out_env out))) (\<lambda>changed.
         thenM (whenM (changed \<noteq> {}) (set_server_properties (out_env out)))
           (bindM (readM (\<lambda>w. tls_rotate w \<or> certs_updated w)) (\<lambda>tls.
              if changed = {} \<and> \<not> tls then skip
              else if is_storage_event event then
                bindM (readE peer_cluster) (\<lambda>pc.
                bindM (readM internal_user_credentials) (\<lambda>credentials.
                  thenM (format_storages (out_env out) (cluster_uuid pc) credentials KRAFT_VERSION (Some (initial_controllers pc)))
                    (acquire_lock (Some ''_disable_enable_restart_broker''))))
              else acquire_lock None))))"

definition open_ports :: "env \<Rightarrow> unit hook" where
  "open_ports env =
     bindM (readM (\<lambda>w. (runs_broker w, runs_controller_only w))) (\<lambda>(brk, ctl).
       if brk then bindM (readE (\<lambda>w. bindE (all_listeners (env_k8s env) w) (mapE listener_port_of))) (\<lambda>ps. do_action (SetPorts ps))
       else if ctl then bindM (readE (\<lambda>w. bindE (controller_listeners w) (mapE listener_port_of))) (\<lambda>ps. do_action (SetPorts ps))
       else skip)"

definition handle_broker_service_updates :: "outside \<Rightarrow> unit hook" where
  "handle_broker_service_updates out =
     seqM [set_client_properties (out_env out),
           update_external_services (out_env out),
           open_ports (out_env out),
           update_ip_addresses (out_env out),
           update_credentials_cache (out_env out),
           reconcile out,
           bindM (readM (\<lambda>w. orchestrator_rel w \<noteq> None \<and> leader w)) (\<lambda>share. whenM share update_peer_cluster_data)]"

text \<open>The conditions are a list, so the status of the balancer and the ping are computed on every unit.\<close>

definition start_balancer_if_needed :: "outside \<Rightarrow> event \<Rightarrow> unit hook" where
  "start_balancer_if_needed out event =
     bindM (readE balancer_status) (\<lambda>s.
     bindM (ping_uris (out_env out) (host_port ''localhost'' BALANCER_WEBSERVER_PORT)) (\<lambda>up.
     bindM (readM (\<lambda>w. leader w \<and> runs_balancer w)) (\<lambda>mine.
       whenM (mine \<and> s = ACTIVE \<and> \<not> up) (balancer_on_start out event))))"

definition reconcile_autobalance :: "(event \<Rightarrow> unit hook) \<Rightarrow> env \<Rightarrow> unit hook" where
  "reconcile_autobalance emit env =
     bindM (readM (\<lambda>w. runs_balancer w \<and> leader w)) (\<lambda>mine.
       if \<not> mine then skip
       else bindM (departing_brokers env) (\<lambda>departing.
         forM (sorted_list_of_set departing) (\<lambda>b. emit (RebalanceEvent ''remove'' (Some b)))))"

definition broker_on_config_changed :: "(event \<Rightarrow> unit hook) \<Rightarrow> outside \<Rightarrow> event \<Rightarrow> unit hook" where
  "broker_on_config_changed emit out event =
     bindM (readM refresh_not_ready) (\<lambda>busy.
       if busy then skip
       else bindM broker_healthy (\<lambda>ok.
         if \<not> ok then skip
         else bindM (readM (\<lambda>w. workload_read w (server_properties BROKER))) (\<lambda>properties.
           if properties = [] then skip
           else seqM
             [start_balancer_if_needed out event,
              set_environment (out_env out),
              bindM (config_changed_rotation out event) (\<lambda>should_continue.
                whenM should_continue
                  (seqM [handle_configuration_updates out event,
                         handle_broker_service_updates out,
                         handle_config_changed_tls_updates out,
                         update_brokers_state (out_env out),
                         reconcile_autobalance emit (out_env out)]))])))"

definition drop_old_certificates :: "outside \<Rightarrow> unit hook" where
  "drop_old_certificates out =
     bindM (peer_truststore_has_temporary_aliases BROKER (out_env out)) (\<lambda>temporary.
       if \<not> temporary then skip
       else bindM (readE (both_apps_trust_new_bundle (out_crypto out))) (\<lambda>trusted.
         whenM trusted (thenM (rebuild_truststore BROKER (out_env out) (out_crypto out)) (acquire_lock None))))"

text \<open>Machine health is only checked on the other substrate.\<close>

definition broker_on_update_status :: "(event \<Rightarrow> unit hook) \<Rightarrow> outside \<Rightarrow> unit hook" where
  "broker_on_update_status emit out =
     bindM (readM refresh_not_ready) (\<lambda>busy.
       if busy then skip
       else bindM broker_healthy (\<lambda>ok.
         if \<not> ok then skip
         else seqM
           [emit ConfigChangedEvent,
            drop_old_certificates out,
            bindM (readM runs_broker) (\<lambda>brk. whenM brk
              (bindM (broker_active (out_env out)) (\<lambda>act. whenM (\<not> act) (set_status BROKER_NOT_CONNECTED))))]))"


section \<open>Secrets and storages\<close>

text \<open>\<open>extra_label\<close> is the label the library gives the application's secret.\<close>

definition broker_on_secret_changed :: "(event \<Rightarrow> unit hook) \<Rightarrow> string \<Rightarrow> string option \<Rightarrow> unit hook" where
  "broker_on_secret_changed emit extra_label label =
     bindM (readM peer_rel) (\<lambda>related.
       case label of
         None \<Rightarrow> skip
       | Some l \<Rightarrow> whenM (l \<noteq> [] \<and> related \<and> l = extra_label) (emit ConfigChangedEvent))"

definition publish_storages :: "env \<Rightarrow> unit hook" where
  "publish_storages env = bindM (machine_storages env) (\<lambda>s. modM (broker_update [(''storages'', s)]))"

definition on_storage_attached :: "(event \<Rightarrow> unit hook) \<Rightarrow> outside \<Rightarrow> unit hook" where
  "on_storage_attached emit out =
     bindM (readM (\<lambda>w. can_connect w \<and> peer_rel w)) (\<lambda>ready.
       if \<not> ready then defer_event StorageAttachedEvent
       else seqM
         [publish_storages (out_env out),
          thenM (exec (out_env out) [''chown'', ''-R'', USER_ID @ '':'' @ GROUP, data_path BROKER] []) skip,
          bindM (readM (\<lambda>w. split_char (CHR '','') (log_dirs w))) (\<lambda>dirs.
            forM dirs (\<lambda>d. thenM (exec (out_env out) [''rm'', ''-rf'', d @ ''/lost+found''] []) skip)),
          bindM (readM (\<lambda>w. active w BROKER)) (\<lambda>up. whenM up
            (thenM (set_status ADDED_STORAGE) (broker_on_config_changed emit out StorageAttachedEvent)))])"

text \<open>
  Waiting until the storages are empty. \<open>False\<close> stands for a wait that outlasts the fuel.
\<close>

fun wait_drained :: "nat \<Rightarrow> env \<Rightarrow> bool hook" where
  "wait_drained 0 env = ret False"
| "wait_drained (Suc fuel) env =
     bindM (readE bootstrap_server_internal) (\<lambda>uris.
     bindM (readE (\<lambda>w. broker_id_of (unit_name w))) (\<lambda>b.
     bindM (all_storages_drained env uris b) (\<lambda>drained.
       if drained then ret True else thenM (do_action Slept) (wait_drained fuel env))))"

definition on_storage_detaching :: "(event \<Rightarrow> unit hook) \<Rightarrow> outside \<Rightarrow> unit hook" where
  "on_storage_detaching emit out =
     seqM
       [bindM (readM (\<lambda>w. length (brokers w))) (\<lambda>n.
          set_status (if n > 1 then REMOVED_STORAGE else REMOVED_STORAGE_NO_REPL)),
        publish_storages (out_env out),
        emit ConfigChangedEvent,
        bindM (readE balancer_exists) (\<lambda>bal. whenM bal
          (bindM (wait_drained (out_rounds out) (out_env out)) (\<lambda>finished.
             if finished then skip else raise (PyException ''still waiting''))))]"

end
