(* ===== verification/Peer_Cluster_Events.thy ===== *)
theory Peer_Cluster_Events
  imports Broker_Events
begin

text \<open>
  The remaining handlers that share the broker's operator: \<^verbatim>\<open>events/peer_cluster.py\<close>, \<^verbatim>\<open>events/secrets.py\<close>,
  \<^verbatim>\<open>events/oauth.py\<close> and \<^verbatim>\<open>events/actions.py\<close>.
\<close>

section \<open>Relations between the applications of a cluster\<close>

text \<open>A write to this application's own databag of the relation \<^verbatim>\<open>state.peer_cluster\<close> stands for.\<close>

definition put_local :: "string \<Rightarrow> string \<Rightarrow> remote_rel \<Rightarrow> remote_rel" where
  "put_local k v r = r\<lparr>local_data := dset k v (local_data r)\<rparr>"

definition on_kraft_rel :: "(remote_rel \<Rightarrow> remote_rel) \<Rightarrow> world \<Rightarrow> world" where
  "on_kraft_rel f w =
     (if runs_broker w then w\<lparr>orchestrator_rel := map_option f (orchestrator_rel w)\<rparr>
      else w\<lparr>peer_cluster_rel := map_option f (peer_cluster_rel w)\<rparr>)"

definition requested_by_roles :: "world \<Rightarrow> string list" where
  "requested_by_roles w =
     remdups ((if runs_balancer w then requested_secrets BALANCER else [])
              @ (if runs_controller w then requested_secrets CONTROLLER else [])
              @ (if runs_broker w then requested_secrets BROKER else []))"

definition on_peer_cluster_created :: "unit hook" where
  "on_peer_cluster_created =
     bindM (readM leader) (\<lambda>ld.
       if \<not> ld then skip
       else bindM (readE peer_cluster) (\<lambda>pc.
         if pc_rel pc = None then defer_event PeerClusterCreated
         else seqM [modM (\<lambda>w. on_kraft_rel (put_local ''requested-secrets'' (dumps (json_strs (requested_by_roles w)))) w),
                    modM (\<lambda>w. on_kraft_rel (put_local ''roles'' (cfg_roles (cfg w))) w)]))"

text \<open>
  \<^verbatim>\<open>diff\<close> saves what it has seen of the remote databag in the local one. Its answer only decides
  for which secrets a label is registered, which changes nothing here.
\<close>

definition mark_seen :: "remote_rel \<Rightarrow> remote_rel" where
  "mark_seen r =
     (case rel_app r of
        None \<Rightarrow> r
      | Some _ \<Rightarrow> put_local ''data'' (dumps (JDict (map (\<lambda>(k, v). (k, JStr v)) (filter (\<lambda>(k, v). k \<noteq> ''data'') (remote_data r))))) r)"

definition default_relation_changed :: "event \<Rightarrow> unit hook" where
  "default_relation_changed event =
     (if event = PeerClusterChanged then modM (\<lambda>w. w\<lparr>peer_cluster_rel := map_option mark_seen (peer_cluster_rel w)\<rparr>)
      else if event = OrchestratorChanged then modM (\<lambda>w. w\<lparr>orchestrator_rel := map_option mark_seen (orchestrator_rel w)\<rparr>)
      else skip)"

definition controller_items :: "world \<Rightarrow> exn + (string, string) dict" where
  "controller_items w =
     bindE (peer_cluster w) (\<lambda>pc.
       Inr ((if runs_balancer w
             then [(''balancer-username'', balancer_username pc), (''balancer-password'', balancer_password pc),
                   (''balancer-uris'', balancer_uris pc)] else [])
            @ [(''controller-password'', controller_password pc), (''bootstrap-controller'', bootstrap_controller pc),
               (''bootstrap-unit-id'', bootstrap_unit_id pc), (''bootstrap-replica-id'', bootstrap_replica_id pc)]))"

definition on_peer_cluster_changed :: "(event \<Rightarrow> unit hook) \<Rightarrow> unit hook" where
  "on_peer_cluster_changed emit =
     bindM (readM leader) (\<lambda>ld.
       if \<not> ld then skip
       else bindM (readE peer_cluster) (\<lambda>pc.
         if pc_roles pc = [] then skip
         else seqM [default_relation_changed PeerClusterChanged,
                    write_peer_cluster_ca,
                    bindM (readE controller_items) (\<lambda>items. modM (peer_cluster_update items)),
                    emit ConfigChangedEvent]))"

definition on_orchestrator_changed :: "(event \<Rightarrow> unit hook) \<Rightarrow> event \<Rightarrow> unit hook" where
  "on_orchestrator_changed emit event =
     bindM (readM (\<lambda>w. leader w \<and> runs_broker w)) (\<lambda>mine.
       if \<not> mine then skip
       else bindM (readE peer_cluster) (\<lambda>pc.
         if \<not> (contains (role_value BALANCER) (pc_roles pc) \<or> contains (role_value CONTROLLER) (pc_roles pc)) then skip
         else seqM [default_relation_changed event,
                    publish_broker_items,
                    whenM (event \<noteq> UpdateStatusEvent) (emit ConfigChangedEvent)]))"

text \<open>No event is connected to this handler.\<close>

definition on_peer_cluster_broken :: "env \<Rightarrow> unit hook" where
  "on_peer_cluster_broken env =
     bindM (readM (\<lambda>w. (runs_controller w, runs_broker w, storage_dirs w))) (\<lambda>(ctl, brk, dirs).
       if ctl then skip
       else thenM (stop_service BROKER)
         (whenM brk
           (thenM (forM dirs (\<lambda>d.
                     thenM (exec env [''rm'', d @ ''/meta.properties'', d @ ''/__cluster_metadata-0/quorum-state''] []) skip))
             (bindM (readM leader) (\<lambda>ld. whenM ld
                (bindM (readM internal_user_credentials) (\<lambda>credentials.
                   forM credentials (\<lambda>(u, p). modM (cluster_update [(u @ ''-password'', [])])))))))))"


section \<open>Secrets given by the user\<close>

text \<open>\<^verbatim>\<open>env_secret\<close> answers \<^verbatim>\<open>model.get_secret(id=...)\<close>; a secret that is not found reads as none.\<close>

definition load_tls_private_key_secret :: "env \<Rightarrow> world \<Rightarrow> exn + string option" where
  "load_tls_private_key_secret env w =
     (case tls_private_key (cfg w) of
        None \<Rightarrow> Inr None
      | Some i \<Rightarrow>
          if i = [] then Inr None
          else case env_secret env i of
            None \<Rightarrow> Inr None
          | Some content \<Rightarrow>
              let key = dget content (pod_name_of (unit_name w)) []
              in if key = [] then Inl KeyError else Inr (Some key))"

definition load_auth_secret :: "env \<Rightarrow> world \<Rightarrow> (string, string) dict" where
  "load_auth_secret env w =
     (case system_users (cfg w) of
        None \<Rightarrow> []
      | Some i \<Rightarrow>
          if i = [] then []
          else case env_secret env i of
            None \<Rightarrow> []
          | Some content \<Rightarrow> filter (\<lambda>(u, p). u \<in> set INTERNAL_USERS) content)"

definition changed_credentials :: "(string, string) dict \<Rightarrow> world \<Rightarrow> (string, string) dict" where
  "changed_credentials credentials w =
     filter (\<lambda>(u, p). map_of (internal_user_credentials w) u \<noteq> Some p) credentials"

definition change_credentials :: "(event \<Rightarrow> unit hook) \<Rightarrow> env \<Rightarrow> (string, string) dict \<Rightarrow> unit hook" where
  "change_credentials emit env changed =
     thenM (forM changed (\<lambda>(u, p). modM (cluster_update [(u @ ''-password'', p)])))
     (bindM (tryM (bindM auth_opts (\<lambda>opts. thenM (forM changed (\<lambda>(u, p). add_user env opts u p)) (ret True)))
               (\<lambda>_. True) (\<lambda>_. ret False)) (\<lambda>added.
        whenM added (emit ConfigChangedEvent)))"

definition secrets_on_secret_changed :: "(event \<Rightarrow> unit hook) \<Rightarrow> outside \<Rightarrow> event \<Rightarrow> unit hook" where
  "secrets_on_secret_changed emit out event =
     thenM (bindM (readE (load_tls_private_key_secret (out_env out))) (set_tls_private_key (out_b64decode out)))
     (bindM (readM (\<lambda>w. (leader w, load_auth_secret (out_env out) w))) (\<lambda>(ld, credentials).
        if \<not> ld \<or> credentials = [] then skip
        else bindM broker_healthy (\<lambda>ok.
             bindM (readM (\<lambda>w. \<not> refresh_not_ready w \<and> can_connect w)) (\<lambda>ready.
               if \<not> (ok \<and> ready) then defer_event event
               else bindM (readM (changed_credentials credentials)) (\<lambda>changed.
                 if changed = [] then skip
                 else bindM (readE bootstrap_server_internal) (\<lambda>uris.
                      bindM (ping_uris (out_env out) uris) (\<lambda>up.
                        if \<not> up then defer_event event else change_credentials emit (out_env out) changed)))))))"


section \<open>OAuth and actions\<close>

definition on_oauth_relation_changed :: "(event \<Rightarrow> unit hook) \<Rightarrow> outside \<Rightarrow> unit hook" where
  "on_oauth_relation_changed emit out =
     bindM (readM (\<lambda>w. leader w \<and> brokers w \<noteq> [])) (\<lambda>mine.
       whenM mine (broker_on_config_changed emit out OauthChanged))"

definition listener_result :: "Listener \<Rightarrow> exn + string \<times> json" where
  "listener_result l =
     bindE (listener_port_of l) (\<lambda>p.
     bindE (advertised_listener l) (\<lambda>adv.
       Inr (lower (replace ''_'' ''-'' (listener_name l)),
            JDict [(''name'', JStr (listener_name l)), (''scope'', JStr (listener_scope_str (l_scope l))), (''port'', JInt p),
                   (''protocol'', JStr (protocol_str (fst (l_auth l)))), (''auth-mechanism'', JStr (mechanism_str (snd (l_auth l)))),
                   (''advertised-listener'', JStr adv)])))"

definition get_listeners_action :: "env \<Rightarrow> unit hook" where
  "get_listeners_action env =
     bindM (readE (\<lambda>w. bindE (all_listeners (env_k8s env) w) (mapE listener_result))) (\<lambda>rs.
       do_action (ActionResult (map (\<lambda>(k, v). (k, json_str v)) (dmerge [] rs))))"

end
