(* ===== verification/Charm.thy ===== *)
theory Charm
  imports Peer_Cluster_Events
begin

text \<open>
  \<^verbatim>\<open>events/refresh.py\<close> and \<^verbatim>\<open>charm.py\<close>: refreshes, the restart of a broker under the rolling lock, the
  status of a unit, and the dispatch of an event to its observers. A whole hook is
  \<open>run_hook\<close>: what the constructors of the handlers do, then the observers of the event.
\<close>

section \<open>Refreshes\<close>

fun version_numbers :: "string list \<Rightarrow> exn + int list" where
  "version_numbers [] = Inr []"
| "version_numbers (c # cs) =
     (case py_int c of
        None \<Rightarrow> Inl ValueError
      | Some n \<Rightarrow> bindE (version_numbers cs) (\<lambda>ns. Inr (n # ns)))"

text \<open>\<^verbatim>\<open>major, minor, *_ = ...\<close>: too few components, or one that is no number, raise.\<close>

definition major_minor :: "string \<Rightarrow> exn + int \<times> int" where
  "major_minor v =
     bindE (version_numbers (split_char (CHR ''.'') v)) (\<lambda>ns.
       case ns of a # b # _ \<Rightarrow> Inr (a, b) | _ \<Rightarrow> Inl ValueError)"

definition is_workload_compatible :: "string \<Rightarrow> string \<Rightarrow> bool" where
  "is_workload_compatible old_version new_version =
     (case (major_minor old_version, major_minor new_version) of
        (Inr (old_major, old_minor), Inr (new_major, new_minor)) \<Rightarrow>
          if old_major \<noteq> new_major then False
          else if \<not> new_minor \<ge> old_minor then False
          else True
      | _ \<Rightarrow> False)"

text \<open>\<open>base\<close> is the answer of the refresh library's own check of the charm versions.\<close>

definition is_compatible :: "bool \<Rightarrow> string \<Rightarrow> string \<Rightarrow> bool" where
  "is_compatible base old_version new_version = (if \<not> base then False else is_workload_compatible old_version new_version)"

definition configure_broker :: "outside \<Rightarrow> unit hook" where
  "configure_broker out =
     seqM [set_environment (out_env out), set_server_properties (out_env out), set_client_properties (out_env out),
           configure BROKER (out_env out) (out_crypto out)]"

text \<open>The source tests the status itself, which is never false, and not whether it is active.\<close>

definition pre_refresh_checks :: "outside \<Rightarrow> unit hook" where
  "pre_refresh_checks out =
     bindM (readM (\<lambda>w. runs_balancer w \<and> \<not> runs_broker w \<and> \<not> runs_controller w)) (\<lambda>balancer_only.
       if balancer_only then raise PrecheckFailed
       else bindM (readE ready_to_start) (\<lambda>_.
         seqM [configure_broker out, restart_service BROKER, do_action Slept,
               bindM broker_healthy (\<lambda>ok. if ok then skip else raise PrecheckFailed)]))"

text \<open>\<open>patch\<close> is the answer of the Kubernetes interface to the patch of the stateful set.\<close>

definition set_rolling_update_partition :: "(int \<Rightarrow> exn + unit) \<Rightarrow> int \<Rightarrow> unit hook" where
  "set_rolling_update_partition patch part =
     (case patch part of
        Inr _ \<Rightarrow> do_action (SetPartition part)
      | Inl (ApiError code msg) \<Rightarrow> raise UpgradeError
      | Inl e \<Rightarrow> raise e)"

definition k8s_pre_refresh_checks :: "(int \<Rightarrow> exn + unit) \<Rightarrow> outside \<Rightarrow> unit hook" where
  "k8s_pre_refresh_checks patch out =
     thenM (pre_refresh_checks out)
     (bindM (readM (\<lambda>w. (leader w, int (length (brokers w)) - 1))) (\<lambda>(ld, part).
        whenM ld (set_rolling_update_partition patch part)))"

definition is_workload_healthy :: "bool hook" where
  "is_workload_healthy =
     bindM (readM (\<lambda>w. active w BROKER)) (\<lambda>up.
       if \<not> up then ret False
       else bindM (readM (\<lambda>w. runs_broker w \<or> runs_controller w)) (\<lambda>mine.
         if mine then broker_healthy else ret True))"

definition allow_next_unit :: "world \<Rightarrow> world" where
  "allow_next_unit w = w\<lparr>refresh := map_option (\<lambda>r. r\<lparr>next_unit_allowed_to_refresh := True\<rparr>) (refresh w)\<rparr>"

definition handle_refresh_coordination :: "outside \<Rightarrow> unit hook" where
  "handle_refresh_coordination out =
     bindM (readM (\<lambda>w. case refresh w of
              None \<Rightarrow> False
            | Some r \<Rightarrow> can_connect w \<and> in_progress r \<and> workload_allowed_to_start r \<and> \<not> next_unit_allowed_to_refresh r)) (\<lambda>go.
       whenM go
         (seqM [configure_broker out, start_service BROKER,
                bindM is_workload_healthy (\<lambda>ok. whenM ok (modM allow_next_unit))]))"


section \<open>The charm\<close>

definition on_roles_changed :: "unit hook" where
  "on_roles_changed =
     thenM (bindM (readM (\<lambda>w. \<not> (runs_broker w \<or> runs_controller w) \<and> active w BROKER)) (\<lambda>stop.
              whenM stop (stop_service BROKER)))
       (bindM (readM (\<lambda>w. \<not> runs_balancer w \<and> leader w \<and> active w BALANCER)) (\<lambda>stop.
          whenM stop (stop_service BALANCER)))"

definition restart_broker :: "outside \<Rightarrow> unit hook" where
  "restart_broker out =
     bindM broker_healthy (\<lambda>ok.
       if \<not> ok then defer_event RestartLock
       else thenM (restart_service BROKER)
         (bindM (readE (\<lambda>w. internal_address (unit_name w))) (\<lambda>host.
          bindM (readM (\<lambda>w. (runs_broker w, runs_controller w))) (\<lambda>(brk, ctl).
          bindM (health_check (out_env out) host brk ctl) (\<lambda>alive.
            if \<not> alive then defer_event RestartLock
            else thenM (update_credentials_cache (out_env out)) (update_peer_truststore_state (out_env out) True))))))"

datatype shown =
    FromRefresh string
  | OneStatus status_base
  | Statuses "status list"

definition shown_statuses :: "world \<Rightarrow> status \<Rightarrow> shown option" where
  "shown_statuses w ready =
     (let pend = filter (\<lambda>s. s \<noteq> ACTIVE) (pending w @ [ready]) in if pend \<noteq> [] then Some (Statuses pend) else None)"

definition determine_unit_status :: "env \<Rightarrow> shown hook" where
  "determine_unit_status env =
     bindM (readM refresh) (\<lambda>ref.
       case Option.bind ref status_higher_priority of
         Some s \<Rightarrow> ret (FromRefresh s)
       | None \<Rightarrow>
           bindM (readM (\<lambda>w. runs_broker w \<and> runs_balancer w)) (\<lambda>both.
           bindM (if both then bindM (departing_brokers env) (\<lambda>d. ret (d \<noteq> {})) else ret False) (\<lambda>scaling.
             if scaling then ret (OneStatus (fst (status_level SCALING_WARNING)))
             else bindM (readE ready_to_start) (\<lambda>ready.
                  bindM (readM (\<lambda>w. shown_statuses w ready)) (\<lambda>s.
                    case s of
                      Some sh \<Rightarrow> ret sh
                    | None \<Rightarrow>
                        (case Option.bind ref status_lower_priority of
                           Some l \<Rightarrow> ret (FromRefresh l)
                         | None \<Rightarrow> ret (OneStatus (ActiveStatus []))))))))"


section \<open>Dispatch\<close>

text \<open>
  The observers of an event, in the order they are connected: the charm, the peer-cluster
  handler, the broker's operator (only with one of its roles), the balancer's operator (only on
  the leader with its role; its action always), TLS.
\<close>

definition observers :: "(event \<Rightarrow> unit hook) \<Rightarrow> outside \<Rightarrow> string \<Rightarrow> bool \<Rightarrow> bool \<Rightarrow> event \<Rightarrow> unit hook list" where
  "observers emit out extra_label with_broker with_balancer event =
     (let brk = (\<lambda>cs. if with_broker then cs else []);
          bal = (\<lambda>cs. if with_balancer then cs else []);
          env = out_env out
      in case event of
           InstallEvent \<Rightarrow> brk [broker_on_install env] @ bal [balancer_on_install]
         | StartEvent \<Rightarrow> brk [kraft_on_start emit env event, broker_on_start emit out event] @ bal [balancer_on_start out event]
         | PebbleReadyEvent \<Rightarrow> brk [kraft_on_start emit env event, broker_on_start emit out event] @ bal [balancer_on_start out event]
         | ConfigChangedEvent \<Rightarrow>
             [on_roles_changed] @ brk [secrets_on_secret_changed emit out event, broker_on_config_changed emit out event]
             @ bal [balancer_on_config_changed emit out]
         | UpdateStatusEvent \<Rightarrow>
             [on_orchestrator_changed emit event] @ brk [kraft_on_update_status env, broker_on_update_status emit out]
             @ bal [balancer_on_config_changed emit out]
         | LeaderElectedEvent \<Rightarrow> brk [leader_elected emit] @ bal [balancer_on_start out event]
         | SecretChangedEvent label \<Rightarrow>
             brk [secrets_on_secret_changed emit out event, broker_on_secret_changed emit extra_label label]
         | PeerChanged \<Rightarrow> brk [broker_on_config_changed emit out event] @ bal [balancer_on_config_changed emit out]
         | PeerDeparted u \<Rightarrow> brk [on_peer_relation_departed env u]
         | StorageAttachedEvent \<Rightarrow> brk [on_storage_attached emit out]
         | StorageDetachingEvent \<Rightarrow> brk [on_storage_detaching emit out]
         | PeerClusterCreated \<Rightarrow> [on_peer_cluster_created]
         | PeerClusterChanged \<Rightarrow> [on_peer_cluster_changed emit]
         | OrchestratorChanged \<Rightarrow> [on_orchestrator_changed emit event]
         | ClientCreated \<Rightarrow> brk [on_client_relation_created (broker_on_config_changed emit out)]
         | ClientBroken app rid \<Rightarrow> brk [on_client_relation_broken out app rid]
         | TopicRequested rid \<Rightarrow> brk [on_topic_requested (broker_on_config_changed emit out) out rid]
         | MtlsCertUpdated rid \<Rightarrow> brk [on_mtls_cert_updated emit out rid]
         | OauthChanged \<Rightarrow> brk [on_oauth_relation_changed emit out]
         | CertificatesBroken sc \<Rightarrow> [tls_relation_broken emit out sc]
         | CertificateAvailable sc cert authority chain \<Rightarrow>
             [if sc = PEER_SCOPE then on_peer_certificate_available emit out cert authority chain
              else on_client_certificate_available emit out cert authority chain]
         | TransferUpdated rid \<Rightarrow> [on_mtls_client_certificates_available out rid]
         | TransferRemoved \<Rightarrow> [on_mtls_client_certificates_removed out]
         | RebalanceEvent mode b \<Rightarrow> bal [on_rebalance_event out mode b]
         | RebalanceAction mode b dryrun \<Rightarrow> [on_rebalance_action out mode b dryrun]
         | GetListenersAction \<Rightarrow> brk [get_listeners_action env]
         | RestartLock \<Rightarrow> [restart_broker out])"

text \<open>
  Emitting an event runs its observers at once, inside the handler that emits it. The depth of
  such nesting is bounded by the interpreter, which raises an exception.
\<close>

fun emit :: "nat \<Rightarrow> outside \<Rightarrow> string \<Rightarrow> event \<Rightarrow> unit hook" where
  "emit 0 out extra_label event = raise (PyException ''maximum recursion depth exceeded'')"
| "emit (Suc depth) out extra_label event =
     bindM (readM (\<lambda>w. (runs_broker w \<or> runs_controller w, runs_balancer w \<and> leader w))) (\<lambda>(with_broker, with_balancer).
       seqM (observers (emit depth out extra_label) out extra_label with_broker with_balancer event))"

definition run_hook :: "nat \<Rightarrow> outside \<Rightarrow> (tls_scope \<Rightarrow> string option) \<Rightarrow> string \<Rightarrow> event \<Rightarrow> shown hook" where
  "run_hook depth out lib_keys extra_label event =
     thenM (seqM [bindM (build_sans (out_env out) (out_crypto out)) (\<lambda>_. skip),
                  init_credentials (out_env out) lib_keys,
                  handle_refresh_coordination out,
                  emit depth out extra_label event])
       (determine_unit_status (out_env out))"



section \<open>Properties\<close>

subsection \<open>Versions\<close>

definition version_text :: "int list \<Rightarrow> string" where
  "version_text ns = join ''.'' (map str_int ns)"

lemma version_numbers_text: "version_numbers (map str_int ns) = Inr ns"
  by (induction ns) auto

lemma major_minor_text: "major_minor (version_text (a # b # ns)) = Inr (a, b)"
proof -
  have "\<forall>x \<in> set (map str_int (a # b # ns)). CHR ''.'' \<notin> set x"
    using str_int_chars by (fastforce simp: is_digit_def)
  then have "split_char (CHR ''.'') (version_text (a # b # ns)) = map str_int (a # b # ns)"
    using split_char_join [of "map str_int (a # b # ns)" "CHR ''.''"] by (simp add: version_text_def)
  then show ?thesis using version_numbers_text [of "a # b # ns"] by (simp add: major_minor_def)
qed

text \<open>A refresh from one workload version to another is allowed exactly when the major versions are equal
  and the minor version does not decrease, whatever follows them; a version of a single number
  allows none.\<close>

theorem is_workload_compatible_iff:
  "(is_workload_compatible (version_text (a # b # ns)) (version_text (c # d # ms)) \<longleftrightarrow> a = c \<and> b \<le> d) \<and>
   \<not> is_workload_compatible v (version_text [c]) \<and> \<not> is_workload_compatible (version_text [c]) v"
proof -
  have "CHR ''.'' \<notin> set (str_int c)" using str_int_chars by (fastforce simp: is_digit_def)
  then have "major_minor (version_text [c]) = Inl ValueError"
    by (simp add: major_minor_def version_text_def split_char_no_sep)
  then show ?thesis
    by (simp add: is_workload_compatible_def major_minor_text split: sum.splits prod.splits)
qed


subsection \<open>Status\<close>

text \<open>C33: a unit reports itself active at the end of a hook only when it is ready to start and no handler of that
  hook has reported any other status.\<close>

theorem active_status_sound:
  assumes "run_hook depth out lib_keys extra_label event w = (Inr (OneStatus (ActiveStatus [])), w')"
  shows "ready_to_start w' = Inr ACTIVE \<and> set (pending w') \<subseteq> {ACTIVE}"
proof -
  from assms obtain v where d: "determine_unit_status (out_env out) v = (Inr (OneStatus (ActiveStatus [])), w')"
    by (auto simp: run_hook_def thenM_apply split: prod.splits sum.splits)
  show ?thesis
    using d by (auto simp: determine_unit_status_def bindM_apply readE_def shown_statuses_def Let_def filter_empty_conv
        split: prod.splits sum.splits option.splits if_splits)
qed

text \<open>The outside used in examples: commands succeed without output and no port is open.\<close>

definition quiet_outside :: outside where
  "quiet_outside =
     \<lparr>out_env = silent_env,
      out_crypto = \<lparr>x509_constraints = \<lambda>c. Inr (None, None), x509_fingerprint = \<lambda>c. Inr [], x509_name = \<lambda>c. Inr c,
        gen_private_key = \<lambda>w. ''key'', gen_ca = \<lambda>k n. ''ca'', gen_csr = \<lambda>k n i d. ''csr'',
        gen_certificate = \<lambda>r a k. ''cert'', bind_address = ''10.1.0.1'', fqdn = ''kafka-k8s-0''\<rparr>,
      out_cc = slow_cc, out_compile = \<lambda>p. Inl ValueError, out_b64decode = \<lambda>s. Inr s, out_rounds = 3\<rparr>"

theorem active_status_sound_witness:
  "ready_to_start (snd (run_hook 1 quiet_outside (\<lambda>_. None) ''label'' (PeerDeparted ''kafka-k8s/9'') ready_world)) = Inr ACTIVE"
proof -
  let ?r = "run_hook 1 quiet_outside (\<lambda>_. None) ''label'' (PeerDeparted ''kafka-k8s/9'') ready_world"
  have "fst ?r = Inr (OneStatus (ActiveStatus []))" by code_simp
  then have "?r = (Inr (OneStatus (ActiveStatus [])), snd ?r)" by (metis prod.collapse)
  from active_status_sound [OF this] show ?thesis by blast
qed

end
