(* ===== verification/Hook_Invariants.thy ===== *)
theory Hook_Invariants
  imports Charm
begin

text \<open>
  Invariants of a whole hook. A locale states what an invariant of the world has to allow for
  every primitive change; each program of the charm then keeps it, up to the dispatch of
  any event at any depth. Its interpretations give the theorems: what no hook ever
  changes and that the databags stay well-formed; that only the leader writes
  application data; that a follower does not start Kafka before the cluster is set up.
\<close>

section \<open>The interface\<close>

definition on_orchestrator :: "(remote_rel \<Rightarrow> remote_rel) \<Rightarrow> world \<Rightarrow> world" where
  "on_orchestrator f w = w\<lparr>orchestrator_rel := map_option f (orchestrator_rel w)\<rparr>"

definition on_peer_cluster :: "(remote_rel \<Rightarrow> remote_rel) \<Rightarrow> world \<Rightarrow> world" where
  "on_peer_cluster f w = w\<lparr>peer_cluster_rel := map_option f (peer_cluster_rel w)\<rparr>"

text \<open>Fields that are not shared as secrets of their own.\<close>

definition plain_items :: "(string, string) dict \<Rightarrow> bool" where
  "plain_items items \<longleftrightarrow> list_all (\<lambda>kv. fst kv \<notin> set (keys SECRET_LABEL_MAP)) items"

text \<open>Items of the application data that do not name the cluster.\<close>

definition no_uuid :: "(string, string) dict \<Rightarrow> bool" where
  "no_uuid items \<longleftrightarrow> list_all (\<lambda>kv. fst kv \<noteq> ''cluster-uuid'') items"

lemma no_uuid_simps [simp]: "no_uuid []" "no_uuid ((k, v) # items) \<longleftrightarrow> k \<noteq> ''cluster-uuid'' \<and> no_uuid items"
  by (simp_all add: no_uuid_def)

lemma password_field_not_uuid [simp]: "u @ ''-password'' \<noteq> ''cluster-uuid''"
  by (auto dest: arg_cong [where f = rev])

lemma client_field_not_uuid [simp]: "kc_username c \<noteq> ''cluster-uuid''" "startswith u ''relation-'' \<Longrightarrow> u \<noteq> ''cluster-uuid''"
  by (auto simp: kc_username_def generate_username_def Let_def startswith_def split: option.splits)

lemma fst_readE [simp]: "fst (readE f s) = f s"
  by (simp add: readE_def bindM_apply)

locale hook_invariant =
  fixes inv :: "world \<Rightarrow> bool" and ld :: bool and may_start :: bool and may_name :: bool
  assumes leader_fixed: "inv w \<Longrightarrow> leader w = ld"
    and files: "inv w \<Longrightarrow> inv (w\<lparr>files := f\<rparr>)"
    and trace: "inv w \<Longrightarrow> inv (w\<lparr>actions := a\<rparr>)"
    and statuses: "inv w \<Longrightarrow> inv (w\<lparr>pending := p\<rparr>)"
    and certs: "inv w \<Longrightarrow> inv (w\<lparr>certs_updated := c\<rparr>)"
    and next_unit: "inv w \<Longrightarrow> inv (allow_next_unit w)"
    and unit_data: "inv w \<Longrightarrow> wf_dict items \<Longrightarrow> inv (broker_update items w)"
    and app_data: "inv w \<Longrightarrow> may_name \<or> no_uuid items \<Longrightarrow> inv (cluster_update items w)"
    and orchestrator_data: "inv w \<Longrightarrow> ld \<or> plain_items items \<Longrightarrow> inv (on_orchestrator (rel_update ld items) w)"
    and peer_cluster_data: "inv w \<Longrightarrow> ld \<or> plain_items items \<Longrightarrow> inv (on_peer_cluster (rel_update ld items) w)"
    and orchestrator_local: "inv w \<Longrightarrow> ld \<Longrightarrow> inv (on_orchestrator (put_local k v) w)"
    and orchestrator_seen: "inv w \<Longrightarrow> ld \<Longrightarrow> inv (on_orchestrator mark_seen w)"
    and peer_cluster_local: "inv w \<Longrightarrow> ld \<Longrightarrow> inv (on_peer_cluster (put_local k v) w)"
    and peer_cluster_seen: "inv w \<Longrightarrow> ld \<Longrightarrow> inv (on_peer_cluster mark_seen w)"
    and stop: "inv w \<Longrightarrow> inv (snd (stop_service r w))"
    and start: "inv w \<Longrightarrow> r = BALANCER \<or> may_start \<Longrightarrow> inv (snd (start_service r w))"
    and blocked: "inv w \<Longrightarrow> \<not> may_start \<Longrightarrow> ready_to_start w \<noteq> Inr ACTIVE"
    and named: "inv w \<Longrightarrow> \<not> may_name \<Longrightarrow> cluster_get w ''cluster-uuid'' \<noteq> []"
    and no_refresh: "inv w \<Longrightarrow> \<not> may_start \<Longrightarrow> refresh w = Some rs \<Longrightarrow> \<not> in_progress rs"
begin

lemma keeps_forM_set: "(\<And>x. x \<in> set xs \<Longrightarrow> keeps inv (f x)) \<Longrightarrow> keeps inv (forM xs f)"
  by (induction xs) (auto intro: keeps_skip keeps_thenM)

lemma keeps_readE [keeps_intros]: "keeps inv (readE f)"
  by (simp add: readE_def keeps_def bindM_apply)

lemma keeps_Pair [keeps_intros]: "keeps inv (Pair r)"
  by (simp add: keeps_def)

lemma keeps_whenM [keeps_intros]: "(b \<Longrightarrow> keeps inv c) \<Longrightarrow> keeps inv (whenM b c)"
  by (simp add: whenM_def keeps_skip)

lemma keeps_seqM [keeps_intros]: "list_all (keeps inv) cs \<Longrightarrow> keeps inv (seqM cs)"
  by (induction cs) (auto intro: keeps_skip keeps_thenM)

subsection \<open>Primitive changes\<close>

lemma keeps_do_action [keeps_intros]: "keeps inv (do_action a)"
  by (simp add: keeps_def trace)

lemma keeps_set_status [keeps_intros]: "keeps inv (set_status s)"
  by (simp add: set_status_def keeps_def statuses)

lemma keeps_workload_write [keeps_intros]: "keeps inv (workload_write t p)"
  by (simp add: workload_write_def keeps_def files)

lemma keeps_exec_in [keeps_intros]: "keeps inv (exec_in env d c e)"
  using trace [OF files] by (simp add: exec_in_def keeps_def split: prod.splits)

lemma keeps_broker_update [keeps_intros]: "wf_dict items \<Longrightarrow> keeps inv (modM (broker_update items))"
  by (simp add: keeps_def unit_data)

lemma keeps_cluster_update [keeps_intros]: "may_name \<or> no_uuid items \<Longrightarrow> keeps inv (modM (cluster_update items))"
  by (simp add: keeps_def app_data)

lemma keeps_tls_set [keeps_intros]: "keeps inv (modM (tls_set sc f v))"
  by (simp add: keeps_def tls_set_def unit_data wf_dict_def keys_def)

lemma inv_tls_set: "inv w \<Longrightarrow> inv (tls_set sc f v w)"
  by (simp add: tls_set_def unit_data wf_dict_def keys_def)

lemma inv_set_rotate: "inv w \<Longrightarrow> inv (set_rotate sc b w)"
  by (simp add: set_rotate_def inv_tls_set)

lemma keeps_set_rotate [keeps_intros]: "keeps inv (modM (set_rotate sc b))"
  by (simp add: keeps_def inv_set_rotate)

lemma keeps_set_self_signed [keeps_intros]: "keeps inv (modM (set_self_signed sc c))"
  by (simp add: keeps_def set_self_signed_def inv_tls_set)

lemma keeps_files [keeps_intros]: "keeps inv (modM (\<lambda>w. w\<lparr>files := f w\<rparr>))"
  by (simp add: keeps_def files)

lemma keeps_stop [keeps_intros]: "keeps inv (stop_service r)"
  by (simp add: keeps_def stop)

lemma keeps_start [keeps_intros]: "r = BALANCER \<or> may_start \<Longrightarrow> keeps inv (start_service r)"
  by (simp add: keeps_def start)

lemma keeps_restart [keeps_intros]: "r = BALANCER \<or> may_start \<Longrightarrow> keeps inv (restart_service r)"
  by (simp add: restart_service_def keeps_start)

lemma inv_kraft_update: "inv w \<Longrightarrow> ld \<or> plain_items items \<Longrightarrow> no_uuid items \<Longrightarrow> inv (kraft_update items w)"
  using orchestrator_data [of w items] peer_cluster_data [of w items] leader_fixed [of w]
  by (auto simp: kraft_update_def app_data on_orchestrator_def on_peer_cluster_def)

lemma keeps_kraft_update [keeps_intros]: "ld \<or> plain_items items \<Longrightarrow> no_uuid items \<Longrightarrow> keeps inv (modM (kraft_update items))"
  by (simp add: keeps_def inv_kraft_update)

lemma keeps_peer_cluster_update [keeps_intros]: "ld \<Longrightarrow> keeps inv (modM (peer_cluster_update items))"
  unfolding keeps_def peer_cluster_update_def
  using orchestrator_data peer_cluster_data leader_fixed by (auto simp: on_orchestrator_def on_peer_cluster_def)

lemma keeps_orchestrator_update [keeps_intros]:
  "ld \<or> plain_items items \<Longrightarrow> keeps inv (modM (orchestrator_update items))"
  unfolding keeps_def orchestrator_update_def
  using peer_cluster_data leader_fixed by (auto simp: on_peer_cluster_def)

lemma inv_set_peer_cluster_ca: "inv w \<Longrightarrow> inv (set_peer_cluster_ca b w)"
  by (auto simp: set_peer_cluster_ca_def Let_def plain_items_def keys_def SECRET_LABEL_MAP_def intro!: inv_kraft_update)

lemma keeps_set_peer_cluster_ca [keeps_intros]: "keeps inv (modM (set_peer_cluster_ca b))"
  by (simp add: keeps_def inv_set_peer_cluster_ca)

lemma inv_set_peer_cluster_tls_rotate: "inv w \<Longrightarrow> inv (set_peer_cluster_tls_rotate b w)"
  using leader_fixed [of w]
  by (auto simp: set_peer_cluster_tls_rotate_def Let_def plain_items_def keys_def SECRET_LABEL_MAP_def intro!: app_data inv_kraft_update)

lemma keeps_set_peer_cluster_tls_rotate [keeps_intros]: "keeps inv (modM (set_peer_cluster_tls_rotate b))"
  by (simp add: keeps_def inv_set_peer_cluster_tls_rotate)

subsection \<open>The managers\<close>

lemma keeps_exec [keeps_intros]: "keeps inv (exec env c e)"
  unfolding exec_def by (intro keeps_intros)

lemma keeps_run_bin [keeps_intros]:
  "keeps inv (run_bin_command env k a opts)" "keeps inv (balancer_run_bin_command env k a opts)"
  unfolding run_bin_command_def balancer_run_bin_command_def by (intro keeps_intros)+

lemma keeps_health_check_once: "keeps inv (health_check_once env h b c)"
  unfolding health_check_once_def by (auto intro!: keeps_intros)

lemma keeps_health_check [keeps_intros]: "keeps inv (health_check env h b c)"
proof -
  have "keeps inv (health_check_attempts n env h b c)" for n
    by (induction n) (auto intro!: keeps_intros keeps_health_check_once)
  then show ?thesis by (simp add: health_check_def)
qed

lemma keeps_ips [keeps_intros]: "keeps inv (ips env)"
  unfolding ips_def by (auto intro!: keeps_intros)

lemma keeps_auth [keeps_intros]:
  "keeps inv (current_acls env l)" "keeps inv (add_user env l u p)" "keeps inv (delete_user env l u)"
  "keeps inv (add_acl env l a)" "keeps inv (remove_acl env l a)" "keeps inv (get_users env)"
  unfolding current_acls_def get_acls_from_cluster_def add_user_def delete_user_def add_acl_def remove_acl_def get_users_def
  by (auto intro!: keeps_intros split: exn.splits)

lemma keeps_acls [keeps_intros]:
  "keeps inv (remove_all_user_acls env l u)" "keeps inv (update_user_acls env l u t r g ps)"
  unfolding remove_all_user_acls_def update_user_acls_def Let_def by (auto intro!: keeps_intros)

lemma keeps_config [keeps_intros]:
  "keeps inv (set_server_properties env)" "keeps inv (set_client_properties env)" "keeps inv (set_environment env)"
  "keeps inv set_cruise_control_properties" "keeps inv set_broker_capacities"
  "keeps inv set_balancer_environment" "keeps inv set_cruise_control_auth"
  unfolding set_server_properties_def set_client_properties_def set_environment_def set_cruise_control_properties_def
    set_broker_capacities_def set_balancer_environment_def set_cruise_control_auth_def Let_def
  by (auto intro!: keeps_intros)

lemma keeps_retryM: "keeps inv c \<Longrightarrow> keeps inv (retryM n c)"
  by (induction n c rule: retryM.induct) (auto intro!: keeps_intros)

lemma keeps_controller [keeps_intros]:
  "keeps inv (format_storages env u cs k i)" "keeps inv (generate_uuid env)" "keeps inv (add_controller env n)"
  "keeps inv (remove_controller env j d n)" "keeps inv (broker_active env)" "keeps inv (online_brokers env)"
  "keeps inv (departing_brokers env)"
  unfolding format_storages_def generate_uuid_def add_controller_def add_controller_once_def remove_controller_def
    remove_controller_once_def broker_active_def departing_brokers_def online_brokers_def quorum_status_of_def
  by (auto intro!: keeps_intros keeps_retryM)

lemma keeps_tls_stores [keeps_intros]:
  "keeps inv (set_server_key r)" "keeps inv (set_ca r)" "keeps inv (set_certificate r)" "keeps inv (set_bundle r)"
  "keeps inv (set_chain r)" "keeps inv (import_cert r env a f sc)" "keeps inv (set_permissions env p)"
  "keeps inv (remove_cert r env a sc)" "keeps inv (get_trusted_certificates r env p)" "keeps inv (remove_stores r sc)"
  unfolding set_server_key_def set_ca_def set_certificate_def set_bundle_def set_chain_def import_cert_def
    set_permissions_def remove_cert_def get_trusted_certificates_def remove_stores_def write_field_def
  by (auto intro!: keeps_intros)

lemma keeps_import_bundle [keeps_intros]: "keeps inv (import_bundle r env b sc p)"
  unfolding import_bundle_def Let_def by (auto intro!: keeps_intros)

lemma keeps_tls_trust [keeps_intros]:
  "keeps inv (set_truststore r env)" "keeps inv (set_keystore r env)" "keeps inv (update_cert r env a c sc)"
  "keeps inv (client_trusted_certificates r env)" "keeps inv (peer_trusted_certificates r env)"
  unfolding set_truststore_def set_keystore_def update_cert_def client_trusted_certificates_def
    peer_trusted_certificates_def Let_def
  by (auto intro!: keeps_intros)

lemma keeps_peer_cluster_trust [keeps_intros]: "keeps inv (update_peer_cluster_trust r env cr)"
  unfolding update_peer_cluster_trust_def Let_def by (auto intro!: keeps_intros)

lemma keeps_tls_manager [keeps_intros]:
  "keeps inv (configure r env cr)" "keeps inv (alias_needs_update r env cr a c)" "keeps inv (alias_common_name r env cr a)"
  "keeps inv (rebuild_truststore r env cr)" "keeps inv (reload_truststore r env)"
  "keeps inv (peer_truststore_has_temporary_aliases r env)" "keeps inv (build_sans env cr)"
  unfolding configure_def alias_needs_update_def alias_common_name_def rebuild_truststore_def reload_truststore_def
    peer_truststore_has_temporary_aliases_def build_sans_def Let_def
  by (auto intro!: keeps_intros)

lemma keeps_sans [keeps_intros]:
  "keeps inv (sans_changed r env cr sc)" "keeps inv (generate_self_signed_certificate env cr)"
  unfolding sans_changed_def get_current_sans_def generate_self_signed_certificate_def Let_def
  by (auto intro!: keeps_intros)

lemma keeps_balancer_manager [keeps_intros]:
  "keeps inv (machine_cores env)" "keeps inv (machine_storages env)" "keeps inv (create_internal_topics env)"
  "keeps inv (all_storages_drained env u b)" "keeps inv (get_partition_assignment env u)"
  unfolding machine_cores_def machine_storages_def get_storage_size_def create_internal_topics_def
    all_storages_drained_def get_partition_assignment_def Let_def
  by (auto intro!: keeps_intros)

lemma keeps_retries:
  "keeps inv c \<Longrightarrow> keeps inv (retry_exceptions n c)" "keeps inv c \<Longrightarrow> keeps inv (retry_until_true n c)"
  by (induction n) (auto intro!: keeps_intros)

lemma keeps_cruise_control [keeps_intros]:
  "keeps inv (monitoring cc)" "keeps inv (executing cc)" "keeps inv (cc_ready cc)"
  "keeps inv (rebalance cc m d b)" "keeps inv (task_waiting cc t)"
  unfolding monitoring_def executing_def cc_ready_def cc_state_def rebalance_def cc_get_request_def cc_post_request_def
    task_waiting_def get_task_status_def Let_def
  by (auto intro!: keeps_intros keeps_retries split: json.splits)

lemma keeps_wait_for_task [keeps_intros]: "keeps inv (wait_for_task n cc t)"
  by (induction n) (auto intro!: keeps_intros)

lemma keeps_models [keeps_intros]:
  "keeps inv (add_broker i st c)" "keeps inv (remove_broker i)" "keeps inv (set_trusted_certificates sc ts)"
  "keeps inv (update_peer_ip_address ip)" "keeps inv (modM (update_relation_ip_address j a))"
  unfolding add_broker_def remove_broker_def set_trusted_certificates_def update_peer_ip_address_def
    update_relation_ip_address_def Let_def
  by (auto intro!: keeps_intros simp: wf_dict_def keys_def)

lemma keeps_trust_state [keeps_intros]: "keeps inv refresh_peer_cluster_trust_state"
  unfolding refresh_peer_cluster_trust_state_def
  by (auto intro!: keeps_intros simp: plain_items_def keys_def SECRET_LABEL_MAP_def)

subsection \<open>The broker's operator\<close>

lemmas item_simps = wf_dict_def keys_def plain_items_def SECRET_LABEL_MAP_def

text \<open>A unit that finds itself healthy may start the service.\<close>

lemma healthy_may_start: "fst (broker_healthy s) = Inr True \<Longrightarrow> inv s \<Longrightarrow> may_start"
  using blocked [of s]
  by (auto simp: broker_healthy_def readE_def bindM_apply thenM_apply set_status_def split: sum.splits prod.splits if_splits)

lemma ready_may_start: "ready_to_start s = Inr ACTIVE \<Longrightarrow> inv s \<Longrightarrow> may_start"
  using blocked by blast

lemma keeps_broker_healthy [keeps_intros]: "keeps inv broker_healthy"
  unfolding broker_healthy_def by (auto dest: healthy_may_start simp: leader_fixed intro!: keeps_intros)

lemma keeps_base [keeps_intros]:
  "keeps inv (defer_event e)" "keeps inv (acquire_lock cb)" "keeps inv (ping_uris env u)" "keeps inv auth_opts"
  "keeps inv (generate_password env)" "keeps inv write_peer_cluster_ca" "keeps inv (last_restart env)"
  unfolding defer_event_def acquire_lock_def ping_uris_def auth_opts_def generate_password_def
    write_peer_cluster_ca_def last_restart_def
  by (auto dest: healthy_may_start simp: leader_fixed intro!: keeps_intros)

lemma keeps_internal_tls [keeps_intros]: "keeps inv (setup_internal_tls out e)"
  unfolding setup_internal_tls_def by (auto dest: healthy_may_start simp: leader_fixed intro!: keeps_intros)

lemma keeps_external_services [keeps_intros]: "keeps inv (update_external_services env)"
  unfolding update_external_services_def apply_built_def by (auto dest: healthy_may_start simp: leader_fixed intro!: keeps_intros)

lemma keeps_publish_broker_items [keeps_intros]: "ld \<Longrightarrow> keeps inv publish_broker_items"
  unfolding publish_broker_items_def by (auto dest: healthy_may_start simp: leader_fixed intro!: keeps_intros)

lemma keeps_broker_data [keeps_intros]:
  "keeps inv update_peer_cluster_data" "keeps inv (update_credentials_cache env)"
  "keeps inv (update_peer_truststore_state env b)" "keeps inv (update_ip_addresses env)" "keeps inv (update_brokers_state env)"
  unfolding update_peer_cluster_data_def update_credentials_cache_def update_peer_truststore_state_def
    update_ip_addresses_def update_brokers_state_def add_broker_of_def Let_def
  by (auto dest: healthy_may_start simp: leader_fixed intro!: keeps_intros)

subsection \<open>TLS\<close>

lemma keeps_init_credentials [keeps_intros]: "keeps inv (init_credentials env ks)"
  unfolding init_credentials_def init_keys_def init_store_password_def by (auto dest: healthy_may_start simp: leader_fixed intro!: keeps_intros simp: item_simps)

lemma keeps_update_truststore [keeps_intros]: "keeps inv (update_truststore out)"
  unfolding update_truststore_def update_alias_def by (auto dest: healthy_may_start simp: leader_fixed intro!: keeps_intros)

lemma keeps_import_old [keeps_intros]: "keeps inv (import_old_bundle env b sc r)"
  unfolding import_old_bundle_def by (intro keeps_intros)

lemma keeps_tls_relation_broken [keeps_intros]: "(\<And>e. keeps inv (em e)) \<Longrightarrow> keeps inv (tls_relation_broken em out sc)"
  unfolding tls_relation_broken_def by (auto dest: healthy_may_start simp: leader_fixed intro!: keeps_intros)

lemma keeps_handle_certificate [keeps_intros]: "keeps inv (handle_certificate_available out sc c a ch)"
  unfolding handle_certificate_available_def Let_def by (auto dest: healthy_may_start simp: leader_fixed intro!: keeps_intros)

lemma keeps_certificates [keeps_intros]:
  "(\<And>e. keeps inv (em e)) \<Longrightarrow> keeps inv (on_peer_certificate_available em out c a ch)"
  "(\<And>e. keeps inv (em e)) \<Longrightarrow> keeps inv (on_client_certificate_available em out c a ch)"
  "keeps inv (on_mtls_client_certificates_available out rid)" "keeps inv (on_mtls_client_certificates_removed out)"
  unfolding on_peer_certificate_available_def on_client_certificate_available_def
    on_mtls_client_certificates_available_def on_mtls_client_certificates_removed_def
  by (auto dest: healthy_may_start simp: leader_fixed intro!: keeps_intros)

lemma keeps_set_tls_private_key [keeps_intros]: "keeps inv (set_tls_private_key dec k)"
  unfolding set_tls_private_key_def Let_def by (auto dest: healthy_may_start simp: leader_fixed intro!: keeps_intros simp: item_simps)

lemma keeps_unit_tls_rotate [keeps_intros]: "keeps inv (unit_tls_rotate out)"
  unfolding unit_tls_rotate_def by (auto dest: healthy_may_start simp: leader_fixed intro!: keeps_intros keeps_modM certs)

lemma keeps_rotation [keeps_intros]: "keeps inv (config_changed_rotation out e)"
  unfolding config_changed_rotation_def by (auto dest: healthy_may_start simp: leader_fixed intro!: keeps_intros)

lemma keeps_tls_updates [keeps_intros]: "keeps inv (handle_config_changed_tls_updates out)"
  unfolding handle_config_changed_tls_updates_def set_balancer_tls_rotate_def
  by (auto dest: healthy_may_start simp: leader_fixed intro!: keeps_intros keeps_modM app_data simp: set_tls_rotate_def inv_set_rotate inv_set_peer_cluster_tls_rotate)

subsection \<open>Controllers\<close>

lemma bootstrap_items_plain: "bootstrap_items i w = Inr items \<Longrightarrow> plain_items items \<and> no_uuid items"
  by (auto simp: bootstrap_items_def bindE_Inr item_simps)

lemma keeps_init_users [keeps_intros]: "keeps inv (init_internal_users env)"
  unfolding init_internal_users_def by (auto intro!: keeps_intros)

lemma unnamed_may_name: "inv w \<Longrightarrow> cluster_get w ''cluster-uuid'' = [] \<Longrightarrow> may_name"
  using named by blast

lemma keeps_init_uuid [keeps_intros]: "ld \<Longrightarrow> keeps inv (init_cluster_uuid env)"
  unfolding init_cluster_uuid_def using unnamed_may_name by (auto intro!: keeps_intros)

lemma keeps_init_bootstrap [keeps_intros]: "ld \<Longrightarrow> keeps inv (init_bootstrap env)"
  unfolding init_bootstrap_def by (auto intro!: keeps_intros dest: bootstrap_items_plain)

lemma keeps_init_kraft_mode [keeps_intros]: "keeps inv (init_kraft_mode env)"
  unfolding init_kraft_mode_def by (auto simp: leader_fixed intro!: keeps_intros)

lemma keeps_kraft_format_storages [keeps_intros]:
  "(\<And>e. keeps inv (em e)) \<Longrightarrow> keeps inv (kraft_format_storages em env)"
  unfolding kraft_format_storages_def by (auto dest: healthy_may_start simp: leader_fixed intro!: keeps_intros)

lemma keeps_quorum [keeps_intros]:
  "keeps inv kraft_healthy" "keeps inv (add_to_quorum env)" "keeps inv (remove_from_quorum env)"
  unfolding kraft_healthy_def add_to_quorum_def remove_from_quorum_def
  by (auto dest: healthy_may_start simp: leader_fixed intro!: keeps_intros simp: item_simps)

lemma keeps_kraft_handlers [keeps_intros]:
  "(\<And>e. keeps inv (em e)) \<Longrightarrow> keeps inv (kraft_on_start em env ev)" "keeps inv (kraft_on_update_status env)"
  "(\<And>e. keeps inv (em e)) \<Longrightarrow> keeps inv (leader_elected em)" "keeps inv (on_peer_relation_departed env u)"
  unfolding kraft_on_start_def kraft_on_update_status_def leader_elected_def on_peer_relation_departed_def
  by (auto dest: healthy_may_start simp: leader_fixed intro!: keeps_intros dest: bootstrap_items_plain)

subsection \<open>Clients\<close>

lemma keeps_handle_client_request [keeps_intros]: "keeps inv (handle_client_request out c)"
  unfolding handle_client_request_def create_client_def client_acls_def by (auto dest: healthy_may_start simp: leader_fixed intro!: keeps_intros)

lemma broken_clients_names: "broken_clients api w = Inr us \<Longrightarrow> u \<in> set us \<Longrightarrow> u \<noteq> ''cluster-uuid''"
  by (auto simp: broken_clients_def bindE_Inr split: if_splits)

lemma keeps_remove_broken_clients [keeps_intros]: "keeps inv (remove_broken_clients env)"
  unfolding remove_broken_clients_def
  by (rule keeps_bindM, rule keeps_readE, rule keeps_bindM, rule keeps_base, rule keeps_forM_set)
     (auto intro!: keeps_intros dest: broken_clients_names)

lemma keeps_reconcile [keeps_intros]: "keeps inv (reconcile out)"
  unfolding reconcile_def update_client_def by (auto dest: healthy_may_start simp: leader_fixed intro!: keeps_intros)

lemma keeps_mtls_clients: "keeps inv (update_mtls_clients out e cs)"
proof -
  have "keeps inv (update_mtls_client out e c)" for c
    unfolding update_mtls_client_def client_acls_def by (auto dest: healthy_may_start simp: leader_fixed intro!: keeps_intros split: exn.splits)
  then show ?thesis by (induction cs) (auto dest: healthy_may_start simp: leader_fixed intro!: keeps_intros)
qed

lemma keeps_provider [keeps_intros]:
  "(\<And>e. keeps inv (cc e)) \<Longrightarrow> keeps inv (on_topic_requested cc out rid)"
  "(\<And>e. keeps inv (cc e)) \<Longrightarrow> keeps inv (on_client_relation_created cc)"
  "(\<And>e. keeps inv (em e)) \<Longrightarrow> keeps inv (on_mtls_cert_updated em out rid)"
  "keeps inv (on_client_relation_broken out app rid)"
  unfolding on_topic_requested_def on_client_relation_created_def on_mtls_cert_updated_def
    on_client_relation_broken_def remove_client_certificate_def Let_def
  by (auto dest: healthy_may_start simp: leader_fixed intro!: keeps_intros keeps_mtls_clients)

subsection \<open>The balancer\<close>

lemma keeps_balancer_base [keeps_intros]:
  "keeps inv balancer_healthy" "keeps inv (balancer_setup_internal_tls out)" "keeps inv balancer_on_install"
  unfolding balancer_healthy_def balancer_setup_internal_tls_def balancer_on_install_def
  by (auto dest: healthy_may_start simp: leader_fixed intro!: keeps_intros)

lemma keeps_balancer_on_start [keeps_intros]: "ld \<Longrightarrow> keeps inv (balancer_on_start out e)"
  unfolding balancer_on_start_def balancer_credentials_def Let_def set_balancer_tls_rotate_def
  by (auto dest: healthy_may_start simp: leader_fixed intro!: keeps_intros)

lemma keeps_rebalance_checks [keeps_intros]: "keeps inv (rebalance_checks cc a m b av)"
  unfolding rebalance_checks_def Let_def fail_if_def notM_def by (auto dest: healthy_may_start simp: leader_fixed intro!: keeps_intros)

lemma keeps_operator_rebalance [keeps_intros]: "keeps inv (operator_rebalance out a m b d)"
  unfolding operator_rebalance_def by (auto dest: healthy_may_start simp: leader_fixed intro!: keeps_intros)

lemma keeps_rebalances [keeps_intros]:
  "keeps inv (on_rebalance_action out m b d)" "keeps inv (on_rebalance_event out m b)"
  "(\<And>e. keeps inv (em e)) \<Longrightarrow> keeps inv (rebalance_empty_brokers em as)"
  unfolding on_rebalance_action_def fail_action_def on_rebalance_event_def rebalance_empty_brokers_def
  by (auto dest: healthy_may_start simp: leader_fixed intro!: keeps_intros split: json.splits)

lemma keeps_balancer_on_config_changed [keeps_intros]:
  "(\<And>e. keeps inv (em e)) \<Longrightarrow> keeps inv (balancer_on_config_changed em out)"
  unfolding balancer_on_config_changed_def by (auto dest: healthy_may_start simp: leader_fixed intro!: keeps_intros)

subsection \<open>The handlers of the broker\<close>

lemma keeps_broker_start [keeps_intros]:
  "(\<And>e. keeps inv (em e)) \<Longrightarrow> may_start \<Longrightarrow> keeps inv (start_broker em out)"
  unfolding start_broker_def by (auto dest: healthy_may_start simp: leader_fixed intro!: keeps_intros)

lemma keeps_broker_on_start [keeps_intros]:
  "keeps inv (broker_on_install env)"
  "(\<And>e. keeps inv (em e)) \<Longrightarrow> keeps inv (broker_on_start em out ev)"
  unfolding broker_on_install_def broker_on_start_def publish_machine_def init_internal_ca_def
    set_internal_ca_def set_internal_ca_key_def
  by (auto dest: healthy_may_start simp: leader_fixed intro!: keeps_intros dest: ready_may_start simp: item_simps)

lemma keeps_configuration_updates [keeps_intros]:
  "keeps inv (handle_configuration_updates out ev)" "keeps inv (handle_broker_service_updates out)"
  "keeps inv (start_balancer_if_needed out ev)"
  "(\<And>e. keeps inv (em e)) \<Longrightarrow> keeps inv (reconcile_autobalance em env)"
  unfolding handle_configuration_updates_def handle_broker_service_updates_def open_ports_def
    start_balancer_if_needed_def reconcile_autobalance_def
  by (auto dest: healthy_may_start simp: leader_fixed intro!: keeps_intros)

lemma keeps_broker_on_config_changed [keeps_intros]:
  "(\<And>e. keeps inv (em e)) \<Longrightarrow> keeps inv (broker_on_config_changed em out ev)"
  unfolding broker_on_config_changed_def by (auto dest: healthy_may_start simp: leader_fixed intro!: keeps_intros)

lemma keeps_broker_on_update_status [keeps_intros]:
  "(\<And>e. keeps inv (em e)) \<Longrightarrow> keeps inv (broker_on_update_status em out)"
  "(\<And>e. keeps inv (em e)) \<Longrightarrow> keeps inv (broker_on_secret_changed em l lb)"
  unfolding broker_on_update_status_def drop_old_certificates_def broker_on_secret_changed_def
  by (auto dest: healthy_may_start simp: leader_fixed intro!: keeps_intros)

lemma keeps_wait_drained [keeps_intros]: "keeps inv (wait_drained n env)"
  by (induction n) (auto dest: healthy_may_start simp: leader_fixed intro!: keeps_intros)

lemma keeps_storage [keeps_intros]:
  "(\<And>e. keeps inv (em e)) \<Longrightarrow> keeps inv (on_storage_attached em out)"
  "(\<And>e. keeps inv (em e)) \<Longrightarrow> keeps inv (on_storage_detaching em out)"
  unfolding on_storage_attached_def on_storage_detaching_def publish_storages_def
  by (auto dest: healthy_may_start simp: leader_fixed intro!: keeps_intros simp: item_simps)

subsection \<open>The other handlers\<close>

lemma inv_on_kraft_rel: "inv w \<Longrightarrow> ld \<Longrightarrow> inv (on_kraft_rel (put_local k v) w)"
  using orchestrator_local [of w k v] peer_cluster_local [of w k v]
  by (auto simp: on_kraft_rel_def on_orchestrator_def on_peer_cluster_def)

lemma keeps_peer_cluster_created [keeps_intros]: "keeps inv on_peer_cluster_created"
  unfolding on_peer_cluster_created_def by (auto dest: healthy_may_start simp: leader_fixed intro!: keeps_intros keeps_modM inv_on_kraft_rel)

lemma keeps_default_changed [keeps_intros]: "ld \<Longrightarrow> keeps inv (default_relation_changed e)"
  unfolding default_relation_changed_def
  using peer_cluster_seen orchestrator_seen
  by (auto simp: keeps_def on_orchestrator_def on_peer_cluster_def)

lemma keeps_peer_cluster_changed [keeps_intros]:
  "(\<And>e. keeps inv (em e)) \<Longrightarrow> keeps inv (on_peer_cluster_changed em)"
  "(\<And>e. keeps inv (em e)) \<Longrightarrow> keeps inv (on_orchestrator_changed em ev)"
  unfolding on_peer_cluster_changed_def on_orchestrator_changed_def by (auto dest: healthy_may_start simp: leader_fixed intro!: keeps_intros)

lemma keeps_secrets [keeps_intros]:
  "(\<And>e. keeps inv (em e)) \<Longrightarrow> keeps inv (secrets_on_secret_changed em out ev)"
  unfolding secrets_on_secret_changed_def change_credentials_def by (auto dest: healthy_may_start simp: leader_fixed intro!: keeps_intros)

lemma keeps_oauth_and_actions [keeps_intros]:
  "(\<And>e. keeps inv (em e)) \<Longrightarrow> keeps inv (on_oauth_relation_changed em out)" "keeps inv (get_listeners_action env)"
  unfolding on_oauth_relation_changed_def get_listeners_action_def by (auto dest: healthy_may_start simp: leader_fixed intro!: keeps_intros)

lemma keeps_restart_broker [keeps_intros]: "keeps inv (restart_broker out)" "keeps inv on_roles_changed"
  unfolding restart_broker_def on_roles_changed_def by (auto dest: healthy_may_start simp: leader_fixed intro!: keeps_intros)

lemma keeps_refresh [keeps_intros]: "keeps inv (handle_refresh_coordination out)"
  unfolding handle_refresh_coordination_def configure_broker_def is_workload_healthy_def
  by (auto dest: healthy_may_start simp: leader_fixed intro!: keeps_intros keeps_modM next_unit split: option.splits) (use no_refresh in blast)

lemma keeps_determine_unit_status [keeps_intros]: "keeps inv (determine_unit_status env)"
  unfolding determine_unit_status_def by (auto dest: healthy_may_start simp: leader_fixed intro!: keeps_intros)

subsection \<open>Dispatch\<close>

lemma keeps_observers:
  assumes "\<And>e. keeps inv (em e)" and "bal \<Longrightarrow> ld"
  shows "list_all (keeps inv) (observers em out l brk bal ev)"
  using assms by (cases ev) (auto simp: observers_def Let_def intro!: keeps_intros)

lemma keeps_emit: "keeps inv (emit n out l ev)"
proof (induction n arbitrary: ev)
  case (Suc n)
  then show ?case by (auto dest: healthy_may_start simp: leader_fixed intro!: keeps_intros keeps_observers)
qed (auto dest: healthy_may_start simp: leader_fixed intro!: keeps_intros)

lemma keeps_run_hook: "keeps inv (run_hook n out ks l ev)"
  unfolding run_hook_def by (auto dest: healthy_may_start simp: leader_fixed intro!: keeps_intros keeps_emit)

end



section \<open>What no hook changes\<close>

text \<open>Everything that belongs to Juju, to other units and to the remote sides of relations.\<close>

definition unchanged :: "world \<Rightarrow> world \<Rightarrow> bool" where
  "unchanged w0 w \<longleftrightarrow>
     unit_name w = unit_name w0 \<and> model_name w = model_name w0 \<and> leader w = leader w0 \<and> cfg w = cfg w0 \<and>
     peer_rel w = peer_rel w0 \<and> other_units w = other_units w0 \<and> client_rels w = client_rels w0 \<and>
     tls_rel w = tls_rel w0 \<and> internal_tls_rel w = internal_tls_rel w0 \<and> oauth_rel w = oauth_rel w0 \<and>
     cert_transfer_rels w = cert_transfer_rels w0 \<and> storage_dirs w = storage_dirs w0 \<and>
     can_connect w = can_connect w0 \<and> transferred_certs w = transferred_certs w0"

definition remote_part :: "remote_rel \<Rightarrow> int \<times> string option \<times> string list \<times> (string, string) dict \<times> (string, (string, string) dict) dict \<times> string list" where
  "remote_part r = (rel_id r, rel_app r, rel_units r, remote_data r, remote_secrets r, requested r)"

definition same_remotes :: "world \<Rightarrow> world \<Rightarrow> bool" where
  "same_remotes w0 w \<longleftrightarrow>
     map_option remote_part (orchestrator_rel w) = map_option remote_part (orchestrator_rel w0) \<and>
     map_option remote_part (peer_cluster_rel w) = map_option remote_part (peer_cluster_rel w0)"

definition frame :: "world \<Rightarrow> world \<Rightarrow> bool" where
  "frame w0 w \<longleftrightarrow> unchanged w0 w \<and> same_remotes w0 w \<and> bags_ok w"

lemma unchanged_updates [simp]:
  "unchanged w0 (w\<lparr>files := f\<rparr>) = unchanged w0 w" "unchanged w0 (w\<lparr>actions := a\<rparr>) = unchanged w0 w"
  "unchanged w0 (w\<lparr>pending := p\<rparr>) = unchanged w0 w" "unchanged w0 (w\<lparr>certs_updated := c\<rparr>) = unchanged w0 w"
  "unchanged w0 (w\<lparr>app_bag := b\<rparr>) = unchanged w0 w" "unchanged w0 (w\<lparr>unit_bag := u\<rparr>) = unchanged w0 w"
  "unchanged w0 (w\<lparr>refresh := r\<rparr>) = unchanged w0 w" "unchanged w0 (w\<lparr>running := s\<rparr>) = unchanged w0 w"
  "unchanged w0 (w\<lparr>orchestrator_rel := q\<rparr>) = unchanged w0 w" "unchanged w0 (w\<lparr>peer_cluster_rel := q\<rparr>) = unchanged w0 w"
  by (simp_all add: unchanged_def)

lemma same_remotes_updates [simp]:
  "same_remotes w0 (w\<lparr>files := f\<rparr>) = same_remotes w0 w" "same_remotes w0 (w\<lparr>actions := a\<rparr>) = same_remotes w0 w"
  "same_remotes w0 (w\<lparr>pending := p\<rparr>) = same_remotes w0 w" "same_remotes w0 (w\<lparr>certs_updated := c\<rparr>) = same_remotes w0 w"
  "same_remotes w0 (w\<lparr>app_bag := b\<rparr>) = same_remotes w0 w" "same_remotes w0 (w\<lparr>unit_bag := u\<rparr>) = same_remotes w0 w"
  "same_remotes w0 (w\<lparr>refresh := r\<rparr>) = same_remotes w0 w" "same_remotes w0 (w\<lparr>running := s\<rparr>) = same_remotes w0 w"
  by (simp_all add: same_remotes_def)

lemma bags_ok_updates [simp]:
  "bags_ok (w\<lparr>files := f\<rparr>) = bags_ok w" "bags_ok (w\<lparr>actions := a\<rparr>) = bags_ok w"
  "bags_ok (w\<lparr>pending := p\<rparr>) = bags_ok w" "bags_ok (w\<lparr>certs_updated := c\<rparr>) = bags_ok w"
  "bags_ok (w\<lparr>refresh := r\<rparr>) = bags_ok w" "bags_ok (w\<lparr>running := s\<rparr>) = bags_ok w"
  "bags_ok (w\<lparr>orchestrator_rel := q\<rparr>) = bags_ok w" "bags_ok (w\<lparr>peer_cluster_rel := q\<rparr>) = bags_ok w"
  by (simp_all add: bags_ok_def)

lemma remote_part_writes [simp]:
  "remote_part (put_local k v r) = remote_part r" "remote_part (mark_seen r) = remote_part r"
  "remote_part (set_group_secret k v r) = remote_part r" "remote_part (rel_put k v r) = remote_part r"
  "remote_part (rel_delete k r) = remote_part r"
  by (simp_all add: remote_part_def put_local_def mark_seen_def set_group_secret_def rel_put_def rel_delete_def Let_def split: option.splits)

lemma remote_part_fold: "(\<And>x r. remote_part (f x r) = remote_part r) \<Longrightarrow> remote_part (fold f xs r) = remote_part r"
  by (induction xs arbitrary: r) auto

lemma remote_part_rel_update [simp]: "remote_part (rel_update b items r) = remote_part r"
  unfolding rel_update_def Let_def by (auto simp: remote_part_fold split: prod.splits)

lemma same_remotes_rels:
  "(\<And>r. remote_part (f r) = remote_part r) \<Longrightarrow> same_remotes w0 w \<Longrightarrow> same_remotes w0 (on_orchestrator f w)"
  "(\<And>r. remote_part (f r) = remote_part r) \<Longrightarrow> same_remotes w0 w \<Longrightarrow> same_remotes w0 (on_peer_cluster f w)"
  by (simp_all add: same_remotes_def on_orchestrator_def on_peer_cluster_def option.map_comp comp_def)

lemma frame_rels:
  "(\<And>r. remote_part (f r) = remote_part r) \<Longrightarrow> frame w0 w \<Longrightarrow> frame w0 (on_orchestrator f w)"
  "(\<And>r. remote_part (f r) = remote_part r) \<Longrightarrow> frame w0 w \<Longrightarrow> frame w0 (on_peer_cluster f w)"
  unfolding frame_def using same_remotes_rels [of f w0 w] by (auto simp: on_orchestrator_def on_peer_cluster_def)

lemma frame_bags:
  "frame w0 w \<Longrightarrow> wf_dict items \<Longrightarrow> frame w0 (broker_update items w)" "frame w0 w \<Longrightarrow> frame w0 (cluster_update items w)"
  unfolding frame_def using bags_ok_broker_update bags_ok_cluster_update
  by (auto simp: broker_update_def cluster_update_def)

interpretation framed: hook_invariant "frame w0" "leader w0" True True for w0
proof (unfold_locales, goal_cases)
  case 6 then show ?case by (simp add: frame_def allow_next_unit_def)
next
  case 15 then show ?case by (simp add: frame_def stop_service_def)
next
  case 16 then show ?case by (simp add: frame_def start_service_def)
qed (auto simp: frame_bags frame_rels, auto simp: frame_def unchanged_def)





section \<open>Followers\<close>

definition follower :: "world \<Rightarrow> world \<Rightarrow> bool" where
  "follower w0 w \<longleftrightarrow>
     \<not> leader w \<and> peer_rel w = peer_rel w0 \<and> cfg w = cfg w0 \<and> app_bag w = app_bag w0 \<and>
     orchestrator_rel w = orchestrator_rel w0 \<and> peer_cluster_rel w = peer_cluster_rel w0"

lemma rel_update_follower: "plain_items items \<Longrightarrow> rel_update False items r = r"
proof -
  assume "plain_items items"
  then have "filter (\<lambda>(k, v). k \<in> set (keys SECRET_LABEL_MAP)) (filter (\<lambda>(k, v). v \<noteq> []) items) = []"
    by (auto simp: plain_items_def list_all_iff filter_empty_conv)
  then show ?thesis by (simp add: rel_update_def Let_def)
qed

lemma follower_frame [simp]:
  "follower w0 (w\<lparr>files := f\<rparr>) = follower w0 w" "follower w0 (w\<lparr>actions := a\<rparr>) = follower w0 w"
  "follower w0 (w\<lparr>pending := p\<rparr>) = follower w0 w" "follower w0 (w\<lparr>certs_updated := c\<rparr>) = follower w0 w"
  "follower w0 (w\<lparr>refresh := r\<rparr>) = follower w0 w" "follower w0 (w\<lparr>running := s\<rparr>) = follower w0 w"
  "follower w0 (w\<lparr>unit_bag := u\<rparr>) = follower w0 w"
  by (simp_all add: follower_def)

lemma follower_writes:
  "follower w0 w \<Longrightarrow> follower w0 (broker_update items w)" "follower w0 w \<Longrightarrow> follower w0 (cluster_update items w)"
  "follower w0 w \<Longrightarrow> follower w0 (allow_next_unit w)"
  "follower w0 w \<Longrightarrow> plain_items items \<Longrightarrow> follower w0 (on_orchestrator (rel_update False items) w)"
  "follower w0 w \<Longrightarrow> plain_items items \<Longrightarrow> follower w0 (on_peer_cluster (rel_update False items) w)"
  by (simp_all add: follower_def broker_update_def allow_next_unit_def on_orchestrator_def on_peer_cluster_def rel_update_follower
      option.map_ident_strong)

interpretation following: hook_invariant "follower w0" False True True for w0
  by unfold_locales (auto simp: follower_writes stop_service_def start_service_def, simp_all add: follower_def)

text \<open>C2: a unit that is not the leader never changes the application databag, nor its application's side of
  the relations with other applications of the cluster, in any hook.\<close>

theorem follower_writes_no_application_data:
  assumes "\<not> leader w"
  shows "let w' = snd (run_hook depth out lib_keys extra_label event w)
         in app_bag w' = app_bag w \<and> orchestrator_rel w' = orchestrator_rel w \<and> peer_cluster_rel w' = peer_cluster_rel w"
  using keepsD [OF following.keeps_run_hook, of w w depth out lib_keys extra_label event] assms
  by (simp add: follower_def Let_def)

theorem follower_writes_no_application_data_witness:
  "app_bag (snd (run_hook 9 quiet_outside (\<lambda>_. None) ''label'' StartEvent (blank_world\<lparr>leader := False\<rparr>))) = empty_bag"
  using follower_writes_no_application_data [of "blank_world\<lparr>leader := False\<rparr>" 9 quiet_outside "\<lambda>_. None" "''label''" StartEvent]
  by (simp add: Let_def)


section \<open>Starting Kafka\<close>

text \<open>A follower with brokers whose application has no cluster id yet, Kafka not running, and no refresh going on.\<close>

definition waiting :: "world \<Rightarrow> world \<Rightarrow> bool" where
  "waiting w0 w \<longleftrightarrow>
     follower w0 w \<and> \<not> leader w0 \<and> runs_broker w0 \<and> cluster_get w0 ''cluster-uuid'' = [] \<and>
     role_service BROKER \<notin> set (running w) \<and> (\<forall>r. refresh w = Some r \<longrightarrow> \<not> in_progress r)"

lemma not_ready_without_uuid:
  assumes "runs_broker w" and "cluster_get w ''cluster-uuid'' = []"
  shows "ready_to_start w \<noteq> Inr ACTIVE"
proof
  assume "ready_to_start w = Inr ACTIVE"
  then have "broker_status w = Inr ACTIVE" by (auto simp: ready_to_start_def bindE_Inr split: if_splits)
  with assms show False by (auto simp: broker_status_def bindE_Inr split: if_splits)
qed

lemma waiting_not_ready: "waiting w0 w \<Longrightarrow> ready_to_start w \<noteq> Inr ACTIVE"
  by (rule not_ready_without_uuid) (auto simp: waiting_def follower_def runs_broker_def cluster_get_def)

lemma waiting_frame:
  "waiting w0 w \<Longrightarrow> follower w0 w' \<Longrightarrow> running w' = running w \<Longrightarrow> refresh w' = refresh w \<Longrightarrow> waiting w0 w'"
  by (simp add: waiting_def)

lemma update_sel [simp]:
  "running (broker_update i w) = running w" "refresh (broker_update i w) = refresh w"
  "running (cluster_update i w) = running w" "refresh (cluster_update i w) = refresh w"
  "running (on_orchestrator f w) = running w" "refresh (on_orchestrator f w) = refresh w"
  "running (on_peer_cluster f w) = running w" "refresh (on_peer_cluster f w) = refresh w"
  by (simp_all add: broker_update_def cluster_update_def on_orchestrator_def on_peer_cluster_def)

lemma waiting_services:
  "waiting w0 w \<Longrightarrow> waiting w0 (snd (stop_service r w))" "waiting w0 w \<Longrightarrow> waiting w0 (snd (start_service BALANCER w))"
  "waiting w0 w \<Longrightarrow> waiting w0 (allow_next_unit w)"
  by (auto simp: waiting_def stop_service_def start_service_def allow_next_unit_def BROKER_def BALANCER_def)

lemma waiting_writes:
  "waiting w0 w \<Longrightarrow> waiting w0 (broker_update items w)" "waiting w0 w \<Longrightarrow> waiting w0 (cluster_update items w)"
  "waiting w0 w \<Longrightarrow> plain_items items \<Longrightarrow> waiting w0 (on_orchestrator (rel_update False items) w)"
  "waiting w0 w \<Longrightarrow> plain_items items \<Longrightarrow> waiting w0 (on_peer_cluster (rel_update False items) w)"
  by (simp_all add: waiting_def follower_writes)

lemma waiting_follower: "waiting w0 w \<Longrightarrow> follower w0 w"
  by (simp add: waiting_def)

interpretation waiting: hook_invariant "waiting w0" False False True for w0
proof (unfold_locales, goal_cases)
  case 1 then show ?case by (simp add: waiting_def follower_def)
next
  case 19 then show ?case by (simp add: waiting_def)
qed (use waiting_follower waiting_not_ready in
      \<open>auto simp: waiting_services waiting_writes intro: waiting_frame\<close>)





section \<open>The name of the cluster\<close>

definition named_cluster :: "world \<Rightarrow> world \<Rightarrow> bool" where
  "named_cluster w0 w \<longleftrightarrow>
     leader w = leader w0 \<and> peer_rel w \<and> bags_ok w \<and> cluster_get w0 ''cluster-uuid'' \<noteq> [] \<and>
     cluster_get w ''cluster-uuid'' = cluster_get w0 ''cluster-uuid''"

lemma named_unit_data: "named_cluster w0 w \<Longrightarrow> wf_dict items \<Longrightarrow> named_cluster w0 (broker_update items w)"
  using bags_ok_broker_update [of w items]
  by (auto simp: named_cluster_def broker_update_def cluster_get_def)

lemma named_app_data:
  assumes "named_cluster w0 w" and "no_uuid items"
  shows "named_cluster w0 (cluster_update items w)"
proof -
  have "map_of (rev items) ''cluster-uuid'' = None"
    using assms(2) by (auto simp: no_uuid_def list_all_iff map_of_eq_None_iff)
  then have "leader w \<Longrightarrow> cluster_get (cluster_update items w) ''cluster-uuid'' = cluster_get w ''cluster-uuid''"
    using assms(1) cluster_get_update [of w items "''cluster-uuid''"] by (simp add: named_cluster_def)
  moreover have "cluster_update items w = w" if "\<not> leader w" using that by simp
  moreover have "leader (cluster_update items w) = leader w" "peer_rel (cluster_update items w) = peer_rel w"
    by (simp_all add: cluster_update_def)
  ultimately show ?thesis using assms(1) bags_ok_cluster_update [of w items] by (cases "leader w") (auto simp: named_cluster_def)
qed

interpretation naming: hook_invariant "named_cluster w0" "leader w0" True False for w0
proof (unfold_locales, goal_cases)
  case (7 w items) then show ?case by (rule named_unit_data)
next
  case (8 w items) then show ?case by (simp add: named_app_data)
next
  case (18 w) then show ?case by (simp add: named_cluster_def)
qed (auto simp: named_cluster_def cluster_get_def bags_ok_def allow_next_unit_def on_orchestrator_def on_peer_cluster_def
      stop_service_def start_service_def)

text \<open>Once the cluster has an id, no hook of any unit ever changes it: neither a handler, nor an event
  emitted inside one, nor a hook that ends with an exception.\<close>

theorem cluster_uuid_permanent:
  assumes "bags_ok w" and "cluster_get w ''cluster-uuid'' \<noteq> []"
  shows "cluster_get (snd (run_hook depth out lib_keys extra_label event w)) ''cluster-uuid'' = cluster_get w ''cluster-uuid''"
proof -
  have "peer_rel w" using assms(2) by (auto simp: cluster_get_def split: if_splits)
  then have "named_cluster w w" using assms by (simp add: named_cluster_def)
  from keepsD [OF naming.keeps_run_hook this] show ?thesis unfolding named_cluster_def by blast
qed


theorem cluster_uuid_permanent_witness:
  "cluster_get (snd (run_hook 9 quiet_outside (\<lambda>_. None) ''label'' StartEvent (cluster_update [(''cluster-uuid'', ''u1'')] blank_world)))
     ''cluster-uuid'' = ''u1''"
proof -
  let ?w = "cluster_update [(''cluster-uuid'', ''u1'')] blank_world"
  have "bags_ok ?w" by (simp add: bags_ok_cluster_update bags_ok_blank)
  moreover have "cluster_get ?w ''cluster-uuid'' = ''u1''" by code_simp
  ultimately show ?thesis
    using cluster_uuid_permanent [of ?w 9 quiet_outside "\<lambda>_. None" "''label''" StartEvent] by simp
qed

end
