(* ===== verification/Deployment.thy ===== *)
theory Deployment
  imports Hook_Invariants
begin

text \<open>
  The units of one application. They share the application databag, each has its own world, and
  their hooks run one at a time in any order. A hook that raises leaves the databags as they
  were: Juju writes them back only when a hook ends normally. Between hooks, Juju moves the
  leadership and changes whatever a unit does not own: configuration, relations, the refresh,
  containers and remote data.
\<close>

section \<open>Deployments\<close>

record deployment =
  members :: "string list"
  boss :: string
  shared :: bag
  local_world :: "string \<Rightarrow> world"

text \<open>What a unit sees when one of its hooks starts.\<close>

definition view :: "deployment \<Rightarrow> string \<Rightarrow> world" where
  "view d u =
     (local_world d u)\<lparr>unit_name := u, leader := (u = boss d), app_bag := shared d,
       other_units := map (\<lambda>v. (v, plain (unit_bag (local_world d v)))) (filter (\<lambda>v. v \<noteq> u) (members d)),
       pending := [], certs_updated := False, actions := []\<rparr>"

definition commit :: "string \<Rightarrow> world \<Rightarrow> deployment \<Rightarrow> deployment" where
  "commit u w d = d\<lparr>shared := app_bag w, local_world := (local_world d)(u := w)\<rparr>"

definition roll_back :: "string \<Rightarrow> world \<Rightarrow> deployment \<Rightarrow> deployment" where
  "roll_back u w d = d\<lparr>local_world := (local_world d)(u := w\<lparr>unit_bag := unit_bag (local_world d u)\<rparr>)\<rparr>"

inductive deployment_step :: "deployment \<Rightarrow> deployment \<Rightarrow> bool" where
  hook_ends: "u \<in> set (members d) \<Longrightarrow> run_hook depth out lib_keys extra_label event (view d u) = (Inr x, w) \<Longrightarrow>
     deployment_step d (commit u w d)"
| hook_raises: "u \<in> set (members d) \<Longrightarrow> run_hook depth out lib_keys extra_label event (view d u) = (Inl e, w) \<Longrightarrow>
     deployment_step d (roll_back u w d)"
| elected: "u \<in> set (members d) \<Longrightarrow> deployment_step d (d\<lparr>boss := u\<rparr>)"
| environment: "unit_bag w = unit_bag (local_world d u) \<Longrightarrow>
     deployment_step d (d\<lparr>local_world := (local_world d)(u := w)\<rparr>)"
| joined: "u \<notin> set (members d) \<Longrightarrow> unit_bag w = empty_bag \<Longrightarrow>
     deployment_step d (d\<lparr>members := members d @ [u], local_world := (local_world d)(u := w)\<rparr>)"
| departed: "deployment_step d (d\<lparr>members := filter (\<lambda>v. v \<noteq> u) (members d)\<rparr>)"

inductive_cases deployment_step_elim: "deployment_step d d'"

definition fresh :: "string \<Rightarrow> world \<Rightarrow> deployment" where
  "fresh u w = \<lparr>members = [u], boss = u, shared = empty_bag, local_world = (\<lambda>_. w\<lparr>unit_bag := empty_bag\<rparr>)\<rparr>"

definition cluster_id :: "deployment \<Rightarrow> string" where
  "cluster_id d = app_get True (shared d) ''cluster-uuid''"


section \<open>Invariant\<close>

definition deployment_ok :: "deployment \<Rightarrow> bool" where
  "deployment_ok d \<longleftrightarrow> app_bag_ok (shared d) \<and> (\<forall>u. unit_bag_ok (unit_bag (local_world d u)))"

lemma empty_bags_ok [simp]: "app_bag_ok empty_bag" "unit_bag_ok empty_bag"
  by (simp_all add: app_bag_ok_def unit_bag_ok_def empty_bag_def keys_def)

lemma view_ok: "deployment_ok d \<Longrightarrow> bags_ok (view d u)"
  by (simp add: deployment_ok_def bags_ok_def view_def)

lemma hook_keeps_bags: "run_hook depth out lib_keys extra_label event w = (r, w') \<Longrightarrow> bags_ok w \<Longrightarrow> bags_ok w'"
  using keepsD [OF framed.keeps_run_hook, of w w depth out lib_keys extra_label event]
  by (simp add: frame_def unchanged_def same_remotes_def)

lemma deployment_ok_step: "deployment_step d d' \<Longrightarrow> deployment_ok d \<Longrightarrow> deployment_ok d'"
proof (induction rule: deployment_step.induct)
  case (hook_ends u d depth out lib_keys extra_label event x w)
  then have "bags_ok w" using hook_keeps_bags view_ok by blast
  with hook_ends show ?case by (simp add: deployment_ok_def commit_def bags_ok_def)
qed (auto simp: deployment_ok_def roll_back_def)

text \<open>
  A deployment of one unit with all roles, after its start: when the unit is elected it
  publishes its controller as the one to bootstrap from, which changes the application data.
\<close>

definition booted :: deployment where
  "booted = (fresh ''kafka-k8s/0'' kraft_world)\<lparr>shared := app_bag ready_world\<rparr>"

definition booted_hook :: "(exn + shown) \<times> world" where
  "booted_hook = run_hook 2 quiet_outside (\<lambda>_. None) ''label'' LeaderElectedEvent (view booted ''kafka-k8s/0'')"

definition rebooted :: deployment where
  "rebooted = commit ''kafka-k8s/0'' (snd booted_hook) booted"

lemma booted_hook_ends: "\<not> isl (fst booted_hook)"
  by code_simp

lemma booted_hook_writes: "app_get True (app_bag (snd booted_hook)) ''bootstrap-unit-id'' = ''100''"
  by code_simp

lemma booted_steps: "deployment_step booted rebooted"
proof -
  from booted_hook_ends obtain x where "fst booted_hook = Inr x" by (cases "fst booted_hook") auto
  then have "booted_hook = (Inr x, snd booted_hook)" by (metis prod.collapse)
  then show ?thesis
    unfolding rebooted_def booted_hook_def by (intro deployment_step.hook_ends) (simp_all add: booted_def fresh_def)
qed

lemma booted_ok: "deployment_ok booted" "cluster_id booted = ''uuid''" "app_get True (shared booted) ''bootstrap-unit-id'' = []"
proof -
  have "app_bag_ok (app_bag ready_world)" by code_simp
  then show "deployment_ok booted" by (simp add: deployment_ok_def booted_def fresh_def)
qed code_simp+


section \<open>Secrets\<close>




section \<open>Writers of the application data\<close>

lemma follower_hook: "run_hook depth out lib_keys extra_label event w = (r, w') \<Longrightarrow> \<not> leader w \<Longrightarrow> app_bag w' = app_bag w"
  using keepsD [OF following.keeps_run_hook, of w w depth out lib_keys extra_label event] by (simp add: follower_def)




section \<open>The id of the cluster\<close>

text \<open>A unit without the peer relation does not write application data.\<close>

definition without_peers :: "world \<Rightarrow> world \<Rightarrow> bool" where
  "without_peers w0 w \<longleftrightarrow> leader w = leader w0 \<and> \<not> peer_rel w \<and> app_bag w = app_bag w0"

interpretation alone: hook_invariant "without_peers w0" "leader w0" True True for w0
  by unfold_locales
     (auto simp: without_peers_def broker_update_def cluster_update_def allow_next_unit_def on_orchestrator_def on_peer_cluster_def
       stop_service_def start_service_def)

lemma hook_keeps_app_get:
  assumes "run_hook depth out lib_keys extra_label event w = (r, w')" and "bags_ok w"
    and "app_get (leader w) (app_bag w) ''cluster-uuid'' \<noteq> []"
  shows "app_get (leader w) (app_bag w') ''cluster-uuid'' = app_get (leader w) (app_bag w) ''cluster-uuid''"
proof (cases "peer_rel w")
  case True
  then have "named_cluster w w" using assms by (simp add: named_cluster_def cluster_get_def)
  from keepsD [OF naming.keeps_run_hook this, of depth out lib_keys extra_label event] assms(1) True
  show ?thesis by (auto simp: named_cluster_def cluster_get_def split: if_splits)
next
  case False
  then have "without_peers w w" by (simp add: without_peers_def)
  from keepsD [OF alone.keeps_run_hook this, of depth out lib_keys extra_label event] assms(1)
  show ?thesis by (simp add: without_peers_def)
qed

lemma app_get_reader: "app_bag_ok b \<Longrightarrow> app_get l b k = app_get True b k"
  by (cases l) (auto simp: app_get_def fetch_field_def as_secret_def fallback_to_databag_def app_bag_ok_def list_ex_iff)

lemma cluster_id_step:
  assumes "deployment_step d d'" and "deployment_ok d" and "cluster_id d \<noteq> []"
  shows "cluster_id d' = cluster_id d"
  using assms(1)
proof (cases rule: deployment_step.cases)
  case (hook_ends u depth out lib_keys extra_label event x w)
  have v: "bags_ok (view d u)" "bags_ok w" using view_ok [OF assms(2)] hook_keeps_bags [OF hook_ends(3)] by blast+
  have same: "app_bag (view d u) = shared d" by (simp add: view_def)
  have read: "app_get (leader (view d u)) (shared d) k = app_get True (shared d) k"
      "app_get (leader (view d u)) (app_bag w) k = app_get True (app_bag w) k" for k
    using v same by (auto simp: bags_ok_def intro!: app_get_reader)
  have "app_get (leader (view d u)) (app_bag w) ''cluster-uuid'' = app_get (leader (view d u)) (shared d) ''cluster-uuid''"
    using hook_keeps_app_get [OF hook_ends(3) v(1)] assms(3) read unfolding same cluster_id_def by metis
  then show ?thesis unfolding read using hook_ends(1) by (simp add: cluster_id_def commit_def)
qed (simp_all add: cluster_id_def roll_back_def)

text \<open>C1: in a deployment with well-formed databags, the id of the cluster, once recorded, is the same in every
  later state, whatever hooks the units run, also failing ones, with units joining and leaving
  and the leadership moving.\<close>

theorem cluster_id_permanent:
  assumes "deployment_step\<^sup>*\<^sup>* d d'" and "deployment_ok d" and "cluster_id d \<noteq> []"
  shows "cluster_id d' = cluster_id d \<and> deployment_ok d'"
  using assms
proof (induction rule: rtranclp_induct)
  case (step d1 d2)
  then have 1: "deployment_ok d1" "cluster_id d1 = cluster_id d" by simp_all
  then have "cluster_id d1 \<noteq> []" using step.prems(2) by simp
  from cluster_id_step [OF step.hyps(2) 1(1) this] 1 deployment_ok_step [OF step.hyps(2) 1(1)] show ?case by simp
qed simp

theorem cluster_id_permanent_witness: "cluster_id rebooted = ''uuid''"
proof -
  have "deployment_step\<^sup>*\<^sup>* booted rebooted" using booted_steps by (rule r_into_rtranclp)
  from cluster_id_permanent [OF this booted_ok(1)] booted_ok(2) show ?thesis by simp
qed

end
