(* ===== verification/Data_Interfaces.thy ===== *)
theory Data_Interfaces
  imports Json
begin

text \<open>
  \<^verbatim>\<open>data_platform_libs/v1/data_interfaces.py\<close> as the provider of Kafka clients uses it: the repository of one
  relation, the difference between what a client wrote and what was handled before, and the events
  the library emits for it. \<^verbatim>\<open>pydantic\<close> is a parameter: \<open>contract\<close> turns the decoded databag of the client
  into requests. A request is its id and what \<^verbatim>\<open>model_dump\<close> gives for it.
\<close>

section \<open>Relations\<close>

text \<open>
  The databags of the two applications and the secrets this unit can see: the labels it has given
  to secret ids, and the contents.
\<close>

datatype component = Own | Remote

record client_relation =
  dr_name :: string
  dr_id :: int
  dr_leader :: bool
  dr_own :: "(string, string) dict"
  dr_remote :: "(string, string) dict"
  dr_labels :: "(string, string) dict"
  dr_secrets :: "(string, (string, string) dict) dict"

type_synonym 'a di = "(client_relation, 'a) prog"

definition databag :: "component \<Rightarrow> client_relation \<Rightarrow> (string, string) dict" where
  "databag c s = (case c of Own \<Rightarrow> dr_own s | Remote \<Rightarrow> dr_remote s)"

text \<open>Juju refuses writes to the databag of the other application.\<close>

definition change_databag :: "component \<Rightarrow> ((string, string) dict \<Rightarrow> (string, string) dict) \<Rightarrow> unit di" where
  "change_databag c f =
     (case c of Own \<Rightarrow> modM (\<lambda>s. s\<lparr>dr_own := f (dr_own s)\<rparr>) | Remote \<Rightarrow> raise (PyException ''RelationDataAccessError''))"


section \<open>The repository of a relation\<close>

definition ensure_leader_for_app :: "component \<Rightarrow> 'a \<Rightarrow> 'a di \<Rightarrow> 'a di" where
  "ensure_leader_for_app c nothing f = bindM (readM (\<lambda>s. c = Own \<and> \<not> dr_leader s)) (\<lambda>no. if no then ret nothing else f)"

definition decoded :: "(string, string) dict \<Rightarrow> (string, json) dict" where
  "decoded d = map (\<lambda>(key, value). (key, case loads value of Inr j \<Rightarrow> j | Inl _ \<Rightarrow> JStr value)) d"

definition repo_get_data :: "component \<Rightarrow> (string, json) dict option di" where
  "repo_get_data c = ensure_leader_for_app c None (readM (\<lambda>s. Some (decoded (databag c s))))"

definition repo_get_field :: "component \<Rightarrow> string \<Rightarrow> string option di" where
  "repo_get_field c f = ensure_leader_for_app c None (readM (\<lambda>s. map_of (databag c s) f))"

definition repo_write_field :: "component \<Rightarrow> string \<Rightarrow> string \<Rightarrow> unit di" where
  "repo_write_field c f value =
     ensure_leader_for_app c () (if value = [] then skip else change_databag c (dset f value))"

definition repo_delete_field :: "component \<Rightarrow> string \<Rightarrow> unit di" where
  "repo_delete_field c f =
     ensure_leader_for_app c ()
       (bindM (readM (\<lambda>s. map_of (databag c s) f)) (\<lambda>v. if v = None then skip else change_databag c (ddel f)))"

text \<open>Both build a generator that nothing consumes.\<close>

definition repo_write_fields :: "component \<Rightarrow> (string, string) dict \<Rightarrow> unit di" where
  "repo_write_fields c mapping = ensure_leader_for_app c () skip"

definition repo_delete_fields :: "component \<Rightarrow> string list \<Rightarrow> unit di" where
  "repo_delete_fields c fs = ensure_leader_for_app c () skip"


section \<open>Labels of secrets\<close>

definition generate_secret_label :: "client_relation \<Rightarrow> string \<Rightarrow> string option \<Rightarrow> string" where
  "generate_secret_label s secret_group short_uuid =
     (case short_uuid of
        Some u \<Rightarrow>
          if u \<noteq> [] then join ''.'' [dr_name s, str_int (dr_id s), u, secret_group, ''secret'']
          else join ''.'' [dr_name s, str_int (dr_id s), secret_group, ''secret'']
      | None \<Rightarrow> join ''.'' [dr_name s, str_int (dr_id s), secret_group, ''secret''])"

definition secret_field :: "string \<Rightarrow> string" where
  "secret_field secret_group = ''secret-'' @ secret_group"

text \<open>The name and the id of the relation a label belongs to. Looking the relation up is left to the caller.\<close>

definition relation_from_secret_label :: "string \<Rightarrow> (string \<times> int) option" where
  "relation_from_secret_label label =
     (let contents = split_char (CHR ''.'') label
      in if length contents < 3 then None
         else case py_int (contents ! 1) of None \<Rightarrow> None | Some i \<Rightarrow> Some (contents ! 0, i))"

definition short_uuid_from_secret_label :: "string \<Rightarrow> string option" where
  "short_uuid_from_secret_label label =
     (let contents = split_char (CHR ''.'') label in if length contents < 5 then None else Some (contents ! 2))"


section \<open>Differences\<close>

record di_diff =
  added :: "string list"
  changed :: "string list"
  deleted :: "string list"

definition diff :: "(string, json) dict \<Rightarrow> (string, json) dict \<Rightarrow> di_diff" where
  "diff old new =
     \<lparr>added = filter (\<lambda>k. k \<notin> set (keys old)) (keys new),
      changed = filter (\<lambda>k. k \<in> set (keys new) \<and> \<not> json_eq (dget old k JNull) (dget new k JNull)) (keys old),
      deleted = filter (\<lambda>k. k \<notin> set (keys new)) (keys old)\<rparr>"

definition RESOURCE_ALIASES :: "string list" where
  "RESOURCE_ALIASES = [''database'', ''subject'', ''topic'', ''index'', ''plugin-url'', ''prefix'']"

definition resource_added :: "di_diff \<Rightarrow> bool" where
  "resource_added d = list_ex (\<lambda>item. item \<in> set (added d)) (RESOURCE_ALIASES @ [''resource''])"

text \<open>The answer is \<open>None\<close> when the field holds something else than a dictionary.\<close>

definition get_encoded_dict :: "(string, string) dict \<Rightarrow> string \<Rightarrow> exn + (string, json) dict option" where
  "get_encoded_dict d f =
     bindE (loads (dget d f ''{}'')) (\<lambda>j. case j of JDict kvs \<Rightarrow> Inr (Some kvs) | _ \<Rightarrow> Inr None)"

record di_request =
  rq_id :: "string option"
  rq_dump :: "(string, json) dict"

definition named_request :: "di_request \<Rightarrow> string option" where
  "named_request r = (case rq_id r of Some i \<Rightarrow> if i = [] then None else Some i | None \<Rightarrow> None)"

text \<open>Requests of version 0 are read with \<^verbatim>\<open>request_id = None\<close>, which the dump leaves out.\<close>

definition without_id :: "di_request \<Rightarrow> di_request" where
  "without_id r = r\<lparr>rq_id := None, rq_dump := ddel ''request-id'' (rq_dump r)\<rparr>"

text \<open>What was stored for a request: with an id, its entry of the stored dictionary.\<close>

definition old_data_of :: "di_request \<Rightarrow> (string, json) dict option \<Rightarrow> exn + (string, json) dict" where
  "old_data_of r stored =
     (case (stored, named_request r) of
        (None, _) \<Rightarrow> Inr []
      | (Some kvs, None) \<Rightarrow> Inr kvs
      | (Some kvs, Some i) \<Rightarrow>
          if kvs = [] then Inr []
          else case map_of kvs i of
                 None \<Rightarrow> Inr []
               | Some (JDict old) \<Rightarrow> Inr old
               | Some j \<Rightarrow> if json_true j then Inl AttributeError else Inr [])"

definition store_new_data :: "di_request \<Rightarrow> unit di" where
  "store_new_data r =
     (case named_request r of
        None \<Rightarrow> change_databag Own (dset ''data'' (dumps (JDict (rq_dump r))))
      | Some i \<Rightarrow>
          bindM (\<lambda>s. (get_encoded_dict (dr_own s) ''data'', s)) (\<lambda>stored.
            case stored of
              None \<Rightarrow> raise ValueError
            | Some kvs \<Rightarrow> change_databag Own (dset ''data'' (dumps (JDict (dset i (JDict (rq_dump r)) kvs))))))"

definition compute_diff :: "bool \<Rightarrow> di_request \<Rightarrow> di_diff di" where
  "compute_diff store r =
     bindM (\<lambda>s. (bindE (get_encoded_dict (dr_own s) ''data'') (old_data_of r), s)) (\<lambda>old.
       thenM (if store then store_new_data r else skip) (ret (diff old (rq_dump r))))"


section \<open>Events\<close>

datatype di_event =
    MtlsUpdated int di_request "string option"
  | ResourceRequested int di_request
  | EntityRequested int di_request
  | PermissionsChanged int di_request
  | BulkRequested int "di_request list"

definition validate_diff :: "di_diff \<Rightarrow> unit di" where
  "validate_diff d =
     (if list_ex (\<lambda>key. key \<in> set (changed d))
           [''resource'', ''entity-type'', ''entity-permissions'', ''extra-user-roles'', ''extra-group-roles'']
      then raise ValueError else skip)"

definition dispatch_events :: "(di_event \<Rightarrow> unit di) \<Rightarrow> bool \<Rightarrow> di_diff \<Rightarrow> di_request \<Rightarrow> unit di" where
  "dispatch_events emit mtls_enabled d request =
     bindM (readM dr_id) (\<lambda>rid.
       if mtls_enabled \<and> ''secret-mtls'' \<in> set (added d) then emit (MtlsUpdated rid request None)
       else if resource_added d \<and> ''entity-type'' \<notin> set (added d) then emit (ResourceRequested rid request)
       else if resource_added d \<and> ''entity-type'' \<in> set (added d) then emit (EntityRequested rid request)
       else if \<not> resource_added d \<and> ''entity-type'' \<notin> set (added d) \<and>
               (''entity-permissions'' \<in> set (added d) \<or> ''entity-permissions'' \<in> set (changed d))
            then emit (PermissionsChanged rid request)
       else skip)"

definition handle_event :: "(di_event \<Rightarrow> unit di) \<Rightarrow> bool \<Rightarrow> di_request \<Rightarrow> unit di" where
  "handle_event emit mtls_enabled request =
     bindM (compute_diff True request) (\<lambda>d. thenM (validate_diff d) (dispatch_events emit mtls_enabled d request))"

definition handle_bulk_event :: "(di_event \<Rightarrow> unit di) \<Rightarrow> di_request list \<Rightarrow> unit di" where
  "handle_bulk_event emit rs =
     thenM (forM rs (\<lambda>r. bindM (compute_diff False r) validate_diff))
       (thenM (bindM (readM dr_id) (\<lambda>rid. emit (BulkRequested rid rs)))
         (forM rs store_new_data))"

text \<open>
  The contract of version 0 is one request, with the name of the field that held the resource and the
  resource; that of version 1 is a list of requests.
\<close>

record contract =
  contract_v0 :: "(string, json) dict \<Rightarrow> exn + di_request \<times> string \<times> string"
  contract_v1 :: "(string, json) dict \<Rightarrow> exn + di_request list"

definition data_version :: "component \<Rightarrow> string di" where
  "data_version c = bindM (repo_get_field c ''version'') (\<lambda>v. ret (case v of Some x \<Rightarrow> if x = [] then ''v0'' else x | None \<Rightarrow> ''v0''))"

definition build_model :: "component \<Rightarrow> ((string, json) dict \<Rightarrow> exn + 'a) \<Rightarrow> 'a di" where
  "build_model c validate =
     bindM (repo_get_data c) (\<lambda>data. liftE (validate (ddel ''data'' (case data of None \<Rightarrow> [] | Some d \<Rightarrow> d))))"

definition on_relation_changed_event :: "(di_event \<Rightarrow> unit di) \<Rightarrow> bool \<Rightarrow> bool \<Rightarrow> contract \<Rightarrow> unit di" where
  "on_relation_changed_event emit mtls_enabled bulk_event con =
     bindM (readM dr_leader) (\<lambda>ld.
       if \<not> ld then skip
       else bindM (repo_get_data Remote) (\<lambda>data.
         if data = None \<or> data = Some [] then skip
         else bindM (data_version Remote) (\<lambda>version.
           if version = ''v0''
           then bindM (build_model Remote (contract_v0 con)) (\<lambda>(request, old_name, resource).
                  thenM (handle_event emit mtls_enabled (without_id request))
                    (repo_write_field Own old_name resource))
           else bindM (build_model Remote (contract_v1 con)) (\<lambda>requests.
                  if bulk_event then handle_bulk_event emit requests
                  else forM requests (handle_event emit mtls_enabled)))))"

definition provider_requests :: "contract \<Rightarrow> di_request list di" where
  "provider_requests con =
     bindM (repo_get_data Remote) (\<lambda>data.
       if data = None \<or> data = Some [] then ret []
       else bindM (data_version Remote) (\<lambda>version.
         if version = ''v0''
         then bindM (build_model Remote (contract_v0 con)) (\<lambda>(request, old_name, resource). ret [without_id request])
         else build_model Remote (contract_v1 con)))"

text \<open>
  A secret of a client changed. \<open>owned\<close> says whether this unit owns the secret, \<open>content\<close> is what
  the unit last saw of it.
\<close>

definition request_of_label :: "contract \<Rightarrow> string \<Rightarrow> di_request option di" where
  "request_of_label con label =
     bindM (data_version Remote) (\<lambda>version.
       if version = ''v0''
       then bindM (build_model Remote (contract_v0 con)) (\<lambda>(request, old_name, resource). ret (Some request))
       else bindM (build_model Remote (contract_v1 con)) (\<lambda>requests.
              case short_uuid_from_secret_label label of
                None \<Rightarrow> ret None
              | Some u \<Rightarrow> if u = [] then ret None else ret (find (\<lambda>r. rq_id r = Some u) requests)))"

definition di_on_secret_changed :: "(di_event \<Rightarrow> unit di) \<Rightarrow> bool \<Rightarrow> contract \<Rightarrow> string option \<Rightarrow> bool \<Rightarrow> (string, string) dict \<Rightarrow> unit di" where
  "di_on_secret_changed emit mtls_enabled con label owned content =
     (case label of
        None \<Rightarrow> skip
      | Some l \<Rightarrow>
          if \<not> mtls_enabled \<or> l = [] then skip
          else bindM (readM (\<lambda>s. relation_from_secret_label l = Some (dr_name s, dr_id s))) (\<lambda>mine.
            if \<not> mine \<or> owned then skip
            else bindM (request_of_label con l) (\<lambda>request.
              case request of
                None \<Rightarrow> skip
              | Some r \<Rightarrow> bindM (readM dr_id) (\<lambda>rid. emit (MtlsUpdated rid r (map_of content ''mtls-cert''))))))"



section \<open>Properties\<close>

subsection \<open>Labels\<close>

lemma label_parts:
  assumes "\<forall>x \<in> set xs. CHR ''.'' \<notin> set x" and "xs \<noteq> []"
  shows "split_char (CHR ''.'') (join ''.'' xs) = xs"
  using split_char_join [of xs "CHR ''.''"] assms by simp

lemma str_int_no_dot: "CHR ''.'' \<notin> set (str_int i)"
  using str_int_chars by (fastforce simp: is_digit_def)

text \<open>A label made for a secret of a relation, with or without the id of a request, names that relation and
  that request again, as long as the name of the relation, the group and the id have no dots.\<close>

theorem secret_label_roundtrip:
  assumes "CHR ''.'' \<notin> set (dr_name s)" and "CHR ''.'' \<notin> set secret_group"
    and "\<forall>u \<in> set_option short_uuid. u \<noteq> [] \<and> CHR ''.'' \<notin> set u"
  shows "relation_from_secret_label (generate_secret_label s secret_group short_uuid) = Some (dr_name s, dr_id s) \<and>
         short_uuid_from_secret_label (generate_secret_label s secret_group short_uuid) = short_uuid"
proof (cases short_uuid)
  case None
  then show ?thesis
    using label_parts [of "[dr_name s, str_int (dr_id s), secret_group, ''secret'']"] assms str_int_no_dot
    by (simp add: generate_secret_label_def relation_from_secret_label_def short_uuid_from_secret_label_def Let_def)
next
  case (Some u)
  then show ?thesis
    using label_parts [of "[dr_name s, str_int (dr_id s), u, secret_group, ''secret'']"] assms str_int_no_dot
    by (simp add: generate_secret_label_def relation_from_secret_label_def short_uuid_from_secret_label_def Let_def)
qed


subsection \<open>Requests are announced once\<close>

lemma json_eq_refl: "wf_json j \<Longrightarrow> json_eq j j"
proof (induction j)
  case (JList xs)
  then show ?case by (auto simp: list_all_iff in_set_zip)
next
  case (JDict kvs)
  have "map_of kvs k = Some v" if "(k, v) \<in> set kvs" for k v using JDict.prems that by simp
  moreover have "json_eq v v" if "(k, v) \<in> set kvs" for k v using JDict that by (fastforce simp: list_all_iff)
  ultimately show ?case by (auto simp: list_all_iff)
qed simp_all

text \<open>Two readings of one request. Without a salt from the client, each reading makes up its own.\<close>

definition same_request :: "di_request \<Rightarrow> di_request \<Rightarrow> bool" where
  "same_request r r' \<longleftrightarrow>
     named_request r = named_request r' \<and> (\<forall>k. k \<noteq> ''salt'' \<longrightarrow> map_of (rq_dump r) k = map_of (rq_dump r') k)"

definition wf_request :: "di_request \<Rightarrow> bool" where
  "wf_request r \<longleftrightarrow> wf_json (JDict (rq_dump r))"

lemma wf_request_keys: "wf_request r \<Longrightarrow> map_of (rq_dump r) k = Some v \<Longrightarrow> wf_json v"
  by (auto simp: wf_request_def list_all_iff dest: map_of_SomeD)

lemma diff_same:
  assumes "same_request r r'" and "wf_request r"
  shows "set (added (diff (rq_dump r) (rq_dump r'))) \<subseteq> {''salt''}"
    and "set (changed (diff (rq_dump r) (rq_dump r'))) \<subseteq> {''salt''}"
proof -
  show "set (added (diff (rq_dump r) (rq_dump r'))) \<subseteq> {''salt''}"
    using assms by (force simp: diff_def same_request_def)
  show "set (changed (diff (rq_dump r) (rq_dump r'))) \<subseteq> {''salt''}"
  proof
    fix k assume k: "k \<in> set (changed (diff (rq_dump r) (rq_dump r')))"
    then obtain v where v: "map_of (rq_dump r) k = Some v" by (auto simp: diff_def)
    show "k \<in> {''salt''}"
    proof (rule ccontr)
      assume "k \<notin> {''salt''}"
      then have "map_of (rq_dump r') k = Some v" using v assms(1) by (simp add: same_request_def)
      with k v json_eq_refl [OF wf_request_keys [OF assms(2) v]] show False by (simp add: diff_def dget_def)
    qed
  qed
qed

lemma settled_diff:
  assumes "set (added d) \<subseteq> {''salt''}" and "set (changed d) \<subseteq> {''salt''}"
  shows "validate_diff d = skip" and "dispatch_events em m d r s = (Inr (), s)"
proof -
  have no: "k \<notin> set (added d)" "k \<notin> set (changed d)" if "k \<noteq> ''salt''" for k using assms that by auto
  show "validate_diff d = skip" by (simp add: validate_diff_def no)
  show "dispatch_events em m d r s = (Inr (), s)"
    by (simp add: dispatch_events_def resource_added_def RESOURCE_ALIASES_def no bindM_apply)
qed


text \<open>The dictionary the databag holds of what was handled, and whether it has a request.\<close>

definition stored :: "client_relation \<Rightarrow> (string, json) dict \<Rightarrow> bool" where
  "stored s kvs \<longleftrightarrow> get_encoded_dict (dr_own s) ''data'' = Inr (Some kvs) \<and> wf_json (JDict kvs)"

definition recorded :: "client_relation \<Rightarrow> di_request \<Rightarrow> bool" where
  "recorded s r \<longleftrightarrow>
     (\<exists>kvs. stored s kvs \<and>
        (case named_request r of None \<Rightarrow> kvs = rq_dump r | Some i \<Rightarrow> map_of kvs i = Some (JDict (rq_dump r))))"

text \<open>Two states that differ in what is stored of the requests at most.\<close>

definition same_but_data :: "client_relation \<Rightarrow> client_relation \<Rightarrow> bool" where
  "same_but_data s s' \<longleftrightarrow>
     s'\<lparr>dr_own := dr_own s\<rparr> = s \<and> (\<forall>k. k \<noteq> ''data'' \<longrightarrow> map_of (dr_own s') k = map_of (dr_own s) k)"

lemma same_but_data_refl [simp]: "same_but_data s s"
  by (simp add: same_but_data_def)

lemma same_but_data_trans: "same_but_data s s' \<Longrightarrow> same_but_data s' s'' \<Longrightarrow> same_but_data s s''"
  unfolding same_but_data_def by (cases s; cases s'; cases s'') auto

lemma stored_unique: "stored s kvs \<Longrightarrow> stored s kvs' \<Longrightarrow> kvs = kvs'"
  by (simp add: stored_def)

lemma wf_json_dset: "wf_json (JDict kvs) \<Longrightarrow> wf_json j \<Longrightarrow> wf_json (JDict (dset k j kvs))"
  using pydict.invar_upd [of kvs k j] set_dset [of k j kvs]
  by (auto simp: list_all_iff wf_dict_def keys_def)

lemma stored_dset:
  "wf_json (JDict kvs) \<Longrightarrow> stored (s\<lparr>dr_own := dset ''data'' (dumps (JDict kvs)) (dr_own s)\<rparr>) kvs"
  using loads_dumps [of "JDict kvs"] by (simp add: stored_def get_encoded_dict_def del: dumps.simps)

lemma store_new_data_run:
  assumes "stored s kvs" and "wf_request r"
  obtains s' kvs' where "store_new_data r s = (Inr (), s')" "same_but_data s s'" "stored s' kvs'"
    "kvs' = (case named_request r of None \<Rightarrow> rq_dump r | Some i \<Rightarrow> dset i (JDict (rq_dump r)) kvs)"
proof -
  let ?kvs = "case named_request r of None \<Rightarrow> rq_dump r | Some i \<Rightarrow> dset i (JDict (rq_dump r)) kvs"
  let ?s = "s\<lparr>dr_own := dset ''data'' (dumps (JDict ?kvs)) (dr_own s)\<rparr>"
  have "wf_json (JDict ?kvs)"
    using assms wf_json_dset [of kvs "JDict (rq_dump r)"] by (auto simp: stored_def wf_request_def split: option.splits)
  then have "stored ?s ?kvs" by (rule stored_dset)
  moreover have "store_new_data r s = (Inr (), ?s)"
    using assms(1) by (simp add: store_new_data_def change_databag_def stored_def bindM_apply split: option.splits)
  moreover have "same_but_data s ?s" by (simp add: same_but_data_def)
  ultimately show ?thesis using that by blast
qed


definition apart :: "di_request \<Rightarrow> di_request \<Rightarrow> bool" where
  "apart q r \<longleftrightarrow> named_request q \<noteq> None \<and> named_request r \<noteq> None \<and> named_request q \<noteq> named_request r"

lemma store_records:
  assumes "stored s kvs" and "wf_request r"
  obtains s' where "store_new_data r s = (Inr (), s')" "same_but_data s s'" "recorded s' r"
    "\<And>q. recorded s q \<Longrightarrow> apart q r \<Longrightarrow> recorded s' q"
proof -
  obtain s' kvs' where s': "store_new_data r s = (Inr (), s')" "same_but_data s s'" "stored s' kvs'"
    and kvs': "kvs' = (case named_request r of None \<Rightarrow> rq_dump r | Some i \<Rightarrow> dset i (JDict (rq_dump r)) kvs)"
    using store_new_data_run [OF assms] by blast
  have "recorded s' r" using s'(3) kvs' by (auto simp: recorded_def split: option.splits)
  moreover have "recorded s' q" if q: "recorded s q" "apart q r" for q
  proof -
    obtain i j where "named_request q = Some i" "named_request r = Some j" "i \<noteq> j" using q(2) by (auto simp: apart_def)
    with q(1) assms(1) s'(3) kvs' show ?thesis by (auto simp: recorded_def dest: stored_unique)
  qed
  ultimately show ?thesis using s'(1,2) that by blast
qed

lemma recorded_stored: "recorded s r \<Longrightarrow> \<exists>kvs. stored s kvs"
  by (auto simp: recorded_def)

lemma stored_old_data: "stored s kvs \<Longrightarrow> bindE (get_encoded_dict (dr_own s) ''data'') (old_data_of r) = old_data_of r (Some kvs)"
  by (simp add: stored_def)

lemma recorded_old_data: "recorded s r \<Longrightarrow> same_request r r' \<Longrightarrow> bindE (get_encoded_dict (dr_own s) ''data'') (old_data_of r') = Inr (rq_dump r)"
  by (auto simp: recorded_def same_request_def stored_old_data old_data_of_def split: option.splits)

lemma handle_again:
  assumes "recorded s r" and "same_request r r'" and "wf_request r" and "wf_request r'"
  obtains s' where "handle_event em m r' s = (Inr (), s')" "same_but_data s s'"
    "\<And>q. recorded s q \<Longrightarrow> apart q r' \<Longrightarrow> recorded s' q"
proof -
  obtain kvs where "stored s kvs" using assms(1) recorded_stored by blast
  then obtain s' where s': "store_new_data r' s = (Inr (), s')" "same_but_data s s'"
    "\<And>q. recorded s q \<Longrightarrow> apart q r' \<Longrightarrow> recorded s' q"
    using store_records [OF _ assms(4)] by blast
  note d = settled_diff [OF diff_same [OF assms(2,3)]]
  have "compute_diff True r' s = (Inr (diff (rq_dump r) (rq_dump r')), s')"
    using s'(1) recorded_old_data [OF assms(1,2)] by (simp add: compute_diff_def bindM_apply thenM_apply)
  then have "handle_event em m r' s = (Inr (), s')"
    by (simp add: handle_event_def bindM_apply thenM_apply d)
  with s' show ?thesis using that by blast
qed

text \<open>Handlers of the events leave the record of the requests alone.\<close>

definition quiet :: "(di_event \<Rightarrow> unit di) \<Rightarrow> bool" where
  "quiet em \<longleftrightarrow>
     (\<forall>ev s. let s' = snd (em ev s)
             in map_of (dr_own s') ''data'' = map_of (dr_own s) ''data'' \<and> dr_remote s' = dr_remote s \<and> dr_leader s' = dr_leader s)"

definition same_side :: "client_relation \<Rightarrow> client_relation \<Rightarrow> bool" where
  "same_side s s' \<longleftrightarrow> dr_remote s' = dr_remote s \<and> dr_leader s' = dr_leader s"

lemma recorded_cong: "map_of (dr_own s') ''data'' = map_of (dr_own s) ''data'' \<Longrightarrow> recorded s' r = recorded s r"
  by (simp add: recorded_def stored_def get_encoded_dict_def dget_def)

lemma same_side_data: "same_but_data s s' \<Longrightarrow> same_side s s'"
  unfolding same_but_data_def same_side_def by (cases s; cases s') auto

lemma dispatch_emits: "dispatch_events em m d r s \<in> insert (Inr (), s) (range (\<lambda>ev. em ev s))"
  by (simp add: dispatch_events_def bindM_apply)

lemma dispatch_quiet:
  assumes "quiet em" and "dispatch_events em m d r s = (x, s')"
  shows "recorded s' q = recorded s q" and "same_side s s'"
proof -
  have em: "map_of (dr_own s1) ''data'' = map_of (dr_own s) ''data'' \<and> same_side s s1" if "em ev s = (y, s1)" for ev y s1
  proof -
    from assms(1) have "let s' = snd (em ev s)
      in map_of (dr_own s') ''data'' = map_of (dr_own s) ''data'' \<and> dr_remote s' = dr_remote s \<and> dr_leader s' = dr_leader s"
      unfolding quiet_def by blast
    with that show ?thesis by (simp add: same_side_def Let_def)
  qed
  have "map_of (dr_own s') ''data'' = map_of (dr_own s) ''data'' \<and> same_side s s'"
  proof -
    from assms(2) have "(x, s') \<in> insert (Inr (), s) (range (\<lambda>ev. em ev s))" using dispatch_emits by metis
    then consider "s' = s" | ev where "em ev s = (x, s')" by (auto simp: image_iff dest: sym)
    then show ?thesis by cases (simp add: same_side_def, rule em)
  qed
  then show "recorded s' q = recorded s q" "same_side s s'" using recorded_cong [of s' s q] by simp_all
qed

lemma handle_records:
  assumes "handle_event em m r s = (Inr (), s')" and "quiet em" and "stored s kvs" and "wf_request r"
  shows "recorded s' r" and "same_side s s'" and "recorded s q \<Longrightarrow> apart q r \<Longrightarrow> recorded s' q"
proof -
  obtain s1 where s1: "store_new_data r s = (Inr (), s1)" "same_but_data s s1" "recorded s1 r"
    "\<And>q. recorded s q \<Longrightarrow> apart q r \<Longrightarrow> recorded s1 q"
    using store_records [OF assms(3,4)] by blast
  from assms(1) s1(1) obtain d where "dispatch_events em m d r s1 = (Inr (), s')"
    by (auto simp: handle_event_def compute_diff_def bindM_apply thenM_apply validate_diff_def split: sum.splits prod.splits if_splits)
  note q = dispatch_quiet [OF assms(2) this]
  show "recorded s' r" using q(1) s1(3) by blast
  show "same_side s s'" using q(2) same_side_data [OF s1(2)] by (simp add: same_side_def)
  show "recorded s q \<Longrightarrow> apart q r \<Longrightarrow> recorded s' q" using q(1) s1(4) by blast
qed


lemma apart_same: "same_request r r' \<Longrightarrow> apart q r' = apart q r"
  by (simp add: apart_def same_request_def)

lemma apart_sym: "apart q r = apart r q"
  by (auto simp: apart_def)

lemma forM_records:
  assumes "forM rs (handle_event em m) s = (Inr (), s')" and "quiet em" and "\<exists>kvs. stored s kvs"
    and "\<forall>r \<in> set rs. wf_request r" and "sorted_wrt apart rs"
  shows "(\<forall>r \<in> set rs. recorded s' r) \<and> same_side s s' \<and> (\<forall>q. recorded s q \<longrightarrow> (\<forall>r \<in> set rs. apart q r) \<longrightarrow> recorded s' q)"
  using assms
proof (induction rs arbitrary: s)
  case Nil
  then show ?case by (simp add: same_side_def)
next
  case (Cons r rs)
  from Cons.prems(1) obtain s1 where s1: "handle_event em m r s = (Inr (), s1)" "forM rs (handle_event em m) s1 = (Inr (), s')"
    by (auto simp: thenM_apply split: sum.splits prod.splits)
  obtain kvs where kvs: "stored s kvs" using Cons.prems(3) by blast
  have wf: "wf_request r" using Cons.prems(4) by simp
  note h = handle_records [OF s1(1) Cons.prems(2) kvs wf]
  have IH: "(\<forall>r \<in> set rs. recorded s' r) \<and> same_side s1 s' \<and> (\<forall>q. recorded s1 q \<longrightarrow> (\<forall>r \<in> set rs. apart q r) \<longrightarrow> recorded s' q)"
    using Cons.IH [OF s1(2) Cons.prems(2)] recorded_stored [OF h(1)] Cons.prems(4,5) by auto
  have "recorded s' r" using IH h(1) Cons.prems(5) by simp
  moreover have "recorded s' q" if "recorded s q" "apart q r" "\<forall>r \<in> set rs. apart q r" for q
    using h(3) [OF that(1,2)] IH that(3) by blast
  ultimately show ?case using IH h(2) by (simp add: same_side_def)
qed

lemma forM_again:
  assumes "list_all2 same_request rs rs'" and "\<forall>r \<in> set rs. recorded s r \<and> wf_request r" and "\<forall>r \<in> set rs'. wf_request r"
    and "sorted_wrt apart rs"
  shows "\<exists>s'. forM rs' (handle_event em m) s = (Inr (), s') \<and> same_but_data s s'"
  using assms
proof (induction rs rs' arbitrary: s rule: list_all2_induct)
  case (Cons r rs r' rs')
  have r: "recorded s r" "wf_request r" "wf_request r'" using Cons.prems by simp_all
  obtain s1 where s1: "handle_event em m r' s = (Inr (), s1)" "same_but_data s s1"
    "\<And>q. recorded s q \<Longrightarrow> apart q r' \<Longrightarrow> recorded s1 q"
    using handle_again [OF r(1) Cons.hyps(1) r(2,3)] by blast
  have "\<forall>q \<in> set rs. recorded s1 q \<and> wf_request q"
    using Cons.prems s1(3) apart_same [OF Cons.hyps(1)] apart_sym by auto
  then obtain s2 where "forM rs' (handle_event em m) s1 = (Inr (), s2)" "same_but_data s1 s2"
    using Cons.IH [of s1] Cons.prems by auto
  with s1 show ?case by (auto simp: thenM_apply intro: same_but_data_trans)
qed simp


text \<open>
  Two readings of the client's databag: the same requests up to made-up salts, in version 1 with
  ids that are present and distinct, in version 0 with a resource field that is not the one the
  library keeps its record in.
\<close>

definition rereads :: "contract \<Rightarrow> contract \<Rightarrow> (string, json) dict \<Rightarrow> bool" where
  "rereads con con' d \<longleftrightarrow>
     (\<forall>r n x. contract_v0 con d = Inr (r, n, x) \<longrightarrow>
        n \<noteq> ''data'' \<and> wf_request (without_id r) \<and>
        (\<exists>r'. contract_v0 con' d = Inr (r', n, x) \<and> same_request (without_id r) (without_id r') \<and> wf_request (without_id r'))) \<and>
     (\<forall>rs. contract_v1 con d = Inr rs \<longrightarrow>
        (\<forall>r \<in> set rs. wf_request r) \<and> sorted_wrt apart rs \<and>
        (\<exists>rs'. contract_v1 con' d = Inr rs' \<and> list_all2 same_request rs rs' \<and> (\<forall>r \<in> set rs'. wf_request r)))"

lemma read_remote:
  "repo_get_data Remote s = (Inr (Some (decoded (dr_remote s))), s)"
  "build_model Remote f s = (f (ddel ''data'' (decoded (dr_remote s))), s)"
  by (simp_all add: build_model_def repo_get_data_def ensure_leader_for_app_def databag_def bindM_apply split: sum.splits)

definition version_of :: "(string, string) dict \<Rightarrow> string" where
  "version_of d = (case map_of d ''version'' of Some x \<Rightarrow> if x = [] then ''v0'' else x | None \<Rightarrow> ''v0'')"

lemma read_version: "data_version Remote s = (Inr (version_of (dr_remote s)), s)"
  by (simp add: data_version_def repo_get_field_def ensure_leader_for_app_def databag_def bindM_apply version_of_def)

lemma write_own: "dr_leader s \<Longrightarrow> repo_write_field Own n x s = (Inr (), if x = [] then s else s\<lparr>dr_own := dset n x (dr_own s)\<rparr>)"
  by (simp add: repo_write_field_def ensure_leader_for_app_def change_databag_def bindM_apply)

text \<open>Handling the one request of version 0, and the same again.\<close>

lemma v0_again:
  assumes "thenM (handle_event em m r) (repo_write_field Own n x) s = (Inr (), s')"
    and "dr_leader s" and "quiet em" and "stored s kvs" and "wf_request r" and "n \<noteq> ''data''"
    and "same_request r r'" and "wf_request r'"
  shows "\<exists>s''. thenM (handle_event em' m r') (repo_write_field Own n x) s' = (Inr (), s'') \<and> same_but_data s' s''"
    and "same_side s s'"
proof -
  from assms(1) obtain s1 where s1: "handle_event em m r s = (Inr (), s1)" "repo_write_field Own n x s1 = (Inr (), s')"
    by (auto simp: thenM_apply split: sum.splits prod.splits)
  note h = handle_records [OF s1(1) assms(3-5)]
  have ld: "dr_leader s1" using h(2) assms(2) by (simp add: same_side_def)
  then have s': "s' = (if x = [] then s1 else s1\<lparr>dr_own := dset n x (dr_own s1)\<rparr>)" using s1(2) by (simp add: write_own)
  then show side: "same_side s s'" using h(2) by (simp add: same_side_def)
  have "recorded s' r" using h(1) recorded_cong [of s' s1] assms(6) s' by simp
  then obtain s2 where s2: "handle_event em' m r' s' = (Inr (), s2)" "same_but_data s' s2"
    using handle_again [OF _ assms(7,5,8)] by blast
  have "dr_leader s2" using same_side_data [OF s2(2)] side assms(2) by (simp add: same_side_def)
  moreover have "same_but_data s' (s2\<lparr>dr_own := dset n x (dr_own s2)\<rparr>)" if "x \<noteq> []"
    using s2(2) s' that assms(6) by (auto simp: same_but_data_def)
  ultimately show "\<exists>s''. thenM (handle_event em' m r') (repo_write_field Own n x) s' = (Inr (), s'') \<and> same_but_data s' s''"
    using s2 by (auto simp: thenM_apply write_own)
qed

text \<open>C12: once the requests of a client have been handled, handling the same databag again, also after its
  own handlers wrote to the relation, emits no event at all (not even one whose handler fails) and changes
  nothing but the record of what was handled.\<close>

theorem requests_announced_once:
  assumes "on_relation_changed_event em mtls False con s = (Inr (), s')"
    and "quiet em" and "stored s kvs" and "rereads con con' (ddel ''data'' (decoded (dr_remote s)))"
  shows "\<exists>s''. on_relation_changed_event em' mtls False con' s' = (Inr (), s'') \<and> same_but_data s' s''"
proof (cases "dr_leader s \<and> dr_remote s \<noteq> []")
  case False
  with assms(1) have "s' = s" by (auto simp: on_relation_changed_event_def bindM_apply read_remote decoded_def split: if_splits)
  with False show ?thesis by (auto simp: on_relation_changed_event_def bindM_apply read_remote decoded_def)
next
  case True
  let ?d = "ddel ''data'' (decoded (dr_remote s))"
  have some: "decoded (dr_remote s) \<noteq> []" using True by (simp add: decoded_def)
  show ?thesis
  proof (cases "version_of (dr_remote s) = ''v0''")
    case v0: True
    with assms(1) True some obtain r n x where r: "contract_v0 con ?d = Inr (r, n, x)"
      "thenM (handle_event em mtls (without_id r)) (repo_write_field Own n x) s = (Inr (), s')"
      by (auto simp: on_relation_changed_event_def bindM_apply read_remote read_version split: sum.splits)
    then obtain r' where r': "contract_v0 con' ?d = Inr (r', n, x)" "same_request (without_id r) (without_id r')"
      "wf_request (without_id r)" "wf_request (without_id r')" "n \<noteq> ''data''"
      using assms(4) unfolding rereads_def by blast
    note again = v0_again [OF r(2) _ assms(2,3) r'(3,5,2,4)]
    have "dr_remote s' = dr_remote s" "dr_leader s'" using again(2) True by (simp_all add: same_side_def)
    with again(1) [of em'] True v0 some r'(1) show ?thesis
      by (simp add: on_relation_changed_event_def bindM_apply read_remote read_version)
  next
    case v1: False
    with assms(1) True some obtain rs where rs: "contract_v1 con ?d = Inr rs" "forM rs (handle_event em mtls) s = (Inr (), s')"
      by (auto simp: on_relation_changed_event_def bindM_apply read_remote read_version split: sum.splits)
    then obtain rs' where rs': "contract_v1 con' ?d = Inr rs'" "list_all2 same_request rs rs'"
      "\<forall>r \<in> set rs. wf_request r" "sorted_wrt apart rs" "\<forall>r \<in> set rs'. wf_request r"
      using assms(4) unfolding rereads_def by blast
    have rec: "(\<forall>r \<in> set rs. recorded s' r) \<and> same_side s s'"
      using forM_records [OF rs(2) assms(2) _ rs'(3,4)] assms(3) by blast
    then have "dr_remote s' = dr_remote s" "dr_leader s'" using True by (simp_all add: same_side_def)
    with forM_again [OF rs'(2) _ rs'(5,4), of s' em' mtls] rec rs'(1,3) True v1 some show ?thesis
      by (simp add: on_relation_changed_event_def bindM_apply read_remote read_version)
  qed
qed


lemma new_request_added:
  "named_request r = Some i \<Longrightarrow> map_of kvs i = None \<Longrightarrow> old_data_of r (Some kvs) = Inr []"
  by (simp add: old_data_of_def)

text \<open>C13: a request that was not handled before and names a resource is announced by exactly one event, after it
  was recorded: a changed client certificate if it brings one, else a request for an entity if it
  names its type, else a request for the resource.\<close>

theorem new_request_announced:
  assumes "stored s kvs" and "wf_request r" and "named_request r = Some i" and "map_of kvs i = None"
    and "''resource'' \<in> set (keys (rq_dump r))"
  shows "\<exists>s'. recorded s' r \<and> same_but_data s s' \<and>
     handle_event em mtls r s =
       em (if mtls \<and> ''secret-mtls'' \<in> set (keys (rq_dump r)) then MtlsUpdated (dr_id s) r None
           else if ''entity-type'' \<in> set (keys (rq_dump r)) then EntityRequested (dr_id s) r
           else ResourceRequested (dr_id s) r) s'"
proof -
  obtain s' where s': "store_new_data r s = (Inr (), s')" "same_but_data s s'" "recorded s' r"
    using store_records [OF assms(1,2)] by blast
  let ?d = "diff [] (rq_dump r)"
  have d: "added ?d = keys (rq_dump r)" "changed ?d = []" by (simp_all add: diff_def keys_def)
  have "compute_diff True r s = (Inr ?d, s')"
    using s'(1) stored_old_data [OF assms(1), of r] new_request_added [OF assms(3,4)]
    by (simp add: compute_diff_def bindM_apply thenM_apply)
  moreover have "resource_added ?d" using assms(5) d by (simp add: resource_added_def)
  moreover have "dr_id s' = dr_id s" using s'(2) unfolding same_but_data_def by (cases s; cases s') auto
  ultimately have "handle_event em mtls r s =
      em (if mtls \<and> ''secret-mtls'' \<in> set (keys (rq_dump r)) then MtlsUpdated (dr_id s) r None
          else if ''entity-type'' \<in> set (keys (rq_dump r)) then EntityRequested (dr_id s) r
          else ResourceRequested (dr_id s) r) s'"
    by (simp add: handle_event_def dispatch_events_def validate_diff_def bindM_apply thenM_apply d del: set_keys)
  with s' show ?thesis by blast
qed

text \<open>An example: a relation of version 1 with one request.\<close>

definition sample_request :: di_request where
  "sample_request = \<lparr>rq_id = Some ''r1'', rq_dump = [(''resource'', JStr ''orders''), (''salt'', JStr ''x''), (''request-id'', JStr ''r1'')]\<rparr>"

definition sample_relation :: client_relation where
  "sample_relation =
     \<lparr>dr_name = ''kafka-client'', dr_id = 7, dr_leader = True, dr_own = [], dr_remote = [(''version'', ''v1''), (''requests'', ''[]'')],
      dr_labels = [], dr_secrets = []\<rparr>"

definition sample_contract :: contract where
  "sample_contract = \<lparr>contract_v0 = \<lambda>d. Inl ValueError, contract_v1 = \<lambda>d. Inr [sample_request]\<rparr>"

lemma sample_stored: "stored sample_relation []"
proof -
  have "get_encoded_dict (dr_own sample_relation) ''data'' = Inr (Some [])" by code_simp
  then show ?thesis by (simp add: stored_def)
qed

lemma sample_wf: "wf_request sample_request" "named_request sample_request = Some ''r1''"
  "same_request sample_request sample_request" "''resource'' \<in> set (keys (rq_dump sample_request))"
  by (simp_all add: wf_request_def sample_request_def named_request_def same_request_def)

theorem secret_label_roundtrip_witness:
  "relation_from_secret_label (generate_secret_label sample_relation ''user'' (Some ''r1'')) = Some (''kafka-client'', 7)"
  using secret_label_roundtrip [of sample_relation "''user''" "Some ''r1''"] by (simp add: sample_relation_def)

theorem new_request_announced_witness:
  "\<exists>s'. recorded s' sample_request \<and>
     handle_event (\<lambda>e. raise ValueError) True sample_request sample_relation = (Inl ValueError, s')"
  using new_request_announced [OF sample_stored sample_wf(1,2) _ sample_wf(4), of "\<lambda>e. raise ValueError" True]
  by (auto simp: raise_def)

theorem requests_announced_once_witness:
  "\<exists>s''. on_relation_changed_event (\<lambda>e. raise ValueError) True False sample_contract
     (snd (on_relation_changed_event (\<lambda>e. skip) True False sample_contract sample_relation)) = (Inr (), s'')"
proof -
  let ?r = "on_relation_changed_event (\<lambda>e. skip) True False sample_contract sample_relation"
  have "fst ?r = Inr ()" by code_simp
  then have run: "?r = (Inr (), snd ?r)" by (metis prod.collapse)
  have "quiet (\<lambda>e. skip)" by (simp add: quiet_def)
  moreover have "rereads sample_contract sample_contract d" for d
    using sample_wf by (simp add: rereads_def sample_contract_def)
  ultimately show ?thesis using requests_announced_once [OF run _ sample_stored] by blast
qed

end
