(* ===== verification/Responses.thy ===== *)
theory Responses
  imports Data_Interfaces
begin

text \<open>
  The responses of the provider in \<^verbatim>\<open>data_platform_libs/v1/data_interfaces.py\<close>: secrets found by label, the
  serialisation of a response with its secret fields, \<^verbatim>\<open>set_response\<close> for both versions of the data
  contract, and how \<^verbatim>\<open>RelationStateV1\<close> of \<^verbatim>\<open>core/models.py\<close> reads a side of the relation back. The ids of
  new secrets (\<open>new_id\<close>) and the hash that stands for a missing request id (\<open>gen_hash\<close>) are parameters.
\<close>

section \<open>Secrets\<close>

text \<open>
  \<^verbatim>\<open>CachedSecret.meta\<close>: by label, else by id, and then the secret gets the label. An id that Juju does not
  know raises, since its message is not among the known errors.
\<close>

definition get_secret :: "string \<Rightarrow> string option \<Rightarrow> string option \<Rightarrow> string option di" where
  "get_secret secret_group secret_uri short_uuid =
     bindM (readM (\<lambda>s. generate_secret_label s secret_group short_uuid)) (\<lambda>label.
     bindM (readM (\<lambda>s. map_of (dr_labels s) label)) (\<lambda>found.
       case (found, secret_uri) of
         (Some i, _) \<Rightarrow> ret (Some i)
       | (None, None) \<Rightarrow> ret None
       | (None, Some uri) \<Rightarrow>
           if uri = [] then ret None
           else bindM (readM (\<lambda>s. uri \<in> set (keys (dr_secrets s)))) (\<lambda>known.
             if known then thenM (modM (\<lambda>s. s\<lparr>dr_labels := dset label uri (dr_labels s)\<rparr>)) (ret (Some uri))
             else raise (PyException ''SecretNotFoundError''))))"

definition secret_content :: "client_relation \<Rightarrow> string \<Rightarrow> (string, string) dict" where
  "secret_content s i = dget (dr_secrets s) i []"

definition remove_secret :: "string \<Rightarrow> client_relation \<Rightarrow> client_relation" where
  "remove_secret i s =
     s\<lparr>dr_secrets := ddel i (dr_secrets s), dr_labels := filter (\<lambda>li. snd li \<noteq> i) (dr_labels s)\<rparr>"

definition set_content :: "string \<Rightarrow> (string, string) dict \<Rightarrow> unit di" where
  "set_content i content =
     bindM (readM (\<lambda>s. secret_content s i)) (\<lambda>old.
       if content = old then skip
       else if content \<noteq> [] then modM (\<lambda>s. s\<lparr>dr_secrets := dset i content (dr_secrets s)\<rparr>)
       else modM (remove_secret i))"

definition add_secret :: "(client_relation \<Rightarrow> string) \<Rightarrow> string \<Rightarrow> string \<Rightarrow> string \<Rightarrow> string option \<Rightarrow> string option di" where
  "add_secret new_id field value secret_group short_uuid =
     ensure_leader_for_app Own None
       (bindM (readM (\<lambda>s. (new_id s, generate_secret_label s secret_group short_uuid))) (\<lambda>(i, label).
          thenM (modM (\<lambda>s. s\<lparr>dr_secrets := dset i [(field, value)] (dr_secrets s), dr_labels := dset label i (dr_labels s)\<rparr>))
            (ret (Some i))))"

definition delete_secret_labelled :: "string \<Rightarrow> unit di" where
  "delete_secret_labelled label =
     ensure_leader_for_app Own ()
       (modM (\<lambda>s. case map_of (dr_labels s) label of None \<Rightarrow> s | Some i \<Rightarrow> remove_secret i s))"


section \<open>Responses\<close>

text \<open>
  The fields of a response that were set: those that are serialised as they are, by their
  aliases, and those that are kept in secrets.
\<close>

record response =
  rs_public :: "(string, json) dict"
  rs_private :: "(string, string) dict"

text \<open>
  The secret fields of \<^verbatim>\<open>KafkaCompatibilityResponseModel\<close> with their groups. Its \<^verbatim>\<open>tls\<close> and
  \<^verbatim>\<open>consumer_group_prefix\<close> are plain fields.
\<close>

definition PRIVATE_FIELDS :: "(string \<times> string) list" where
  "PRIVATE_FIELDS =
     [(''username'', ''user''), (''password'', ''user''), (''uris'', ''user''), (''read-only-uris'', ''user''), (''tls-ca'', ''tls''),
      (''entity-name'', ''entity''), (''entity-password'', ''entity''), (''zookeeper-uris'', ''extra'')]"

definition RESPONSE_DEFAULTS :: "(string, json) dict" where
  "RESPONSE_DEFAULTS =
     [(''resource'', JStr []), (''request-id'', JNull), (''endpoints'', JNull), (''read-only-endpoints'', JNull),
      (''secret-user'', JNull), (''secret-tls'', JNull), (''secret-extra'', JNull), (''secret-entity'', JNull),
      (''version'', JNull), (''tls'', JNull), (''consumer-group-prefix'', JNull)]"

definition text_field :: "(string, json) dict \<Rightarrow> string \<Rightarrow> string option" where
  "text_field d k = (case map_of d k of Some (JStr v) \<Rightarrow> Some v | _ \<Rightarrow> None)"

definition dget_text :: "(string, json) dict \<Rightarrow> string \<Rightarrow> string" where
  "dget_text d k = (case text_field d k of Some v \<Rightarrow> v | None \<Rightarrow> [])"

definition response_uuid :: "(string \<Rightarrow> string \<Rightarrow> string) \<Rightarrow> response \<Rightarrow> string" where
  "response_uuid gen_hash r =
     (case text_field (rs_public r) ''request-id'' of
        Some i \<Rightarrow> if i \<noteq> [] then i else gen_hash (dget_text (rs_public r) ''resource'') (dget_text (rs_public r) ''salt'')
      | None \<Rightarrow> gen_hash (dget_text (rs_public r) ''resource'') (dget_text (rs_public r) ''salt''))"

definition put_public :: "string \<Rightarrow> json \<Rightarrow> response \<Rightarrow> response" where
  "put_public k j r = r\<lparr>rs_public := dset k j (rs_public r)\<rparr>"

definition extract_secret :: "string \<Rightarrow> string \<times> string \<Rightarrow> response \<Rightarrow> response di" where
  "extract_secret short_uuid fg r =
     (case fg of (field, secret_group) \<Rightarrow>
        (case text_field (rs_public r) (secret_field secret_group) of
           None \<Rightarrow> ret r
         | Some uri \<Rightarrow>
             if uri = [] then ret r
             else bindM (get_secret secret_group (Some uri) (Some short_uuid)) (\<lambda>secret.
               case secret of
                 None \<Rightarrow> ret r
               | Some i \<Rightarrow> bindM (readM (\<lambda>s. map_of (secret_content s i) field)) (\<lambda>value.
                   ret (r\<lparr>rs_private := (case value of None \<Rightarrow> ddel field (rs_private r) | Some v \<Rightarrow> dset field v (rs_private r))\<rparr>)))))"

definition serialize_secret :: "(client_relation \<Rightarrow> string) \<Rightarrow> string option \<Rightarrow> string \<times> string \<Rightarrow> response \<Rightarrow> response di" where
  "serialize_secret new_id short_uuid fg r =
     (case fg of (field, secret_group) \<Rightarrow>
        bindM (get_secret secret_group (text_field (rs_public r) (secret_field secret_group)) short_uuid) (\<lambda>secret.
          case secret of
            None \<Rightarrow>
              (case map_of (rs_private r) field of
                 None \<Rightarrow> ret r
               | Some value \<Rightarrow>
                   if value = [] then ret r
                   else bindM (add_secret new_id field value secret_group short_uuid) (\<lambda>new.
                     case new of
                       None \<Rightarrow> raise (PyException ''SecretError'')
                     | Some i \<Rightarrow> ret (put_public (secret_field secret_group) (JStr i) r)))
          | Some i \<Rightarrow>
              bindM (readM (\<lambda>s. secret_content s i)) (\<lambda>content.
                let full_content = (case map_of (rs_private r) field of None \<Rightarrow> ddel field content | Some v \<Rightarrow> dset field v content);
                    r' = put_public (secret_field secret_group) (JStr i) r
                in thenM (set_content i full_content)
                     (if full_content \<noteq> [] then ret r'
                      else bindM (readM (\<lambda>s. generate_secret_label s secret_group short_uuid)) (\<lambda>label.
                        thenM (delete_secret_labelled label) (ret (put_public (secret_field secret_group) JNull r)))))))"

fun foldM :: "('a \<Rightarrow> 'b \<Rightarrow> 'b di) \<Rightarrow> 'a list \<Rightarrow> 'b \<Rightarrow> 'b di" where
  "foldM f [] x = ret x"
| "foldM f (a # as) x = bindM (f a x) (foldM f as)"

definition extract_secrets :: "(string \<Rightarrow> string \<Rightarrow> string) \<Rightarrow> response \<Rightarrow> response di" where
  "extract_secrets gen_hash r = foldM (extract_secret (response_uuid gen_hash r)) PRIVATE_FIELDS r"

definition serialize_model :: "(client_relation \<Rightarrow> string) \<Rightarrow> string option \<Rightarrow> response \<Rightarrow> response di" where
  "serialize_model new_id short_uuid r = foldM (serialize_secret new_id short_uuid) PRIVATE_FIELDS r"

definition dump_response :: "response \<Rightarrow> (string, json) dict" where
  "dump_response r = dmerge RESPONSE_DEFAULTS (rs_public r)"

definition write_dumped :: "(string, json) dict \<Rightarrow> unit di" where
  "write_dumped dumped =
     forM dumped (\<lambda>(field, value).
       case value of
         JNull \<Rightarrow> repo_delete_field Own field
       | JStr v \<Rightarrow> repo_write_field Own field v
       | _ \<Rightarrow> repo_write_field Own field (dumps value))"


section \<open>Setting a response\<close>

definition update_response :: "response \<Rightarrow> response \<Rightarrow> response" where
  "update_response old new =
     \<lparr>rs_public = dmerge (rs_public old) (filter (\<lambda>kv. fst kv \<notin> {''salt'', ''request-id''}) (rs_public new)),
      rs_private = dmerge (rs_private old) (rs_private new)\<rparr>"

definition request_id_of :: "response \<Rightarrow> string option" where
  "request_id_of r = text_field (rs_public r) ''request-id''"

fun place_response :: "response \<Rightarrow> response list \<Rightarrow> response list" where
  "place_response r [] = [r]"
| "place_response r (q # qs) =
     (if request_id_of q = request_id_of r then update_response q r # qs else q # place_response r qs)"

text \<open>The responses of version 1 the databag holds. Values of other types than the models declare are refused.\<close>

fun response_dicts :: "json list \<Rightarrow> exn + response list" where
  "response_dicts [] = Inr []"
| "response_dicts (JDict d # js) = bindE (response_dicts js) (\<lambda>rs. Inr (\<lparr>rs_public = d, rs_private = []\<rparr> # rs))"
| "response_dicts (_ # js) = Inl ValueError"

definition contract_responses :: "(string, json) dict \<Rightarrow> exn + response list" where
  "contract_responses d =
     (if map_of d ''version'' \<in> {None, Some (JStr ''v1'')}
      then case map_of d ''requests'' of
             None \<Rightarrow> Inr []
           | Some (JList js) \<Rightarrow> response_dicts js
           | Some _ \<Rightarrow> Inl ValueError
      else Inl ValueError)"

definition set_response :: "(client_relation \<Rightarrow> string) \<Rightarrow> (string \<Rightarrow> string \<Rightarrow> string) \<Rightarrow> response \<Rightarrow> unit di" where
  "set_response new_id gen_hash r =
     bindM (readM dr_leader) (\<lambda>ld.
       if \<not> ld then skip
       else bindM (data_version Remote) (\<lambda>version.
         if version = ''v0''
         then bindM (serialize_model new_id None (put_public ''request-id'' JNull r)) (\<lambda>r'. write_dumped (dump_response r'))
         else bindM (build_model Own contract_responses) (\<lambda>found.
              bindM (mapM (extract_secrets gen_hash) found) (\<lambda>model.
              bindM (mapM (\<lambda>q. serialize_model new_id (Some (response_uuid gen_hash q)) q) (place_response r model)) (\<lambda>rs.
                write_dumped [(''version'', JStr ''v1''), (''requests'', JList (map (\<lambda>q. JDict (dump_response q)) rs))])))))"


section \<open>Reading a side back\<close>

text \<open>
  \<^verbatim>\<open>RelationStateV1.relation_data\<close> without a data model: the decoded databag, the secret of the
  group \<^verbatim>\<open>extra\<close>, and the contents of the secrets whose ids the databag holds.
\<close>

definition json_texts :: "(string, string) dict \<Rightarrow> (string, json) dict" where
  "json_texts d = map (\<lambda>(k, v). (k, JStr v)) d"

definition merge_secret :: "json \<Rightarrow> (string, json) dict \<Rightarrow> (string, json) dict di" where
  "merge_secret uri d =
     (case uri of
        JStr i \<Rightarrow> bindM (readM (\<lambda>s. map_of (dr_secrets s) i)) (\<lambda>content.
          case content of None \<Rightarrow> raise (PyException ''SecretNotFoundError'') | Some c \<Rightarrow> ret (dmerge d (json_texts c)))
      | _ \<Rightarrow> raise TypeError)"

definition relation_data :: "component \<Rightarrow> (string, json) dict di" where
  "relation_data c =
     bindM (repo_get_data c) (\<lambda>found.
     bindM (get_secret ''extra'' None None) (\<lambda>extra.
     bindM (case extra of None \<Rightarrow> ret (case found of None \<Rightarrow> [] | Some d \<Rightarrow> d)
            | Some i \<Rightarrow> merge_secret (JStr i) (case found of None \<Rightarrow> [] | Some d \<Rightarrow> d)) (\<lambda>data.
       foldM (\<lambda>k d. merge_secret (dget d k JNull) d) (filter (\<lambda>k. startswith k ''secret-'') (keys data)) data)))"



section \<open>Properties\<close>

text \<open>
  Labels name secrets that exist, and different labels different secrets; \<open>linked\<close> says that the response holds the
  id of the secret of a group, \<open>hinted\<close> that the ids it holds are those of the labels.
\<close>

definition secrets_ok :: "client_relation \<Rightarrow> bool" where
  "secrets_ok s \<longleftrightarrow>
     wf_dict (dr_labels s) \<and>
     (\<forall>l i. map_of (dr_labels s) l = Some i \<longrightarrow> i \<noteq> [] \<and> i \<in> set (keys (dr_secrets s))) \<and>
     (\<forall>l l' i. map_of (dr_labels s) l = Some i \<longrightarrow> map_of (dr_labels s) l' = Some i \<longrightarrow> l = l')"

definition fresh_ids :: "(client_relation \<Rightarrow> string) \<Rightarrow> bool" where
  "fresh_ids new_id \<longleftrightarrow> (\<forall>s. new_id s \<noteq> [] \<and> new_id s \<notin> set (keys (dr_secrets s)))"

definition secret_at :: "client_relation \<Rightarrow> string \<Rightarrow> string \<Rightarrow> string option" where
  "secret_at s l f = (case map_of (dr_labels s) l of None \<Rightarrow> None | Some i \<Rightarrow> map_of (secret_content s i) f)"

definition hinted :: "client_relation \<Rightarrow> string option \<Rightarrow> response \<Rightarrow> bool" where
  "hinted s u r \<longleftrightarrow>
     (\<forall>g i. text_field (rs_public r) (secret_field g) = Some i \<longrightarrow> i \<noteq> [] \<longrightarrow>
        map_of (dr_labels s) (generate_secret_label s g u) = Some i)"

definition linked :: "client_relation \<Rightarrow> string option \<Rightarrow> response \<Rightarrow> string \<Rightarrow> bool" where
  "linked s u r g \<longleftrightarrow>
     (\<forall>i. map_of (dr_labels s) (generate_secret_label s g u) = Some i \<longrightarrow> map_of (rs_public r) (secret_field g) = Some (JStr i))"

definition same_bags :: "client_relation \<Rightarrow> client_relation \<Rightarrow> bool" where
  "same_bags s s' \<longleftrightarrow>
     dr_name s' = dr_name s \<and> dr_id s' = dr_id s \<and> dr_leader s' = dr_leader s \<and> dr_own s' = dr_own s \<and> dr_remote s' = dr_remote s"

lemma label_frame: "same_bags s s' \<Longrightarrow> generate_secret_label s' g u = generate_secret_label s g u"
  by (simp add: same_bags_def generate_secret_label_def split: option.splits)

lemma label_inject [simp]: "generate_secret_label s g u = generate_secret_label s g' u \<longleftrightarrow> g = g'"
  by (auto simp: generate_secret_label_def split: option.splits if_splits)

lemma secret_field_inject [simp]: "secret_field g = secret_field g' \<longleftrightarrow> g = g'"
  by (simp add: secret_field_def)

lemma get_secret_hinted:
  assumes "hinted s u r"
  shows "get_secret g (text_field (rs_public r) (secret_field g)) u s = (Inr (map_of (dr_labels s) (generate_secret_label s g u)), s)"
  using assms unfolding hinted_def
  by (auto simp: get_secret_def bindM_apply split: option.splits)

lemma map_of_filter_snd: "wf_dict d \<Longrightarrow> map_of (filter (\<lambda>li. snd li \<noteq> i) d) l = (if map_of d l = Some i then None else map_of d l)"
proof (induction d)
  case (Cons kv d)
  have "map_of (filter (\<lambda>li. snd li \<noteq> i) d) l = None" if "l \<notin> fst ` set d" using that by (auto simp: map_of_eq_None_iff)
  with Cons show ?case by (cases kv) (auto simp: wf_dict_def keys_def)
qed simp

lemma remove_secret_ok:
  assumes "secrets_ok s" and "map_of (dr_labels s) l = Some i"
  shows "secrets_ok (remove_secret i s)" and "same_bags s (remove_secret i s)"
    and "map_of (dr_labels (remove_secret i s)) = (map_of (dr_labels s))(l := None)"
    and "l' \<noteq> l \<Longrightarrow> secret_at (remove_secret i s) l' f = secret_at s l' f"
proof -
  have wf: "wf_dict (dr_labels s)" using assms(1) by (simp add: secrets_ok_def)
  have "map_of (dr_labels (remove_secret i s)) k = ((map_of (dr_labels s))(l := None)) k" for k
    using assms map_of_filter_snd [OF wf, of i] by (auto simp: remove_secret_def secrets_ok_def)
  then show labels: "map_of (dr_labels (remove_secret i s)) = (map_of (dr_labels s))(l := None)" by blast
  show "same_bags s (remove_secret i s)" by (simp add: same_bags_def remove_secret_def)
  have "wf_dict (dr_labels (remove_secret i s))"
    using wf by (simp add: remove_secret_def wf_dict_def keys_def distinct_map_filter)
  moreover have "k \<noteq> l \<Longrightarrow> map_of (dr_labels s) k = Some j \<Longrightarrow> j \<noteq> i" for k j using assms by (auto simp: secrets_ok_def)
  ultimately show "secrets_ok (remove_secret i s)"
    using assms labels unfolding secrets_ok_def by (auto simp: remove_secret_def split: if_splits)
  show "l' \<noteq> l \<Longrightarrow> secret_at (remove_secret i s) l' f = secret_at s l' f"
    using assms labels by (auto simp: secret_at_def secret_content_def remove_secret_def secrets_ok_def split: option.splits)
qed


text \<open>What serialising one field does.\<close>

definition stepped :: "string option \<Rightarrow> string \<Rightarrow> string \<Rightarrow> response \<Rightarrow> client_relation \<Rightarrow> response \<Rightarrow> client_relation \<Rightarrow> bool" where
  "stepped u f g r s r' s' \<longleftrightarrow>
     secrets_ok s' \<and> same_bags s s' \<and> rs_private r' = rs_private r \<and> linked s' u r' g \<and>
     (wf_dict (rs_public r) \<longrightarrow> wf_dict (rs_public r')) \<and>
     (\<forall>i. text_field (rs_public r') (secret_field g) = Some i \<longrightarrow> i \<noteq> [] \<longrightarrow> map_of (dr_labels s') (generate_secret_label s g u) = Some i) \<and>
     (\<forall>k. k \<noteq> secret_field g \<longrightarrow> map_of (rs_public r') k = map_of (rs_public r) k) \<and>
     (\<forall>l. l \<noteq> generate_secret_label s g u \<longrightarrow> map_of (dr_labels s') l = map_of (dr_labels s) l) \<and>
     (\<forall>l f'. (l, f') \<noteq> (generate_secret_label s g u, f) \<longrightarrow> secret_at s' l f' = secret_at s l f') \<and>
     (\<forall>v. map_of (rs_private r) f = Some v \<longrightarrow> v \<noteq> [] \<longrightarrow> secret_at s' (generate_secret_label s g u) f = Some v) \<and>
     (map_of (rs_private r) f = None \<longrightarrow> secret_at s' (generate_secret_label s g u) f = None)"

lemma stepped_add:
  assumes "secrets_ok s" and "fresh_ids new_id" and "map_of (dr_labels s) (generate_secret_label s g u) = None"
    and "map_of (rs_private r) f = Some v" and "v \<noteq> []"
  shows "stepped u f g r s (put_public (secret_field g) (JStr (new_id s)) r)
    (s\<lparr>dr_secrets := dset (new_id s) [(f, v)] (dr_secrets s), dr_labels := dset (generate_secret_label s g u) (new_id s) (dr_labels s)\<rparr>)"
proof -
  let ?l = "generate_secret_label s g u"
  let ?s = "s\<lparr>dr_secrets := dset (new_id s) [(f, v)] (dr_secrets s), dr_labels := dset ?l (new_id s) (dr_labels s)\<rparr>"
  have new: "new_id s \<noteq> []" "new_id s \<notin> set (keys (dr_secrets s))" using assms(2) by (auto simp: fresh_ids_def)
  have other: "map_of (dr_labels s) l = Some i \<Longrightarrow> i \<noteq> new_id s" for l i using assms(1) new by (auto simp: secrets_ok_def)
  have "secrets_ok ?s" using assms(1) new other by (auto simp: secrets_ok_def split: if_splits)
  moreover have "generate_secret_label ?s g u = ?l" by (intro label_frame) (simp add: same_bags_def)
  moreover have "secret_at ?s l f' = secret_at s l f'" if "(l, f') \<noteq> (?l, f)" for l f'
    using that other assms(3) by (auto simp: secret_at_def secret_content_def split: option.splits)
  ultimately show ?thesis using assms(4)
    by (simp add: stepped_def same_bags_def linked_def put_public_def text_field_def secret_at_def secret_content_def)
qed

lemma stepped_set:
  assumes "secrets_ok s" and "map_of (dr_labels s) (generate_secret_label s g u) = Some i" and "full \<noteq> []"
    and "full = (case map_of (rs_private r) f of None \<Rightarrow> ddel f (secret_content s i) | Some v \<Rightarrow> dset f v (secret_content s i))"
  obtains s' where "set_content i full s = (Inr (), s')" "stepped u f g r s (put_public (secret_field g) (JStr i) r) s'"
proof -
  let ?l = "generate_secret_label s g u"
  let ?s = "if full = secret_content s i then s else s\<lparr>dr_secrets := dset i full (dr_secrets s)\<rparr>"
  have other: "map_of (dr_labels s) l = Some i \<Longrightarrow> l = ?l" for l using assms(1,2) by (auto simp: secrets_ok_def)
  have cont: "secret_content ?s i = full" "\<And>j. j \<noteq> i \<Longrightarrow> secret_content ?s j = secret_content s j" by (auto simp: secret_content_def)
  have frame: "same_bags s ?s" "dr_labels ?s = dr_labels s" by (auto simp: same_bags_def)
  have ok: "secrets_ok ?s" using assms(1) by (auto simp: secrets_ok_def)
  have "secret_at ?s l f' = secret_at s l f'" if "(l, f') \<noteq> (?l, f)" for l f'
    using that other cont frame(2) assms(4) by (cases "map_of (dr_labels s) l = Some i") (auto simp: secret_at_def split: option.splits)
  moreover have "secret_at ?s ?l f = map_of (rs_private r) f"
    using assms(2,4) frame(2) cont(1) by (simp add: secret_at_def split: option.splits)
  moreover have "linked ?s u (put_public (secret_field g) (JStr i) r) g"
    using assms(2) frame by (simp add: linked_def put_public_def label_frame [OF frame(1)] del: if_split)
  ultimately have "stepped u f g r s (put_public (secret_field g) (JStr i) r) ?s"
    using assms(2) ok frame unfolding stepped_def by (simp add: put_public_def text_field_def del: if_split)
  moreover have "set_content i full s = (Inr (), ?s)" using assms(3) by (simp add: set_content_def bindM_apply)
  ultimately show ?thesis using that by blast
qed


lemma stepped_delete:
  assumes "secrets_ok s" and "map_of (dr_labels s) (generate_secret_label s g u) = Some i"
    and "map_of (rs_private r) f = None" and "ddel f (secret_content s i) = []"
  shows "stepped u f g r s (put_public (secret_field g) JNull r) (remove_secret i s)"
proof -
  let ?l = "generate_secret_label s g u"
  note rem = remove_secret_ok [OF assms(1,2)]
  have "secret_at s ?l f' = None" if "f' \<noteq> f" for f'
  proof -
    have "map_of (ddel f (secret_content s i)) f' = map_of (secret_content s i) f'" using that by simp
    with assms(2,4) show ?thesis by (simp add: secret_at_def)
  qed
  moreover have "secret_at (remove_secret i s) ?l f' = None" for f' using rem(3) by (simp add: secret_at_def)
  ultimately have "secret_at (remove_secret i s) l f' = secret_at s l f'" if "(l, f') \<noteq> (?l, f)" for l f'
    using that rem(4) by (cases "l = ?l") auto
  with rem(1,2,3) assms(3) show ?thesis
    by (simp add: stepped_def linked_def put_public_def text_field_def label_frame [OF rem(2)] secret_at_def)
qed

lemma delete_removed:
  assumes "secrets_ok s" and "map_of (dr_labels s) (generate_secret_label s g u) = Some i" and "dr_leader s"
  shows "thenM (set_content i []) (bindM (readM (\<lambda>s. generate_secret_label s g u)) (\<lambda>label.
           thenM (delete_secret_labelled label) (ret x))) s = (Inr x, remove_secret i s)"
proof -
  note rem = remove_secret_ok [OF assms(1,2)]
  have "dr_leader (remove_secret i s)" using assms(3) by (simp add: remove_secret_def)
  then show ?thesis using assms(2,3) rem(3)
    by (simp add: set_content_def delete_secret_labelled_def ensure_leader_for_app_def bindM_apply thenM_apply label_frame [OF rem(2)])
qed

lemma serialize_secret_run:
  assumes "secrets_ok s" and "fresh_ids new_id" and "hinted s u r" and "dr_leader s"
  obtains r' s' where "serialize_secret new_id u (f, g) r s = (Inr r', s')" "stepped u f g r s r' s'"
proof (cases "map_of (dr_labels s) (generate_secret_label s g u)")
  case None
  note found = get_secret_hinted [OF assms(3), of g]
  show ?thesis
  proof (cases "map_of (rs_private r) f = None \<or> map_of (rs_private r) f = Some []")
    case True
    with None found have "serialize_secret new_id u (f, g) r s = (Inr r, s)"
      by (auto simp: serialize_secret_def bindM_apply)
    moreover have "\<forall>i. text_field (rs_public r) (secret_field g) = Some i \<longrightarrow> i = []"
      using assms(3) None unfolding hinted_def by fastforce
    then have "stepped u f g r s r s"
      using None True assms(1) by (auto simp: stepped_def same_bags_def linked_def secret_at_def)
    ultimately show ?thesis by (rule that)
  next
    case False
    then obtain v where v: "map_of (rs_private r) f = Some v" "v \<noteq> []" by auto
    with None found assms(4) have "serialize_secret new_id u (f, g) r s = (Inr (put_public (secret_field g) (JStr (new_id s)) r),
        s\<lparr>dr_secrets := dset (new_id s) [(f, v)] (dr_secrets s), dr_labels := dset (generate_secret_label s g u) (new_id s) (dr_labels s)\<rparr>)"
      by (simp add: serialize_secret_def add_secret_def ensure_leader_for_app_def bindM_apply thenM_apply)
    with stepped_add [OF assms(1,2) None v] show ?thesis using that by blast
  qed
next
  case (Some i)
  note found = get_secret_hinted [OF assms(3), of g]
  let ?full = "case map_of (rs_private r) f of None \<Rightarrow> ddel f (secret_content s i) | Some v \<Rightarrow> dset f v (secret_content s i)"
  show ?thesis
  proof (cases "?full = []")
    case True
    have "dset f v d \<noteq> []" for v and d :: "(string, string) dict" by (metis dget_dset dget_def map_of.simps(1) option.simps(4) list.distinct(1))
    with True have none: "map_of (rs_private r) f = None" "ddel f (secret_content s i) = []" by (auto split: option.splits)
    then have "serialize_secret new_id u (f, g) r s = (Inr (put_public (secret_field g) JNull r), remove_secret i s)"
      using found Some delete_removed [OF assms(1) Some assms(4), of "put_public (secret_field g) JNull r"]
      by (simp add: serialize_secret_def bindM_apply [of "get_secret g _ u"] bindM_apply [of "readM _"] Let_def)
    with stepped_delete [OF assms(1) Some none] show ?thesis using that by blast
  next
    case False
    from stepped_set [OF assms(1) Some False refl] obtain s' where "set_content i ?full s = (Inr (), s')"
      "stepped u f g r s (put_public (secret_field g) (JStr i) r) s'" by blast
    moreover from this(1) have "serialize_secret new_id u (f, g) r s = (Inr (put_public (secret_field g) (JStr i) r), s')"
      using found Some False by (simp add: serialize_secret_def bindM_apply thenM_apply Let_def)
    ultimately show ?thesis using that by blast
  qed
qed


lemma stepped_bags: "stepped u f g r s r' s' \<Longrightarrow> same_bags s s'"
  by (simp add: stepped_def)

lemma stepped_linked: "stepped u f g r s r' s' \<Longrightarrow> linked s u r g' \<Longrightarrow> linked s' u r' g'"
  by (cases "g' = g") (auto simp: stepped_def linked_def label_frame [of s s'])

lemma stepped_hinted:
  assumes "stepped u f g r s r' s'" and "hinted s u r"
  shows "hinted s' u r'"
  unfolding hinted_def
proof (intro allI impI)
  fix g' i
  assume i: "text_field (rs_public r') (secret_field g') = Some i" "i \<noteq> []"
  show "map_of (dr_labels s') (generate_secret_label s' g' u) = Some i"
  proof (cases "g' = g")
    case True
    with i assms(1) show ?thesis by (simp add: stepped_def label_frame [OF stepped_bags [OF assms(1)]])
  next
    case False
    with assms(1) have "map_of (rs_public r') (secret_field g') = map_of (rs_public r) (secret_field g')" by (simp add: stepped_def)
    with i(1) have "text_field (rs_public r) (secret_field g') = Some i" by (simp add: text_field_def)
    with i(2) assms(2) have "map_of (dr_labels s) (generate_secret_label s g' u) = Some i" by (simp add: hinted_def)
    with False assms(1) show ?thesis by (simp add: stepped_def label_frame [OF stepped_bags [OF assms(1)]])
  qed
qed

definition serialised :: "string option \<Rightarrow> (string \<times> string) list \<Rightarrow> response \<Rightarrow> client_relation \<Rightarrow> response \<Rightarrow> client_relation \<Rightarrow> bool" where
  "serialised u fs r s r' s' \<longleftrightarrow>
     secrets_ok s' \<and> same_bags s s' \<and> rs_private r' = rs_private r \<and> (wf_dict (rs_public r) \<longrightarrow> wf_dict (rs_public r')) \<and>
     (\<forall>k. k \<notin> secret_field ` snd ` set fs \<longrightarrow> map_of (rs_public r') k = map_of (rs_public r) k) \<and>
     (\<forall>g. g \<in> snd ` set fs \<or> linked s u r g \<longrightarrow> linked s' u r' g) \<and>
     (\<forall>l f. f \<notin> fst ` set fs \<longrightarrow> secret_at s' l f = secret_at s l f) \<and>
     (\<forall>f g. (f, g) \<in> set fs \<longrightarrow>
        (map_of (rs_private r) f = None \<longrightarrow> secret_at s' (generate_secret_label s g u) f = None) \<and>
        (\<forall>v. map_of (rs_private r) f = Some v \<longrightarrow> v \<noteq> [] \<longrightarrow> secret_at s' (generate_secret_label s g u) f = Some v))"

lemma serialised_cons:
  assumes "stepped u f g r s r1 s1" and "serialised u fs r1 s1 r' s'" and "f \<notin> fst ` set fs"
  shows "serialised u ((f, g) # fs) r s r' s'"
proof -
  note label = label_frame [OF stepped_bags [OF assms(1)]]
  have "same_bags s s'" using assms(1,2) by (simp add: stepped_def serialised_def same_bags_def)
  moreover have "linked s' u r' g'" if "g' \<in> snd ` set ((f, g) # fs) \<or> linked s u r g'" for g'
    using that assms(2) stepped_linked [OF assms(1)] assms(1) by (auto simp: serialised_def stepped_def)
  moreover have "secret_at s' l f' = secret_at s l f'" if "f' \<notin> fst ` set ((f, g) # fs)" for l f'
    using that assms(1,2) by (simp add: serialised_def stepped_def)
  moreover have "secret_at s' l f = secret_at s1 l f" for l using assms(2,3) by (simp add: serialised_def)
  ultimately show ?thesis using assms(1,2) unfolding serialised_def
    by (auto simp: label stepped_def)
qed

lemma serialize_run:
  assumes "secrets_ok s" and "fresh_ids new_id" and "hinted s u r" and "dr_leader s" and "distinct (map fst fs)"
  shows "\<exists>r' s'. foldM (serialize_secret new_id u) fs r s = (Inr r', s') \<and> serialised u fs r s r' s'"
  using assms
proof (induction fs arbitrary: r s)
  case Nil
  then show ?case by (simp add: serialised_def same_bags_def)
next
  case (Cons fg fs)
  obtain f g where fg: "fg = (f, g)" by fastforce
  obtain r1 s1 where 1: "serialize_secret new_id u (f, g) r s = (Inr r1, s1)" "stepped u f g r s r1 s1"
    using serialize_secret_run [OF Cons.prems(1-4)] by blast
  have "secrets_ok s1" "dr_leader s1" using 1(2) Cons.prems(4) by (simp_all add: stepped_def same_bags_def)
  from Cons.IH [OF this(1) Cons.prems(2) stepped_hinted [OF 1(2) Cons.prems(3)] this(2)] Cons.prems(5)
  obtain r' s' where "foldM (serialize_secret new_id u) fs r1 s1 = (Inr r', s')" "serialised u fs r1 s1 r' s'" by auto
  moreover have "f \<notin> fst ` set fs" using Cons.prems(5) fg by simp
  ultimately show ?case using 1 fg serialised_cons [OF 1(2)] by (auto simp: bindM_apply)
qed

lemma serialize_model_run:
  assumes "secrets_ok s" and "fresh_ids new_id" and "hinted s u r" and "dr_leader s"
  obtains r' s' where "serialize_model new_id u r s = (Inr r', s')" "serialised u PRIVATE_FIELDS r s r' s'"
proof -
  have "distinct (map fst PRIVATE_FIELDS)" by code_simp
  from serialize_run [OF assms this] show ?thesis using that by (auto simp: serialize_model_def)
qed


definition text_of :: "json \<Rightarrow> string" where
  "text_of j = (case j of JStr v \<Rightarrow> v | _ \<Rightarrow> dumps j)"

definition written :: "json option \<Rightarrow> string option \<Rightarrow> string option" where
  "written new old =
     (case new of None \<Rightarrow> old | Some j \<Rightarrow> if j = JNull then None else if text_of j = [] then old else Some (text_of j))"

lemma written_None [simp]: "written None old = old"
  by (simp add: written_def)

lemma write_field_run:
  assumes "dr_leader s"
  shows "(case value of JNull \<Rightarrow> repo_delete_field Own field | JStr v \<Rightarrow> repo_write_field Own field v
            | _ \<Rightarrow> repo_write_field Own field (dumps value)) s =
         (Inr (), s\<lparr>dr_own :=
            (if value = JNull then if map_of (dr_own s) field = None then dr_own s else ddel field (dr_own s)
             else if text_of value = [] then dr_own s else dset field (text_of value) (dr_own s))\<rparr>)"
  using assms
  by (cases "value") (simp_all add: repo_delete_field_def repo_write_field_def ensure_leader_for_app_def change_databag_def databag_def bindM_apply
      text_of_def del: dumps.simps)

lemma write_dumped_run:
  assumes "dr_leader s" and "wf_dict d"
  shows "\<exists>own. write_dumped d s = (Inr (), s\<lparr>dr_own := own\<rparr>) \<and> (\<forall>k. map_of own k = written (map_of d k) (map_of (dr_own s) k))"
  using assms
proof (induction d arbitrary: s)
  case Nil
  have "s = s\<lparr>dr_own := dr_own s\<rparr>" by simp
  then show ?case by (intro exI [of _ "dr_own s"]) (simp add: write_dumped_def written_def)
next
  case (Cons kj d)
  obtain k j where kj: "kj = (k, j)" by fastforce
  let ?own = "if j = JNull then if map_of (dr_own s) k = None then dr_own s else ddel k (dr_own s)
             else if text_of j = [] then dr_own s else dset k (text_of j) (dr_own s)"
  have own: "map_of ?own k' = (if k' = k then written (Some j) (map_of (dr_own s) k) else map_of (dr_own s) k')" for k'
    by (auto simp: written_def)
  have wf: "wf_dict d" "map_of d k = None" using Cons.prems(2) kj by (auto simp: wf_dict_def keys_def map_of_eq_None_iff)
  from Cons.IH [OF _ wf(1), of "s\<lparr>dr_own := ?own\<rparr>"] Cons.prems(1) obtain own' where
    "write_dumped d (s\<lparr>dr_own := ?own\<rparr>) = (Inr (), s\<lparr>dr_own := own'\<rparr>)" "\<forall>k'. map_of own' k' = written (map_of d k') (map_of ?own k')"
    by auto
  moreover from this(1) have "write_dumped (kj # d) s = (Inr (), s\<lparr>dr_own := own'\<rparr>)"
    using write_field_run [OF Cons.prems(1), of k j] kj by (simp add: write_dumped_def thenM_apply)
  ultimately show ?case using own wf(2) kj by (intro exI [of _ own']) auto
qed

lemma private_names:
  "list_all (\<lambda>fg. fst fg \<noteq> ''request-id'' \<and> fst fg \<notin> (\<lambda>fg. secret_field (snd fg)) ` set PRIVATE_FIELDS \<and> map_of RESPONSE_DEFAULTS (fst fg) = None)
     PRIVATE_FIELDS"
  by code_simp

lemma dump_response_wf: "wf_dict (dump_response r)"
proof -
  have "wf_dict RESPONSE_DEFAULTS" by code_simp
  then show ?thesis by (simp add: dump_response_def)
qed

lemma put_public_private [simp]: "rs_private (put_public k j r) = rs_private r"
  by (simp add: put_public_def)

text \<open>The user's secret, once a response is serialised.\<close>

lemma serialised_user:
  assumes "serialised u PRIVATE_FIELDS r s r' s'"
    and "map_of (rs_private r) ''username'' = Some username" and "username \<noteq> []"
    and "map_of (rs_private r) ''password'' = Some password" and "password \<noteq> []"
  shows "\<exists>i content. i \<noteq> [] \<and> map_of (rs_public r') ''secret-user'' = Some (JStr i) \<and> map_of (dr_secrets s') i = Some content \<and>
     map_of content ''username'' = Some username \<and> map_of content ''password'' = Some password"
proof -
  let ?l = "generate_secret_label s ''user'' u"
  have "(''username'', ''user'') \<in> set PRIVATE_FIELDS" "(''password'', ''user'') \<in> set PRIVATE_FIELDS"
    by (simp_all add: PRIVATE_FIELDS_def)
  then have fields: "secret_at s' ?l ''username'' = Some username" "secret_at s' ?l ''password'' = Some password"
    using assms by (auto simp: serialised_def)
  then obtain i where i: "map_of (dr_labels s') ?l = Some i" by (auto simp: secret_at_def split: option.splits)
  have ok: "secrets_ok s'" and bags: "same_bags s s'" using assms(1) by (simp_all add: serialised_def)
  then have "i \<noteq> []" "i \<in> dom (map_of (dr_secrets s'))" using i unfolding secrets_ok_def set_keys by blast+
  then obtain content where c: "map_of (dr_secrets s') i = Some content" by auto
  then have content: "map_of content ''username'' = Some username" "map_of content ''password'' = Some password"
    using fields i by (simp_all add: secret_at_def secret_content_def dget_def)
  have "''user'' \<in> snd ` set PRIVATE_FIELDS" by (simp add: PRIVATE_FIELDS_def)
  with assms(1) have "linked s' u r' ''user''" unfolding serialised_def by blast
  with i have "map_of (rs_public r') ''secret-user'' = Some (JStr i)"
    by (simp add: linked_def label_frame [OF bags] secret_field_def)
  with \<open>i \<noteq> []\<close> c content show ?thesis by blast
qed

text \<open>C14: for a client of version 0, the leader's response arrives: the databag names one secret, whose content
  has the user name and the password, and it has every non-empty plain field as it was given; none of the
  secret fields gets into the databag.\<close>

theorem response_delivered:
  assumes "dr_leader s" and "version_of (dr_remote s) = ''v0''" and "secrets_ok s" and "fresh_ids new_id"
    and "hinted s None r" and "wf_dict (rs_public r)"
    and "map_of (rs_private r) ''username'' = Some username" and "username \<noteq> []"
    and "map_of (rs_private r) ''password'' = Some password" and "password \<noteq> []"
  shows "\<exists>s' i content. set_response new_id gen_hash r s = (Inr (), s') \<and>
     map_of (dr_own s') ''secret-user'' = Some i \<and> map_of (dr_secrets s') i = Some content \<and>
     map_of content ''username'' = Some username \<and> map_of content ''password'' = Some password \<and>
     (\<forall>k v. text_field (rs_public r) k = Some v \<longrightarrow> v \<noteq> [] \<longrightarrow> k \<noteq> ''request-id'' \<longrightarrow>
        k \<notin> (\<lambda>fg. secret_field (snd fg)) ` set PRIVATE_FIELDS \<longrightarrow> map_of (dr_own s') k = Some v) \<and>
     (\<forall>f \<in> fst ` set PRIVATE_FIELDS. f \<notin> set (keys (rs_public r)) \<longrightarrow> map_of (dr_own s') f = map_of (dr_own s) f)"
proof -
  let ?r = "put_public ''request-id'' JNull r"
  have hint: "hinted s None ?r" using assms(5) by (auto simp: hinted_def put_public_def text_field_def secret_field_def)
  obtain r' s1 where 1: "serialize_model new_id None ?r s = (Inr r', s1)" "serialised None PRIVATE_FIELDS ?r s r' s1"
    using serialize_model_run [OF assms(3,4) hint assms(1)] by blast
  have "map_of (rs_private ?r) ''username'' = Some username" "map_of (rs_private ?r) ''password'' = Some password" using assms(7,9) by simp_all
  from serialised_user [OF 1(2) this(1) assms(8) this(2) assms(10)]
  obtain i content where i: "i \<noteq> []" "map_of (rs_public r') ''secret-user'' = Some (JStr i)" "map_of (dr_secrets s1) i = Some content"
    and content: "map_of content ''username'' = Some username" "map_of content ''password'' = Some password" by blast
  have bags: "same_bags s s1" using 1(2) by (simp add: serialised_def)
  have wf: "wf_dict (rs_public r')" using 1(2) assms(6) by (simp add: serialised_def put_public_def)
  have pub: "map_of (rs_public r') k = map_of (rs_public r) k"
    if "k \<noteq> ''request-id''" "k \<notin> (\<lambda>fg. secret_field (snd fg)) ` set PRIVATE_FIELDS" for k
    using 1(2) that by (simp add: serialised_def put_public_def image_comp comp_def)
  obtain own where own: "write_dumped (dump_response r') s1 = (Inr (), s1\<lparr>dr_own := own\<rparr>)"
    "\<And>k. map_of own k = written (map_of (dump_response r') k) (map_of (dr_own s) k)"
    using write_dumped_run [OF _ dump_response_wf, of s1 r'] assms(1) bags by (auto simp: same_bags_def)
  have dump: "map_of (dump_response r') k = (map_of RESPONSE_DEFAULTS ++ map_of (rs_public r')) k" for k
    by (simp add: dump_response_def map_of_rev_wf [OF wf])
  let ?s = "s1\<lparr>dr_own := own\<rparr>"
  have run: "set_response new_id gen_hash r s = (Inr (), ?s)"
    using assms(1,2) 1(1) own(1) by (simp add: set_response_def read_version bindM_apply)
  have "map_of own ''secret-user'' = Some i"
    using own(2) [of "''secret-user''"] dump i(1,2) by (simp add: written_def text_of_def map_add_def)
  moreover have "map_of own k = Some v" if "text_field (rs_public r) k = Some v" "v \<noteq> []" "k \<noteq> ''request-id''"
      "k \<notin> (\<lambda>fg. secret_field (snd fg)) ` set PRIVATE_FIELDS" for k v
    using own(2) [of k] dump [of k] pub [OF that(3,4)] that(1,2)
    by (auto simp: written_def text_of_def map_add_def text_field_def split: option.splits json.splits)
  moreover have "map_of own f = map_of (dr_own s) f" if "f \<in> fst ` set PRIVATE_FIELDS" "f \<notin> set (keys (rs_public r))" for f
  proof -
    have "f \<noteq> ''request-id''" "f \<notin> (\<lambda>fg. secret_field (snd fg)) ` set PRIVATE_FIELDS" "map_of RESPONSE_DEFAULTS f = None"
      using private_names that(1) unfolding list_all_iff set_map by fastforce+
    with pub that(2) have "map_of (dump_response r') f = None" by (auto simp: dump map_add_def)
    then show ?thesis using own(2) [of f] by (simp add: written_def)
  qed
  ultimately show ?thesis using run i(3) content by (intro exI [of _ ?s] exI [of _ i] exI [of _ content]) auto
qed


text \<open>Ids of new secrets for the example: longer than every id in use.\<close>

definition longer_id :: "client_relation \<Rightarrow> string" where
  "longer_id s = ''secret:'' @ concat (keys (dr_secrets s))"

lemma longer_id_fresh: "fresh_ids longer_id"
proof -
  have "length k \<le> length (concat ks)" if "k \<in> set ks" for k :: string and ks using that by (induction ks) auto
  then have "longer_id s \<notin> set (keys (dr_secrets s))" for s by (fastforce simp: longer_id_def)
  then show ?thesis by (simp add: fresh_ids_def longer_id_def)
qed

theorem response_delivered_witness:
  "\<exists>s'. set_response longer_id (\<lambda>a b. []) \<lparr>rs_public = [(''endpoints'', JStr ''k:9092'')], rs_private = [(''username'', ''relation-7''), (''password'', ''pw'')]\<rparr>
     (sample_relation\<lparr>dr_remote := [(''topic'', ''orders'')]\<rparr>) = (Inr (), s') \<and> map_of (dr_own s') ''endpoints'' = Some ''k:9092''"
proof -
  let ?s = "sample_relation\<lparr>dr_remote := [(''topic'', ''orders'')]\<rparr>"
  let ?r = "\<lparr>rs_public = [(''endpoints'', JStr ''k:9092'')], rs_private = [(''username'', ''relation-7''), (''password'', ''pw'')]\<rparr>"
  have "dr_leader ?s" "version_of (dr_remote ?s) = ''v0''" "secrets_ok ?s"
    by (simp_all add: sample_relation_def version_of_def secrets_ok_def)
  moreover have "hinted ?s None ?r" by (simp add: hinted_def text_field_def secret_field_def)
  moreover have "wf_dict (rs_public ?r)" by (simp add: wf_dict_def keys_def)
  ultimately obtain s' where "set_response longer_id (\<lambda>a b. []) ?r ?s = (Inr (), s')"
    and fields: "\<And>k v. text_field (rs_public ?r) k = Some v \<Longrightarrow> v \<noteq> [] \<Longrightarrow> k \<noteq> ''request-id'' \<Longrightarrow>
        k \<notin> (\<lambda>fg. secret_field (snd fg)) ` set PRIVATE_FIELDS \<Longrightarrow> map_of (dr_own s') k = Some v"
    using response_delivered [of ?s longer_id ?r "''relation-7''" "''pw''" "\<lambda>a b. []"] longer_id_fresh by auto
  moreover have "''endpoints'' \<notin> (\<lambda>fg. secret_field (snd fg)) ` set PRIVATE_FIELDS" by code_simp
  ultimately show ?thesis using fields [of "''endpoints''" "''k:9092''"] by (auto simp: text_field_def)
qed

text \<open>Decoding turns a topic whose name is a JSON literal into a value that is not text.\<close>

lemma numeric_topic_decoded: "decoded [(''topic'', ''2024'')] = [(''topic'', JInt 2024)]"
  by code_simp

end
