(* ===== verification/Certificate_Requests.thy ===== *)
theory Certificate_Requests
  imports Kafka_Prelude "HOL-Library.FSet" "HOL-Library.Countable"
begin

text \<open>
  \<^verbatim>\<open>tls_certificates_interface/v4/tls_certificates.py\<close>, the requirer's side: attributes and certificate signing
  requests, the private key, the requests in the databag of the unit, and the certificates of the
  provider that become secrets and events. The package \<^verbatim>\<open>cryptography\<close> is the parameter \<open>x509_lib\<close>.
\<close>

section \<open>Requests and their attributes\<close>

record cert_attributes =
  at_common_name :: string
  at_sans_dns :: "string fset option"
  at_sans_ip :: "string fset option"
  at_sans_oid :: "string fset option"
  at_email_address :: "string option"
  at_organization :: "string option"
  at_organizational_unit :: "string option"
  at_country_name :: "string option"
  at_state_or_province_name :: "string option"
  at_locality_name :: "string option"
  at_is_ca :: bool
  at_unique_id :: bool

text \<open>
  What \<^verbatim>\<open>cryptography\<close> reads from a request: the attributes of its subject in order, the names of
  its extension for alternative names if it has one (DNS names, addresses, object ids), and the
  modulus of its key if that is an RSA key.
\<close>

record csr_info =
  ci_subject :: "(string \<times> string) list"
  ci_sans :: "(string fset \<times> string fset \<times> string fset) option"
  ci_modulus :: "string option"

text \<open>
  \<open>norm_ip\<close> is \<^verbatim>\<open>str(ip_address(s))\<close>. Of a certificate only the modulus, the CA flag and whether it has
  a common name matter.
\<close>

record x509_lib =
  load_csr :: "string \<Rightarrow> csr_info option"
  sign_csr :: "string \<Rightarrow> (string \<times> string) list \<Rightarrow> (string fset \<times> string fset \<times> string fset) option \<Rightarrow> string"
  norm_ip :: "string \<Rightarrow> string option"
  key_modulus :: "string \<Rightarrow> string option"
  load_certificate :: "string \<Rightarrow> (string option \<times> bool \<times> bool) option"
  sha256_hex :: "string \<Rightarrow> string"

definition TLSCertificatesError :: exn where
  "TLSCertificatesError = PyException ''TLSCertificatesError''"

text \<open>A request object: its text and what was read from it.\<close>

record signing_request =
  csr_raw :: string
  csr_info_of :: csr_info

definition csr_from_string :: "x509_lib \<Rightarrow> string \<Rightarrow> exn + signing_request" where
  "csr_from_string lib text =
     (case load_csr lib text of
        None \<Rightarrow> Inl TLSCertificatesError
      | Some info \<Rightarrow>
          if map_of (ci_subject info) ''commonName'' = None then Inl IndexError
          else Inr \<lparr>csr_raw = strip text, csr_info_of = info\<rparr>)"

definition csr_eq :: "signing_request \<Rightarrow> signing_request \<Rightarrow> bool" where
  "csr_eq a b \<longleftrightarrow> strip (csr_raw a) = strip (csr_raw b)"

definition attributes_from_csr :: "signing_request \<Rightarrow> bool \<Rightarrow> cert_attributes" where
  "attributes_from_csr c is_ca =
     (let info = csr_info_of c;
          (dns, ip, oid) = (case ci_sans info of None \<Rightarrow> ({||}, {||}, {||}) | Some s \<Rightarrow> s);
          subject = map_of (ci_subject info)
      in \<lparr>at_common_name = (case subject ''commonName'' of Some n \<Rightarrow> n | None \<Rightarrow> []),
          at_sans_dns = Some dns, at_sans_ip = Some ip, at_sans_oid = Some oid,
          at_email_address = subject ''emailAddress'', at_organization = subject ''organizationName'',
          at_organizational_unit = subject ''organizationalUnitName'', at_country_name = subject ''countryName'',
          at_state_or_province_name = subject ''stateOrProvinceName'', at_locality_name = subject ''localityName'',
          at_is_ca = is_ca, at_unique_id = (subject ''x500UniqueIdentifier'' \<noteq> None)\<rparr>)"

definition csr_matches_key :: "x509_lib \<Rightarrow> signing_request \<Rightarrow> string \<Rightarrow> bool" where
  "csr_matches_key lib c key =
     (case (key_modulus lib key, map_option ci_modulus (load_csr lib (csr_raw c))) of
        (Some n, Some (Some m)) \<Rightarrow> n = m
      | _ \<Rightarrow> False)"

definition subject_part :: "string \<Rightarrow> string option \<Rightarrow> (string \<times> string) list" where
  "subject_part oid v = (case v of None \<Rightarrow> [] | Some x \<Rightarrow> if x = [] then [] else [(oid, x)])"

definition csr_subject :: "string \<Rightarrow> cert_attributes \<Rightarrow> (string \<times> string) list" where
  "csr_subject uuid a =
     [(''commonName'', at_common_name a)] @ (if at_unique_id a then [(''x500UniqueIdentifier'', uuid)] else []) @
     subject_part ''organizationName'' (at_organization a) @ subject_part ''organizationalUnitName'' (at_organizational_unit a) @
     subject_part ''emailAddress'' (at_email_address a) @ subject_part ''countryName'' (at_country_name a) @
     subject_part ''stateOrProvinceName'' (at_state_or_province_name a) @ subject_part ''localityName'' (at_locality_name a)"

definition sans_or_none :: "string fset option \<Rightarrow> string fset" where
  "sans_or_none s = (case s of None \<Rightarrow> {||} | Some x \<Rightarrow> x)"

definition csr_sans :: "x509_lib \<Rightarrow> cert_attributes \<Rightarrow> exn + (string fset \<times> string fset \<times> string fset) option" where
  "csr_sans lib a =
     (let dns = sans_or_none (at_sans_dns a); ips = sans_or_none (at_sans_ip a); oid = sans_or_none (at_sans_oid a)
      in if fBex ips (\<lambda>s. norm_ip lib s = None) then Inl ValueError
         else if dns = {||} \<and> ips = {||} \<and> oid = {||} then Inr None
         else Inr (Some (dns, (\<lambda>s. the (norm_ip lib s)) |`| ips, oid)))"

definition generate_csr :: "x509_lib \<Rightarrow> string \<Rightarrow> string \<Rightarrow> cert_attributes \<Rightarrow> exn + signing_request" where
  "generate_csr lib uuid key a =
     bindE (csr_sans lib a) (\<lambda>sans. csr_from_string lib (sign_csr lib key (csr_subject uuid a) sans))"


section \<open>The requirer\<close>

datatype cert_mode = UNIT_MODE | APP_MODE

record csr_entry =
  ce_text :: string
  ce_ca :: "bool option"

record provider_entry =
  pe_ca :: string
  pe_csr :: string
  pe_certificate :: string
  pe_chain :: "string list option"
  pe_revoked :: "bool option"

text \<open>
  The state: \<open>tr_csrs\<close> and \<open>tr_certs\<close> are the parsed databags of the requirer and the provider, \<open>None\<close> when
  a databag is invalid; secrets by label; \<open>tr_passed_key\<close> is the key the charm passes.
\<close>

record requirer =
  tr_mode :: cert_mode
  tr_leader :: bool
  tr_unit_number :: string
  tr_rel_name :: string
  tr_related :: bool
  tr_requests :: "cert_attributes list"
  tr_passed_key :: "string option"
  tr_csrs :: "csr_entry list option"
  tr_certs :: "provider_entry list option"
  tr_secrets :: "(string, (string, string) dict) dict"

type_synonym 'a tr = "(requirer, 'a) prog"

definition LIBID :: string where
  "LIBID = ''afd8c2bccf834997afce12c2706d2ede''"

definition private_key_label :: "requirer \<Rightarrow> string" where
  "private_key_label s =
     (case tr_mode s of
        UNIT_MODE \<Rightarrow> LIBID @ ''-private-key-'' @ tr_unit_number s @ ''-'' @ tr_rel_name s
      | APP_MODE \<Rightarrow> LIBID @ ''-private-key-'' @ tr_rel_name s)"

definition csr_label :: "x509_lib \<Rightarrow> signing_request \<Rightarrow> requirer \<Rightarrow> string" where
  "csr_label lib c s =
     (case tr_mode s of
        UNIT_MODE \<Rightarrow> LIBID @ ''-certificate-'' @ tr_unit_number s @ ''-'' @ sha256_hex lib (csr_raw c)
      | APP_MODE \<Rightarrow> LIBID @ ''-certificate-'' @ sha256_hex lib (csr_raw c))"

definition put_secret :: "string \<Rightarrow> (string, string) dict \<Rightarrow> unit tr" where
  "put_secret label content = modM (\<lambda>s. s\<lparr>tr_secrets := dset label content (tr_secrets s)\<rparr>)"

definition drop_secret :: "string \<Rightarrow> unit tr" where
  "drop_secret label = modM (\<lambda>s. s\<lparr>tr_secrets := ddel label (tr_secrets s)\<rparr>)"


subsection \<open>The private key\<close>

definition private_key_generated :: "requirer \<Rightarrow> bool" where
  "private_key_generated s \<longleftrightarrow> map_of (tr_secrets s) (private_key_label s) \<noteq> None"

definition requirer_key :: "requirer \<Rightarrow> exn + string option" where
  "requirer_key s =
     (case tr_passed_key s of
        Some k \<Rightarrow> Inr (Some k)
      | None \<Rightarrow>
          (case map_of (tr_secrets s) (private_key_label s) of
             None \<Rightarrow> Inr None
           | Some content \<Rightarrow> (case map_of content ''private-key'' of None \<Rightarrow> Inl KeyError | Some k \<Rightarrow> Inr (Some (strip k)))))"

definition generate_private_key_secret :: "(requirer \<Rightarrow> string) \<Rightarrow> unit tr" where
  "generate_private_key_secret new_key =
     bindM (readM (\<lambda>s. (private_key_label s, new_key s))) (\<lambda>(label, key). put_secret label [(''private-key'', key)])"

definition ensure_private_key :: "(requirer \<Rightarrow> string) \<Rightarrow> unit tr" where
  "ensure_private_key new_key =
     bindM (readM (\<lambda>s. (tr_passed_key s, private_key_generated s, private_key_label s))) (\<lambda>(passed, generated, label).
       if passed \<noteq> None then drop_secret label
       else if generated then skip
       else generate_private_key_secret new_key)"


subsection \<open>Requests in the databag\<close>

definition not_mine :: "requirer \<Rightarrow> bool" where
  "not_mine s \<longleftrightarrow> tr_mode s = APP_MODE \<and> \<not> tr_leader s"

definition requirer_csrs :: "x509_lib \<Rightarrow> requirer \<Rightarrow> exn + (signing_request \<times> bool) list" where
  "requirer_csrs lib s =
     (if not_mine s \<or> \<not> tr_related s then Inr []
      else case tr_csrs s of
             None \<Rightarrow> Inr []
           | Some es \<Rightarrow> mapE (\<lambda>e. bindE (csr_from_string lib (ce_text e)) (\<lambda>c. Inr (c, ce_ca e = Some True))) es)"

definition drop_matching :: "string \<Rightarrow> csr_entry list \<Rightarrow> csr_entry list" where
  "drop_matching text = drop_iterating (\<lambda>e. strip (ce_text e) = strip text) 0"

definition remove_requirer_csr :: "x509_lib \<Rightarrow> signing_request \<Rightarrow> unit tr" where
  "remove_requirer_csr lib c =
     bindM (\<lambda>s. (requirer_csrs lib s, s)) (\<lambda>cs.
     bindM (readM (\<lambda>s. (tr_related s, tr_csrs s))) (\<lambda>(related, entries).
       if \<not> related \<or> cs = [] then skip
       else case entries of
              None \<Rightarrow> skip
            | Some es \<Rightarrow> modM (\<lambda>s. s\<lparr>tr_csrs := Some (drop_matching (csr_raw c) es)\<rparr>)))"

definition request_certificate :: "signing_request \<Rightarrow> bool \<Rightarrow> unit tr" where
  "request_certificate c is_ca =
     bindM (readM (\<lambda>s. not_mine s \<or> \<not> tr_related s)) (\<lambda>no.
       if no then skip
       else modM (\<lambda>s. s\<lparr>tr_csrs := Some ((case tr_csrs s of None \<Rightarrow> [] | Some es \<Rightarrow> es) @ [\<lparr>ce_text = strip (csr_raw c), ce_ca = Some is_ca\<rparr>])\<rparr>))"

definition csr_wanted :: "signing_request \<Rightarrow> bool \<Rightarrow> requirer \<Rightarrow> bool" where
  "csr_wanted c is_ca s = list_ex (\<lambda>a. a = attributes_from_csr c is_ca) (tr_requests s)"

definition csr_for :: "cert_attributes \<Rightarrow> (signing_request \<times> bool) list \<Rightarrow> (signing_request \<times> bool) option" where
  "csr_for a cs = find (\<lambda>(c, is_ca). a = attributes_from_csr c is_ca) cs"

definition certificate_requested :: "x509_lib \<Rightarrow> cert_attributes \<Rightarrow> requirer \<Rightarrow> exn + bool" where
  "certificate_requested lib a s =
     bindE (requirer_key s) (\<lambda>key.
       case key of
         None \<Rightarrow> Inr False
       | Some k \<Rightarrow> bindE (requirer_csrs lib s) (\<lambda>cs.
           case csr_for a cs of None \<Rightarrow> Inr False | Some (c, is_ca) \<Rightarrow> Inr (csr_matches_key lib c k)))"

definition cleanup_request :: "x509_lib \<Rightarrow> signing_request \<times> bool \<Rightarrow> unit tr" where
  "cleanup_request lib r =
     (case r of (c, is_ca) \<Rightarrow>
        bindM (readM (csr_wanted c is_ca)) (\<lambda>wanted.
          if \<not> wanted then remove_requirer_csr lib c
          else bindM (\<lambda>s. (requirer_key s, s)) (\<lambda>key.
                 case key of
                   None \<Rightarrow> skip
                 | Some k \<Rightarrow> if csr_matches_key lib c k then skip else remove_requirer_csr lib c)))"

definition cleanup_certificate_requests :: "x509_lib \<Rightarrow> unit tr" where
  "cleanup_certificate_requests lib = bindM (\<lambda>s. (requirer_csrs lib s, s)) (\<lambda>cs. forM cs (cleanup_request lib))"

definition send_request :: "x509_lib \<Rightarrow> (requirer \<Rightarrow> string) \<Rightarrow> string \<Rightarrow> cert_attributes \<Rightarrow> unit tr" where
  "send_request lib new_uuid k a =
     bindM (\<lambda>s. (certificate_requested lib a s, s)) (\<lambda>requested.
       if requested then skip
       else bindM (readM new_uuid) (\<lambda>uuid.
            bindM (liftE (generate_csr lib uuid k a)) (\<lambda>c. request_certificate c (at_is_ca a))))"

definition send_certificate_requests :: "x509_lib \<Rightarrow> (requirer \<Rightarrow> string) \<Rightarrow> unit tr" where
  "send_certificate_requests lib new_uuid =
     bindM (\<lambda>s. (requirer_key s, s)) (\<lambda>key.
       case key of
         None \<Rightarrow> skip
       | Some k \<Rightarrow> bindM (readM tr_requests) (\<lambda>as. forM as (send_request lib new_uuid k)))"

definition renew_certificate_request :: "x509_lib \<Rightarrow> (requirer \<Rightarrow> string) \<Rightarrow> signing_request \<Rightarrow> unit tr" where
  "renew_certificate_request lib new_uuid c = thenM (remove_requirer_csr lib c) (send_certificate_requests lib new_uuid)"

definition regenerate_private_key :: "x509_lib \<Rightarrow> (requirer \<Rightarrow> string) \<Rightarrow> (requirer \<Rightarrow> string) \<Rightarrow> unit tr" where
  "regenerate_private_key lib new_key new_uuid =
     bindM (readM (\<lambda>s. (tr_passed_key s, private_key_generated s))) (\<lambda>(passed, generated).
       if passed \<noteq> None then raise TLSCertificatesError
       else if \<not> generated then skip
       else thenM (generate_private_key_secret new_key)
              (thenM (cleanup_certificate_requests lib) (send_certificate_requests lib new_uuid)))"


subsection \<open>Certificates of the provider\<close>

record provider_certificate =
  pc_certificate :: string
  pc_is_ca :: bool
  pc_modulus :: "string option"
  pc_csr :: signing_request
  pc_authority :: string
  pc_chain :: "string list"
  pc_revoked :: bool

definition certificate_from_string :: "x509_lib \<Rightarrow> string \<Rightarrow> exn + string \<times> string option \<times> bool" where
  "certificate_from_string lib text =
     (case load_certificate lib text of
        None \<Rightarrow> Inl TLSCertificatesError
      | Some (n, is_ca, named) \<Rightarrow> if named then Inr (strip text, n, is_ca) else Inl IndexError)"

definition to_provider_certificate :: "x509_lib \<Rightarrow> provider_entry \<Rightarrow> exn + provider_certificate" where
  "to_provider_certificate lib e =
     bindE (certificate_from_string lib (pe_certificate e)) (\<lambda>(cert, n, is_ca).
     bindE (csr_from_string lib (pe_csr e)) (\<lambda>c.
     bindE (certificate_from_string lib (pe_ca e)) (\<lambda>(authority, _).
     bindE (mapE (\<lambda>t. bindE (certificate_from_string lib t) (\<lambda>(x, _). Inr x)) (case pe_chain e of None \<Rightarrow> [] | Some ts \<Rightarrow> ts)) (\<lambda>chain.
       Inr \<lparr>pc_certificate = cert, pc_is_ca = is_ca, pc_modulus = n, pc_csr = c, pc_authority = authority,
            pc_chain = chain, pc_revoked = (pe_revoked e = Some True)\<rparr>))))"

definition provider_certificates :: "x509_lib \<Rightarrow> requirer \<Rightarrow> exn + provider_certificate list" where
  "provider_certificates lib s =
     (if \<not> tr_related s then Inr []
      else case tr_certs s of None \<Rightarrow> Inr [] | Some es \<Rightarrow> mapE (to_provider_certificate lib) es)"

definition cert_matches_key :: "x509_lib \<Rightarrow> provider_certificate \<Rightarrow> string \<Rightarrow> bool" where
  "cert_matches_key lib p key =
     (case (pc_modulus p, key_modulus lib key) of (Some n, Some m) \<Rightarrow> n = m | _ \<Rightarrow> False)"

definition find_certificate :: "x509_lib \<Rightarrow> signing_request \<times> bool \<Rightarrow> requirer \<Rightarrow> exn + provider_certificate option" where
  "find_certificate lib r s =
     (case r of (c, is_ca) \<Rightarrow>
        bindE (requirer_key s) (\<lambda>key.
          case key of
            None \<Rightarrow> Inr None
          | Some k \<Rightarrow> bindE (provider_certificates lib s) (\<lambda>ps.
              Inr (find (\<lambda>p. csr_eq (pc_csr p) c \<and> pc_is_ca p = is_ca \<and> cert_matches_key lib p k) ps))))"

definition get_assigned_certificate :: "x509_lib \<Rightarrow> cert_attributes \<Rightarrow> requirer \<Rightarrow> exn + provider_certificate option \<times> string option" where
  "get_assigned_certificate lib a s =
     bindE (requirer_csrs lib s) (\<lambda>cs.
       case csr_for a cs of
         None \<Rightarrow> Inr (None, None)
       | Some r \<Rightarrow> bindE (find_certificate lib r s) (\<lambda>p. bindE (requirer_key s) (\<lambda>k. Inr (p, k))))"

definition announce_certificate :: "x509_lib \<Rightarrow> (provider_certificate \<Rightarrow> unit tr) \<Rightarrow> provider_certificate \<Rightarrow> unit tr" where
  "announce_certificate lib emit p =
     bindM (readM (csr_label lib (pc_csr p))) (\<lambda>label.
       if pc_revoked p then drop_secret label
       else bindM (readM (csr_wanted (pc_csr p) (pc_is_ca p))) (\<lambda>wanted.
         if \<not> wanted then skip
         else bindM (readM (\<lambda>s. map_of (tr_secrets s) label)) (\<lambda>secret.
           let content = [(''certificate'', pc_certificate p), (''csr'', csr_raw (pc_csr p))]
           in case secret of
                Some old \<Rightarrow>
                  if dget old ''certificate'' [] = pc_certificate p then skip
                  else thenM (put_secret label content) (emit p)
              | None \<Rightarrow> thenM (put_secret label content) (emit p))))"

definition announce_served :: "x509_lib \<Rightarrow> (provider_certificate \<Rightarrow> unit tr) \<Rightarrow> (signing_request \<times> bool) list \<Rightarrow> provider_certificate \<Rightarrow> unit tr" where
  "announce_served lib emit cs p = (if list_ex (\<lambda>(c, is_ca). csr_eq c (pc_csr p)) cs then announce_certificate lib emit p else skip)"

definition find_available_certificates :: "x509_lib \<Rightarrow> (provider_certificate \<Rightarrow> unit tr) \<Rightarrow> unit tr" where
  "find_available_certificates lib emit =
     bindM (\<lambda>s. (requirer_csrs lib s, s)) (\<lambda>cs.
     bindM (\<lambda>s. (provider_certificates lib s, s)) (\<lambda>ps.
       forM ps (announce_served lib emit cs)))"

definition configure_requirer :: "x509_lib \<Rightarrow> (requirer \<Rightarrow> string) \<Rightarrow> (requirer \<Rightarrow> string) \<Rightarrow> (provider_certificate \<Rightarrow> unit tr) \<Rightarrow> unit tr" where
  "configure_requirer lib new_key new_uuid emit =
     bindM (readM tr_related) (\<lambda>related.
       if \<not> related then skip
       else thenM (ensure_private_key new_key)
              (thenM (cleanup_certificate_requests lib)
                (thenM (send_certificate_requests lib new_uuid) (find_available_certificates lib emit))))"

text \<open>
  The secret of a certificate expired. The code reads the request from the secret and drops the secret after the
  request was renewed.
\<close>

definition on_secret_expired :: "x509_lib \<Rightarrow> (requirer \<Rightarrow> string) \<Rightarrow> string \<Rightarrow> unit tr" where
  "on_secret_expired lib new_uuid label =
     (if \<not> startswith label (LIBID @ ''-certificate'') then skip
      else bindM (readM (\<lambda>s. map_of (tr_secrets s) label)) (\<lambda>secret.
        case secret of
          None \<Rightarrow> skip
        | Some content \<Rightarrow>
            (case map_of content ''csr'' of
               None \<Rightarrow> raise KeyError
             | Some text \<Rightarrow>
                 bindM (liftE (csr_from_string lib text)) (\<lambda>c.
                   thenM (renew_certificate_request lib new_uuid c) (drop_secret label)))))"

definition renew_certificate :: "x509_lib \<Rightarrow> (requirer \<Rightarrow> string) \<Rightarrow> signing_request \<Rightarrow> unit tr" where
  "renew_certificate lib new_uuid c =
     bindM (readM (\<lambda>s. (csr_label lib c s, map_of (tr_secrets s) (csr_label lib c s)))) (\<lambda>(label, secret).
       case secret of
         None \<Rightarrow> skip
       | Some content \<Rightarrow>
           if dget content ''csr'' [] \<noteq> csr_raw c then skip
           else thenM (renew_certificate_request lib new_uuid c) (drop_secret label))"


section \<open>Properties\<close>

subsection \<open>Attributes survive in a request\<close>

text \<open>What is relied on of \<^verbatim>\<open>cryptography\<close>: a signed request reads as it was built, with or without white space around it.\<close>

definition faithful_x509 :: "x509_lib \<Rightarrow> bool" where
  "faithful_x509 lib \<longleftrightarrow>
     (\<forall>key subject sans. \<forall>t \<in> {sign_csr lib key subject sans, strip (sign_csr lib key subject sans)}.
        load_csr lib t = Some \<lparr>ci_subject = subject, ci_sans = sans, ci_modulus = key_modulus lib key\<rparr>)"

definition valid_ips :: "x509_lib \<Rightarrow> cert_attributes \<Rightarrow> bool" where
  "valid_ips lib a \<longleftrightarrow> fBall (sans_or_none (at_sans_ip a)) (\<lambda>s. norm_ip lib s \<noteq> None)"

text \<open>Attributes that a request can express: no absent sets, no empty texts, addresses in their normal form.\<close>

definition canonical :: "x509_lib \<Rightarrow> cert_attributes \<Rightarrow> bool" where
  "canonical lib a \<longleftrightarrow>
     at_sans_dns a \<noteq> None \<and> at_sans_oid a \<noteq> None \<and>
     (\<exists>ips. at_sans_ip a = Some ips \<and> (\<lambda>s. the (norm_ip lib s)) |`| ips = ips) \<and>
     at_email_address a \<noteq> Some [] \<and> at_organization a \<noteq> Some [] \<and> at_organizational_unit a \<noteq> Some [] \<and>
     at_country_name a \<noteq> Some [] \<and> at_state_or_province_name a \<noteq> Some [] \<and> at_locality_name a \<noteq> Some []"

definition non_empty :: "string option \<Rightarrow> string option" where
  "non_empty v = (if v = Some [] then None else v)"

lemma map_of_subject_part [simp]: "map_of (subject_part oid v) k = (if k = oid then non_empty v else None)"
  by (auto simp: subject_part_def non_empty_def split: option.splits)

lemma csr_subject_lookup:
  "map_of (csr_subject uuid a) ''commonName'' = Some (at_common_name a)"
  "map_of (csr_subject uuid a) ''x500UniqueIdentifier'' = (if at_unique_id a then Some uuid else None)"
  "map_of (csr_subject uuid a) ''organizationName'' = non_empty (at_organization a)"
  "map_of (csr_subject uuid a) ''organizationalUnitName'' = non_empty (at_organizational_unit a)"
  "map_of (csr_subject uuid a) ''emailAddress'' = non_empty (at_email_address a)"
  "map_of (csr_subject uuid a) ''countryName'' = non_empty (at_country_name a)"
  "map_of (csr_subject uuid a) ''stateOrProvinceName'' = non_empty (at_state_or_province_name a)"
  "map_of (csr_subject uuid a) ''localityName'' = non_empty (at_locality_name a)"
  by (simp_all add: csr_subject_def map_add_def split: option.splits)

lemma generate_csr_run:
  assumes "faithful_x509 lib" and "valid_ips lib a"
  obtains c where "generate_csr lib uuid key a = Inr c" "strip (csr_raw c) = csr_raw c"
    "load_csr lib (csr_raw c) = Some (csr_info_of c)" "ci_subject (csr_info_of c) = csr_subject uuid a"
    "ci_modulus (csr_info_of c) = key_modulus lib key"
    "(case ci_sans (csr_info_of c) of None \<Rightarrow> ({||}, {||}, {||}) | Some s \<Rightarrow> s) =
       (sans_or_none (at_sans_dns a), (\<lambda>s. the (norm_ip lib s)) |`| sans_or_none (at_sans_ip a), sans_or_none (at_sans_oid a))"
proof -
  obtain sans where sans: "csr_sans lib a = Inr sans"
    "(case sans of None \<Rightarrow> ({||}, {||}, {||}) | Some s \<Rightarrow> s) =
       (sans_or_none (at_sans_dns a), (\<lambda>s. the (norm_ip lib s)) |`| sans_or_none (at_sans_ip a), sans_or_none (at_sans_oid a))"
  proof (cases "sans_or_none (at_sans_dns a) = {||} \<and> sans_or_none (at_sans_ip a) = {||} \<and> sans_or_none (at_sans_oid a) = {||}")
    case True
    then show ?thesis by (intro that [of None]) (simp_all add: csr_sans_def)
  next
    case False
    have "\<not> fBex (sans_or_none (at_sans_ip a)) (\<lambda>s. norm_ip lib s = None)" using assms(2) by (auto simp: valid_ips_def)
    with False have "csr_sans lib a = Inr (Some (sans_or_none (at_sans_dns a),
        (\<lambda>s. the (norm_ip lib s)) |`| sans_or_none (at_sans_ip a), sans_or_none (at_sans_oid a)))"
      unfolding csr_sans_def Let_def by argo
    then show ?thesis by (rule that) simp
  qed
  let ?t = "sign_csr lib key (csr_subject uuid a) sans"
  have load: "load_csr lib t = Some \<lparr>ci_subject = csr_subject uuid a, ci_sans = sans, ci_modulus = key_modulus lib key\<rparr>"
    if "t \<in> {?t, strip ?t}" for t using assms(1) that unfolding faithful_x509_def by blast
  then have "generate_csr lib uuid key a =
      Inr \<lparr>csr_raw = strip ?t, csr_info_of = \<lparr>ci_subject = csr_subject uuid a, ci_sans = sans, ci_modulus = key_modulus lib key\<rparr>\<rparr>"
    using sans(1) by (simp add: generate_csr_def csr_from_string_def csr_subject_lookup)
  with load sans(2) show ?thesis using that by simp
qed

text \<open>C27: the request generated for some attributes is recognised as theirs again exactly when the attributes can be
  expressed in a request: no set of names is missing, no text is empty, and the addresses are in
  normal form. Otherwise every run asks for the certificate anew.\<close>

theorem request_recognised_iff:
  assumes "faithful_x509 lib" and "valid_ips lib a"
  shows "\<exists>c. generate_csr lib uuid key a = Inr c \<and> (attributes_from_csr c (at_is_ca a) = a \<longleftrightarrow> canonical lib a) \<and>
     (csr_matches_key lib c key \<longleftrightarrow> key_modulus lib key \<noteq> None)"
proof -
  obtain c where c: "generate_csr lib uuid key a = Inr c" "load_csr lib (csr_raw c) = Some (csr_info_of c)"
    "ci_subject (csr_info_of c) = csr_subject uuid a" "ci_modulus (csr_info_of c) = key_modulus lib key"
    "(case ci_sans (csr_info_of c) of None \<Rightarrow> ({||}, {||}, {||}) | Some s \<Rightarrow> s) =
       (sans_or_none (at_sans_dns a), (\<lambda>s. the (norm_ip lib s)) |`| sans_or_none (at_sans_ip a), sans_or_none (at_sans_oid a))"
    by (rule generate_csr_run [OF assms])
  have sets: "Some (sans_or_none v) = v \<longleftrightarrow> v \<noteq> None" for v by (cases v) (simp_all add: sans_or_none_def)
  have ips: "Some ((\<lambda>s. the (norm_ip lib s)) |`| sans_or_none v) = v \<longleftrightarrow> (\<exists>ips. v = Some ips \<and> (\<lambda>s. the (norm_ip lib s)) |`| ips = ips)"
    for v by (auto simp: sans_or_none_def split: option.splits)
  have texts: "non_empty v = v \<longleftrightarrow> v \<noteq> Some []" for v by (simp add: non_empty_def)
  have "attributes_from_csr c (at_is_ca a) = a \<longleftrightarrow> canonical lib a"
    unfolding attributes_from_csr_def Let_def c(3,5) canonical_def prod.case
    by (cases a) (simp add: csr_subject_lookup sets ips texts, blast)
  moreover have "csr_matches_key lib c key \<longleftrightarrow> key_modulus lib key \<noteq> None"
    using c(2,4) by (auto simp: csr_matches_key_def split: option.splits)
  ultimately show ?thesis using c(1) by blast
qed



subsection \<open>Cleaning up\<close>

definition distinct_texts :: "csr_entry list \<Rightarrow> bool" where
  "distinct_texts es \<longleftrightarrow> distinct (map (\<lambda>e. strip (ce_text e)) es)"

text \<open>With distinct requests the loop that skips entries removes what it should.\<close>

lemma drop_matching_filter: "distinct_texts es \<Longrightarrow> drop_matching text es = filter (\<lambda>e. strip (ce_text e) \<noteq> strip text) es"
  using drop_iterating_filter by (simp add: distinct_texts_def drop_matching_def)

definition entry_csr :: "x509_lib \<Rightarrow> csr_entry \<Rightarrow> exn + signing_request \<times> bool" where
  "entry_csr lib e = bindE (csr_from_string lib (ce_text e)) (\<lambda>c. Inr (c, ce_ca e = Some True))"

text \<open>A unit that may write its requests, with a relation and requests that can be read.\<close>

definition ready :: "x509_lib \<Rightarrow> requirer \<Rightarrow> csr_entry list \<Rightarrow> bool" where
  "ready lib s es \<longleftrightarrow> \<not> not_mine s \<and> tr_related s \<and> tr_csrs s = Some es \<and> (\<forall>e \<in> set es. \<exists>r. entry_csr lib e = Inr r)"

lemma ready_csrs:
  assumes "ready lib s es"
  obtains cs where "requirer_csrs lib s = Inr cs" "list_all2 (\<lambda>e r. entry_csr lib e = Inr r) es cs"
proof -
  obtain g where "\<forall>e \<in> set es. entry_csr lib e = Inr (g e)" using assms unfolding ready_def by metis
  then have "mapE (entry_csr lib) es = Inr (map g es)" by (rule mapE_total)
  moreover have "requirer_csrs lib s = mapE (entry_csr lib) es"
    using assms by (simp add: ready_def requirer_csrs_def entry_csr_def [abs_def])
  ultimately show ?thesis using that mapE_Inr_iff by metis
qed

lemma label_frame_csrs [simp]:
  "private_key_label (s\<lparr>tr_csrs := x\<rparr>) = private_key_label s" "csr_label lib c (s\<lparr>tr_csrs := x\<rparr>) = csr_label lib c s"
  by (cases "tr_mode s"; simp add: private_key_label_def csr_label_def)+

lemma csrs_frame [simp]:
  "requirer_key (s\<lparr>tr_csrs := x\<rparr>) = requirer_key s" "not_mine (s\<lparr>tr_csrs := x\<rparr>) = not_mine s"
  "csr_wanted c b (s\<lparr>tr_csrs := x\<rparr>) = csr_wanted c b s" "provider_certificates lib (s\<lparr>tr_csrs := x\<rparr>) = provider_certificates lib s"
  by (simp_all add: requirer_key_def not_mine_def csr_wanted_def provider_certificates_def split: option.splits)

lemma remove_run:
  assumes "ready lib s es" and "distinct_texts es"
  shows "remove_requirer_csr lib c s = (Inr (), s\<lparr>tr_csrs := Some (filter (\<lambda>e. strip (ce_text e) \<noteq> strip (csr_raw c)) es)\<rparr>)"
proof -
  obtain cs where cs: "requirer_csrs lib s = Inr cs" "list_all2 (\<lambda>e r. entry_csr lib e = Inr r) es cs"
    by (rule ready_csrs [OF assms(1)])
  then have "cs = [] \<longleftrightarrow> es = []" by auto
  moreover have "s\<lparr>tr_csrs := Some []\<rparr> = s" if "es = []" using that assms(1) by (simp add: ready_def)
  ultimately show ?thesis using cs(1) assms(1) drop_matching_filter [OF assms(2), of "csr_raw c"]
    by (auto simp: remove_requirer_csr_def bindM_apply ready_def)
qed


text \<open>An entry that is kept: its request is for attributes in demand and has the key of the unit.\<close>

definition kept :: "x509_lib \<Rightarrow> string \<Rightarrow> requirer \<Rightarrow> csr_entry \<Rightarrow> bool" where
  "kept lib k s e =
     (case entry_csr lib e of Inl _ \<Rightarrow> False | Inr (c, is_ca) \<Rightarrow> csr_wanted c is_ca s \<and> csr_matches_key lib c k)"

lemma kept_frame [simp]: "kept lib k (s\<lparr>tr_csrs := x\<rparr>) e = kept lib k s e"
  by (simp add: kept_def split: sum.splits prod.splits)

lemma entry_csr_raw: "entry_csr lib e = Inr (c, is_ca) \<Longrightarrow> strip (csr_raw c) = strip (ce_text e)"
  by (auto simp: entry_csr_def csr_from_string_def bindE_Inr split: option.splits if_splits)

lemma cleanup_loop:
  assumes "list_all2 (\<lambda>e r. entry_csr lib e = Inr r) todo rs" and "ready lib s cur" and "distinct_texts cur"
    and "requirer_key s = Inr (Some k)"
  shows "forM rs (cleanup_request lib) s =
     (Inr (), s\<lparr>tr_csrs := Some (filter (\<lambda>e. \<forall>d \<in> set todo. \<not> kept lib k s d \<longrightarrow> strip (ce_text e) \<noteq> strip (ce_text d)) cur)\<rparr>)"
  using assms
proof (induction todo rs arbitrary: s cur rule: list_all2_induct)
  case Nil
  then have "s\<lparr>tr_csrs := Some cur\<rparr> = s" by (simp add: ready_def)
  then show ?case by simp
next
  case (Cons d todo r rs)
  obtain c is_ca where r: "r = (c, is_ca)" by fastforce
  have raw: "strip (csr_raw c) = strip (ce_text d)" using Cons.hyps(1) r entry_csr_raw by blast
  let ?cur = "if kept lib k s d then cur else filter (\<lambda>e. strip (ce_text e) \<noteq> strip (ce_text d)) cur"
  let ?s = "s\<lparr>tr_csrs := Some ?cur\<rparr>"
  have cur: "s\<lparr>tr_csrs := Some cur\<rparr> = s" using Cons.prems(1) by (simp add: ready_def)
  have step: "cleanup_request lib r s = (Inr (), ?s)"
    using remove_run [OF Cons.prems(1,2), of c] Cons.prems(3) Cons.hyps(1) r raw cur by (simp add: cleanup_request_def bindM_apply kept_def)
  have "ready lib ?s ?cur" using Cons.prems(1) by (auto simp: ready_def)
  moreover have "distinct_texts ?cur" using Cons.prems(2) by (simp add: distinct_texts_def distinct_map_filter)
  ultimately have IH: "forM rs (cleanup_request lib) ?s =
     (Inr (), s\<lparr>tr_csrs := Some (filter (\<lambda>e. \<forall>d \<in> set todo. \<not> kept lib k s d \<longrightarrow> strip (ce_text e) \<noteq> strip (ce_text d)) ?cur)\<rparr>)"
    using Cons.IH [of ?s ?cur] Cons.prems(3) by simp
  show ?case using step IH r by (simp add: thenM_apply conj_commute)
qed

lemma cleanup_run:
  assumes "ready lib s es" and "distinct_texts es" and "requirer_key s = Inr (Some k)"
  shows "cleanup_certificate_requests lib s = (Inr (), s\<lparr>tr_csrs := Some (filter (kept lib k s) es)\<rparr>)"
proof -
  obtain cs where cs: "requirer_csrs lib s = Inr cs" "list_all2 (\<lambda>e r. entry_csr lib e = Inr r) es cs"
    by (rule ready_csrs [OF assms(1)])
  have "(\<forall>d \<in> set es. \<not> kept lib k s d \<longrightarrow> strip (ce_text e) \<noteq> strip (ce_text d)) \<longleftrightarrow> kept lib k s e" if "e \<in> set es" for e
    using that assms(2) unfolding distinct_texts_def distinct_map inj_on_def by blast
  then have "filter (\<lambda>e. \<forall>d \<in> set es. \<not> kept lib k s d \<longrightarrow> strip (ce_text e) \<noteq> strip (ce_text d)) es = filter (kept lib k s) es"
    by (intro filter_cong) auto
  with cleanup_loop [OF cs(2) assms] cs(1) show ?thesis by (simp add: cleanup_certificate_requests_def bindM_apply)
qed


subsection \<open>Sending\<close>

definition serves :: "x509_lib \<Rightarrow> cert_attributes \<Rightarrow> csr_entry \<Rightarrow> bool" where
  "serves lib a e = (case entry_csr lib e of Inl _ \<Rightarrow> False | Inr (c, is_ca) \<Rightarrow> attributes_from_csr c is_ca = a)"

lemma requested_iff:
  assumes "ready lib s es" and "\<forall>e \<in> set es. kept lib k s e" and "requirer_key s = Inr (Some k)"
  shows "certificate_requested lib a s = Inr (\<exists>e \<in> set es. serves lib a e)"
proof -
  obtain cs where cs: "requirer_csrs lib s = Inr cs" "list_all2 (\<lambda>e r. entry_csr lib e = Inr r) es cs"
    by (rule ready_csrs [OF assms(1)])
  have "case csr_for a cs of None \<Rightarrow> \<not> (\<exists>e \<in> set es. serves lib a e)
      | Some (c, is_ca) \<Rightarrow> csr_matches_key lib c k \<and> (\<exists>e \<in> set es. serves lib a e)"
    using cs(2) assms(2)
  proof (induction es cs rule: list_all2_induct)
    case (Cons e es r cs)
    then show ?case by (cases r) (auto simp: csr_for_def serves_def kept_def split: option.splits prod.splits)
  qed (simp add: csr_for_def)
  with cs(1) assms(3) show ?thesis by (auto simp: certificate_requested_def split: option.splits)
qed


definition requestable :: "x509_lib \<Rightarrow> cert_attributes \<Rightarrow> bool" where
  "requestable lib a \<longleftrightarrow> valid_ips lib a \<and> canonical lib a"

lemma new_entry:
  assumes "faithful_x509 lib" and "requestable lib a" and "key_modulus lib k = Some n" and "a \<in> set (tr_requests s)"
  obtains c where "generate_csr lib uuid k a = Inr c"
    "serves lib a \<lparr>ce_text = strip (csr_raw c), ce_ca = Some (at_is_ca a)\<rparr>" "kept lib k s \<lparr>ce_text = strip (csr_raw c), ce_ca = Some (at_is_ca a)\<rparr>"
    "\<exists>r. entry_csr lib \<lparr>ce_text = strip (csr_raw c), ce_ca = Some (at_is_ca a)\<rparr> = Inr r"
proof -
  from assms(2) have ips: "valid_ips lib a" by (simp add: requestable_def)
  obtain c where c: "generate_csr lib uuid k a = Inr c" "strip (csr_raw c) = csr_raw c"
    "load_csr lib (csr_raw c) = Some (csr_info_of c)" "ci_subject (csr_info_of c) = csr_subject uuid a"
    using generate_csr_run [OF assms(1) ips, of uuid k] by metis
  have "attributes_from_csr c (at_is_ca a) = a" "csr_matches_key lib c k"
    using request_recognised_iff [OF assms(1) ips, of uuid k] c(1) assms(2,3) by (auto simp: requestable_def)
  moreover have "entry_csr lib \<lparr>ce_text = strip (csr_raw c), ce_ca = Some (at_is_ca a)\<rparr> = Inr (c, at_is_ca a)"
    using c(2,3,4) by (simp add: entry_csr_def csr_from_string_def csr_subject_lookup)
  ultimately show ?thesis using assms(4) c(1) that
    by (simp add: serves_def kept_def csr_wanted_def list_ex_iff)
qed

lemma send_loop:
  assumes "faithful_x509 lib" and "key_modulus lib k = Some n" and "\<forall>a \<in> set as. requestable lib a"
    and "ready lib s es" and "\<forall>e \<in> set es. kept lib k s e" and "requirer_key s = Inr (Some k)" and "set as \<subseteq> set (tr_requests s)"
  shows "\<exists>es'. forM as (send_request lib new_uuid k) s = (Inr (), s\<lparr>tr_csrs := Some es'\<rparr>) \<and> set es \<subseteq> set es' \<and>
     ready lib (s\<lparr>tr_csrs := Some es'\<rparr>) es' \<and> (\<forall>e \<in> set es'. kept lib k s e) \<and> (\<forall>a \<in> set as. \<exists>e \<in> set es'. serves lib a e)"
  using assms(3-)
proof (induction as arbitrary: s es)
  case Nil
  then have "s\<lparr>tr_csrs := Some es\<rparr> = s" by (simp add: ready_def)
  with Nil show ?case by (intro exI [of _ es]) simp
next
  case (Cons a as)
  note req = requested_iff [OF Cons.prems(2,3,4), of a]
  obtain es1 where 1: "send_request lib new_uuid k a s = (Inr (), s\<lparr>tr_csrs := Some es1\<rparr>)" "set es \<subseteq> set es1"
    "ready lib (s\<lparr>tr_csrs := Some es1\<rparr>) es1" "\<forall>e \<in> set es1. kept lib k s e" "\<exists>e \<in> set es1. serves lib a e"
  proof (cases "\<exists>e \<in> set es. serves lib a e")
    case True
    have "s\<lparr>tr_csrs := Some es\<rparr> = s" using Cons.prems(2) by (simp add: ready_def)
    with True req Cons.prems(2,3) show ?thesis by (intro that [of es]) (simp_all add: send_request_def bindM_apply)
  next
    case False
    have a: "requestable lib a" "a \<in> set (tr_requests s)" using Cons.prems(1,5) by simp_all
    obtain c where c: "generate_csr lib (new_uuid s) k a = Inr c"
      "serves lib a \<lparr>ce_text = strip (csr_raw c), ce_ca = Some (at_is_ca a)\<rparr>" "kept lib k s \<lparr>ce_text = strip (csr_raw c), ce_ca = Some (at_is_ca a)\<rparr>"
      "\<exists>r. entry_csr lib \<lparr>ce_text = strip (csr_raw c), ce_ca = Some (at_is_ca a)\<rparr> = Inr r"
      by (rule new_entry [OF assms(1) a(1) assms(2) a(2)])
    let ?es = "es @ [\<lparr>ce_text = strip (csr_raw c), ce_ca = Some (at_is_ca a)\<rparr>]"
    have "send_request lib new_uuid k a s = (Inr (), s\<lparr>tr_csrs := Some ?es\<rparr>)"
      using False req c(1) Cons.prems(2) by (simp add: send_request_def request_certificate_def bindM_apply ready_def)
    moreover have "ready lib (s\<lparr>tr_csrs := Some ?es\<rparr>) ?es" using Cons.prems(2) c(4) by (auto simp: ready_def)
    ultimately show ?thesis using c(2,3) Cons.prems(3) by (intro that [of ?es]) auto
  qed
  let ?s = "s\<lparr>tr_csrs := Some es1\<rparr>"
  have "\<forall>e \<in> set es1. kept lib k ?s e" "requirer_key ?s = Inr (Some k)" "set as \<subseteq> set (tr_requests ?s)" "\<forall>a \<in> set as. requestable lib a"
    using 1(4) Cons.prems by simp_all
  from Cons.IH [OF this(4) 1(3) this(1-3)] obtain es' where
    "forM as (send_request lib new_uuid k) ?s = (Inr (), s\<lparr>tr_csrs := Some es'\<rparr>)" "set es1 \<subseteq> set es'"
    "ready lib (s\<lparr>tr_csrs := Some es'\<rparr>) es'" "\<forall>e \<in> set es'. kept lib k s e" "\<forall>a \<in> set as. \<exists>e \<in> set es'. serves lib a e"
    by auto
  with 1 show ?case by (intro exI [of _ es']) (auto simp: thenM_apply)
qed

lemma send_run:
  assumes "faithful_x509 lib" and "key_modulus lib k = Some n" and "\<forall>a \<in> set (tr_requests s). requestable lib a"
    and "ready lib s es" and "\<forall>e \<in> set es. kept lib k s e" and "requirer_key s = Inr (Some k)"
  obtains es' where "send_certificate_requests lib new_uuid s = (Inr (), s\<lparr>tr_csrs := Some es'\<rparr>)"
    "ready lib (s\<lparr>tr_csrs := Some es'\<rparr>) es'" "\<forall>e \<in> set es'. kept lib k s e"
    "\<forall>a \<in> set (tr_requests s). \<exists>e \<in> set es'. serves lib a e"
proof -
  from send_loop [OF assms subset_refl, of new_uuid] obtain es' where
    "forM (tr_requests s) (send_request lib new_uuid k) s = (Inr (), s\<lparr>tr_csrs := Some es'\<rparr>)"
    "ready lib (s\<lparr>tr_csrs := Some es'\<rparr>) es'" "\<forall>e \<in> set es'. kept lib k s e" "\<forall>a \<in> set (tr_requests s). \<exists>e \<in> set es'. serves lib a e"
    by blast
  with assms(6) show ?thesis by (intro that [of es']) (simp_all add: send_certificate_requests_def bindM_apply)
qed

text \<open>When every request is served, sending changes nothing.\<close>

lemma send_nothing:
  assumes "ready lib s es" and "\<forall>e \<in> set es. kept lib k s e" and "requirer_key s = Inr (Some k)"
    and "\<forall>a \<in> set (tr_requests s). \<exists>e \<in> set es. serves lib a e"
  shows "send_certificate_requests lib new_uuid s = (Inr (), s)"
proof -
  have "forM as (send_request lib new_uuid k) s = (Inr (), s)" if "set as \<subseteq> set (tr_requests s)" for as
    using that
  proof (induction as)
    case (Cons a as)
    then have "\<exists>e \<in> set es. serves lib a e" using assms(4) by simp
    then have "send_request lib new_uuid k a s = (Inr (), s)"
      using requested_iff [OF assms(1-3), of a] by (simp add: send_request_def bindM_apply)
    with Cons show ?case by (simp add: thenM_apply)
  qed simp
  from this [of "tr_requests s"] assms(3) show ?thesis by (simp add: send_certificate_requests_def bindM_apply)
qed



subsection \<open>Announcing\<close>

lemma secrets_frame [simp]:
  "requirer_csrs lib (s\<lparr>tr_secrets := x\<rparr>) = requirer_csrs lib s" "csr_wanted c b (s\<lparr>tr_secrets := x\<rparr>) = csr_wanted c b s"
  "provider_certificates lib (s\<lparr>tr_secrets := x\<rparr>) = provider_certificates lib s" "not_mine (s\<lparr>tr_secrets := x\<rparr>) = not_mine s"
  "kept lib k (s\<lparr>tr_secrets := x\<rparr>) e = kept lib k s e" "ready lib (s\<lparr>tr_secrets := x\<rparr>) es = ready lib s es"
proof -
  show nm: "not_mine (s\<lparr>tr_secrets := x\<rparr>) = not_mine s" and w: "csr_wanted c b (s\<lparr>tr_secrets := x\<rparr>) = csr_wanted c b s" for c b
    by (simp_all add: not_mine_def csr_wanted_def)
  show "requirer_csrs lib (s\<lparr>tr_secrets := x\<rparr>) = requirer_csrs lib s" "provider_certificates lib (s\<lparr>tr_secrets := x\<rparr>) = provider_certificates lib s"
    by (simp_all add: requirer_csrs_def nm provider_certificates_def split: option.splits)
  show "kept lib k (s\<lparr>tr_secrets := x\<rparr>) e = kept lib k s e" "ready lib (s\<lparr>tr_secrets := x\<rparr>) es = ready lib s es"
    by (simp_all add: kept_def w ready_def nm split: sum.splits prod.splits)
qed

lemma label_frame_secrets [simp]:
  "private_key_label (s\<lparr>tr_secrets := x\<rparr>) = private_key_label s" "csr_label lib c (s\<lparr>tr_secrets := x\<rparr>) = csr_label lib c s"
  by (cases "tr_mode s"; simp add: private_key_label_def csr_label_def)+

lemma csr_label_inject: "csr_label lib c s = csr_label lib c' s \<longleftrightarrow> sha256_hex lib (csr_raw c) = sha256_hex lib (csr_raw c')"
  by (cases "tr_mode s") (simp_all add: csr_label_def)

lemma key_label_other: "csr_label lib c s \<noteq> private_key_label s"
  by (cases "tr_mode s") (simp_all add: csr_label_def private_key_label_def)

text \<open>The secret of a certificate says what the provider's databag says.\<close>

definition announced :: "x509_lib \<Rightarrow> requirer \<Rightarrow> provider_certificate \<Rightarrow> bool" where
  "announced lib s p =
     (let secret = map_of (tr_secrets s) (csr_label lib (pc_csr p) s)
      in if pc_revoked p then secret = None
         else csr_wanted (pc_csr p) (pc_is_ca p) s \<longrightarrow> (\<exists>old. secret = Some old \<and> dget old ''certificate'' [] = pc_certificate p))"

lemma ddel_absent: "map_of d k = None \<Longrightarrow> ddel k d = d"
  by (simp add: ddel_def map_of_eq_None_iff delete_idem)

lemma announce_again: "announced lib s p \<Longrightarrow> announce_certificate lib emit p s = (Inr (), s)"
  by (auto simp: announced_def announce_certificate_def drop_secret_def ddel_absent bindM_apply Let_def)

lemma announce_run:
  assumes "\<forall>p s. emit p s = (Inr (), s)"
  shows "\<exists>x. announce_certificate lib emit p s = (Inr (), s\<lparr>tr_secrets := x\<rparr>) \<and> announced lib (s\<lparr>tr_secrets := x\<rparr>) p \<and>
     (\<forall>l. l \<noteq> csr_label lib (pc_csr p) s \<longrightarrow> map_of x l = map_of (tr_secrets s) l)"
proof -
  let ?l = "csr_label lib (pc_csr p) s"
  let ?content = "[(''certificate'', pc_certificate p), (''csr'', csr_raw (pc_csr p))]"
  let ?x = "if pc_revoked p then ddel ?l (tr_secrets s)
            else if announced lib s p then tr_secrets s else dset ?l ?content (tr_secrets s)"
  have "announce_certificate lib emit p s = (Inr (), s\<lparr>tr_secrets := ?x\<rparr>)"
    using assms by (auto simp: announce_certificate_def announced_def drop_secret_def put_secret_def bindM_apply thenM_apply Let_def split: option.splits)
  moreover have "announced lib (s\<lparr>tr_secrets := ?x\<rparr>) p"
    by (auto simp: announced_def dget_def Let_def)
  ultimately show ?thesis by (intro exI [of _ ?x]) simp
qed

lemma announced_frame:
  "map_of x (csr_label lib (pc_csr p) s) = map_of (tr_secrets s) (csr_label lib (pc_csr p) s) \<Longrightarrow>
     announced lib (s\<lparr>tr_secrets := x\<rparr>) p = announced lib s p"
  by (simp add: announced_def Let_def)

lemma announce_loop:
  assumes "\<forall>p s. emit p s = (Inr (), s)" and "distinct (map (\<lambda>p. sha256_hex lib (csr_raw (pc_csr p))) ps)"
  shows "\<exists>x. forM ps (announce_served lib emit cs) s = (Inr (), s\<lparr>tr_secrets := x\<rparr>) \<and>
     (\<forall>p \<in> set ps. list_ex (\<lambda>(c, is_ca). csr_eq c (pc_csr p)) cs \<longrightarrow> announced lib (s\<lparr>tr_secrets := x\<rparr>) p) \<and>
     (\<forall>l. l \<notin> (\<lambda>p. csr_label lib (pc_csr p) s) ` set ps \<longrightarrow> map_of x l = map_of (tr_secrets s) l)"
  using assms(2)
proof (induction ps arbitrary: s)
  case Nil
  have "s = s\<lparr>tr_secrets := tr_secrets s\<rparr>" by simp
  then show ?case by (intro exI [of _ "tr_secrets s"]) simp
next
  case (Cons p ps)
  obtain y where y: "announce_served lib emit cs p s = (Inr (), s\<lparr>tr_secrets := y\<rparr>)"
    "list_ex (\<lambda>(c, is_ca). csr_eq c (pc_csr p)) cs \<longrightarrow> announced lib (s\<lparr>tr_secrets := y\<rparr>) p"
    "\<And>l. l \<noteq> csr_label lib (pc_csr p) s \<Longrightarrow> map_of y l = map_of (tr_secrets s) l"
  proof (cases "list_ex (\<lambda>(c, is_ca). csr_eq c (pc_csr p)) cs")
    case True
    obtain y where "announce_certificate lib emit p s = (Inr (), s\<lparr>tr_secrets := y\<rparr>)" "announced lib (s\<lparr>tr_secrets := y\<rparr>) p"
      "\<forall>l. l \<noteq> csr_label lib (pc_csr p) s \<longrightarrow> map_of y l = map_of (tr_secrets s) l"
      using announce_run [of emit lib p s] assms(1) by blast
    with True show ?thesis by (intro that [of y]) (simp_all add: announce_served_def)
  next
    case False
    then show ?thesis by (intro that [of "tr_secrets s"]) (simp_all add: announce_served_def)
  qed
  have "distinct (map (\<lambda>p. sha256_hex lib (csr_raw (pc_csr p))) ps)" using Cons.prems by simp
  from Cons.IH [OF this, of "s\<lparr>tr_secrets := y\<rparr>"] obtain x where
    x: "forM ps (announce_served lib emit cs) (s\<lparr>tr_secrets := y\<rparr>) = (Inr (), s\<lparr>tr_secrets := x\<rparr>)"
    "\<forall>p \<in> set ps. list_ex (\<lambda>(c, is_ca). csr_eq c (pc_csr p)) cs \<longrightarrow> announced lib (s\<lparr>tr_secrets := x\<rparr>) p"
    "\<forall>l. l \<notin> (\<lambda>p. csr_label lib (pc_csr p) s) ` set ps \<longrightarrow> map_of x l = map_of y l" by auto
  have "csr_label lib (pc_csr p) s \<notin> (\<lambda>p. csr_label lib (pc_csr p) s) ` set ps"
    using Cons.prems by (auto simp: csr_label_inject)
  with x(3) have "announced lib (s\<lparr>tr_secrets := x\<rparr>) p = announced lib (s\<lparr>tr_secrets := y\<rparr>) p"
    using announced_frame [of x lib p "s\<lparr>tr_secrets := y\<rparr>"] by simp
  with x y show ?case by (intro exI [of _ x]) (auto simp: thenM_apply)
qed



subsection \<open>A run settles\<close>

text \<open>The key a run works with: the one passed, the stored one, or a new one.\<close>

definition current_key :: "(requirer \<Rightarrow> string) \<Rightarrow> requirer \<Rightarrow> string" where
  "current_key new_key s =
     (case tr_passed_key s of
        Some k \<Rightarrow> k
      | None \<Rightarrow> (case map_of (tr_secrets s) (private_key_label s) of
                  None \<Rightarrow> strip (new_key s)
                | Some content \<Rightarrow> strip (dget content ''private-key'' [])))"

lemma ensure_key_run:
  assumes "\<forall>content. map_of (tr_secrets s) (private_key_label s) = Some content \<longrightarrow> ''private-key'' \<in> set (keys content)"
  shows "\<exists>x. ensure_private_key new_key s = (Inr (), s\<lparr>tr_secrets := x\<rparr>) \<and>
     requirer_key (s\<lparr>tr_secrets := x\<rparr>) = Inr (Some (current_key new_key s)) \<and>
     (tr_passed_key s \<noteq> None \<longleftrightarrow> map_of x (private_key_label s) = None)"
proof -
  let ?l = "private_key_label s"
  consider (passed) "tr_passed_key s \<noteq> None" | (found) content where "tr_passed_key s = None" "map_of (tr_secrets s) ?l = Some content"
    | (new) "tr_passed_key s = None" "map_of (tr_secrets s) ?l = None" by (cases "tr_passed_key s"; cases "map_of (tr_secrets s) ?l") auto
  then show ?thesis
  proof cases
    case passed
    then show ?thesis
      by (intro exI [of _ "ddel ?l (tr_secrets s)"])
         (auto simp: current_key_def ensure_private_key_def drop_secret_def requirer_key_def bindM_apply)
  next
    case (found content)
    then obtain k where "map_of content ''private-key'' = Some k" using assms by auto
    with found show ?thesis
      by (intro exI [of _ "tr_secrets s"])
         (auto simp: current_key_def dget_def ensure_private_key_def private_key_generated_def requirer_key_def bindM_apply)
  next
    case new
    then show ?thesis
      by (intro exI [of _ "dset ?l [(''private-key'', new_key s)] (tr_secrets s)"])
         (auto simp: current_key_def ensure_private_key_def generate_private_key_secret_def put_secret_def private_key_generated_def requirer_key_def bindM_apply)
  qed
qed

text \<open>A state in which a run has nothing to do.\<close>

definition settled :: "x509_lib \<Rightarrow> requirer \<Rightarrow> bool" where
  "settled lib s \<longleftrightarrow>
     (\<exists>es k cs ps.
        ready lib s es \<and> requirer_key s = Inr (Some k) \<and> (\<forall>e \<in> set es. kept lib k s e) \<and>
        (\<forall>a \<in> set (tr_requests s). \<exists>e \<in> set es. serves lib a e) \<and>
        requirer_csrs lib s = Inr cs \<and> provider_certificates lib s = Inr ps \<and>
        (\<forall>p \<in> set ps. list_ex (\<lambda>(c, is_ca). csr_eq c (pc_csr p)) cs \<longrightarrow> announced lib s p) \<and>
        (tr_passed_key s \<noteq> None \<longleftrightarrow> map_of (tr_secrets s) (private_key_label s) = None))"

lemma cleanup_nothing:
  assumes "ready lib s es" and "\<forall>e \<in> set es. kept lib k s e" and "requirer_key s = Inr (Some k)"
  shows "cleanup_certificate_requests lib s = (Inr (), s)"
proof -
  obtain cs where cs: "requirer_csrs lib s = Inr cs" "list_all2 (\<lambda>e r. entry_csr lib e = Inr r) es cs"
    by (rule ready_csrs [OF assms(1)])
  have "forM cs (cleanup_request lib) s = (Inr (), s)"
    using cs(2) assms(2)
  proof (induction es cs rule: list_all2_induct)
    case (Cons e es r cs)
    then show ?case using assms(3) by (cases r) (simp add: cleanup_request_def kept_def bindM_apply thenM_apply)
  qed simp
  with cs(1) show ?thesis by (simp add: cleanup_certificate_requests_def bindM_apply)
qed

lemma settled_idle:
  assumes "settled lib s"
  shows "configure_requirer lib new_key new_uuid emit s = (Inr (), s)"
proof -
  obtain es k cs ps where s: "ready lib s es" "requirer_key s = Inr (Some k)" "\<forall>e \<in> set es. kept lib k s e"
    "\<forall>a \<in> set (tr_requests s). \<exists>e \<in> set es. serves lib a e" "requirer_csrs lib s = Inr cs" "provider_certificates lib s = Inr ps"
    "\<forall>p \<in> set ps. list_ex (\<lambda>(c, is_ca). csr_eq c (pc_csr p)) cs \<longrightarrow> announced lib s p"
    "tr_passed_key s \<noteq> None \<longleftrightarrow> map_of (tr_secrets s) (private_key_label s) = None"
    using assms unfolding settled_def by (elim exE conjE) (rule that)
  have "ensure_private_key new_key s = (Inr (), s)"
    using s(8) by (auto simp: ensure_private_key_def drop_secret_def private_key_generated_def ddel_absent bindM_apply)
  moreover have "forM ps (announce_served lib emit cs) s = (Inr (), s)"
    using s(7) by (induction ps) (auto simp: announce_served_def announce_again thenM_apply)
  then have "find_available_certificates lib emit s = (Inr (), s)"
    using s(5,6) by (simp add: find_available_certificates_def bindM_apply)
  moreover have "tr_related s" using s(1) by (simp add: ready_def)
  ultimately show ?thesis
    using cleanup_nothing [OF s(1,3,2)] send_nothing [OF s(1,3,2,4), of new_uuid]
    by (simp add: configure_requirer_def bindM_apply thenM_apply)
qed


lemma requirer_key_cong:
  "map_of x (private_key_label s) = map_of (tr_secrets s) (private_key_label s) \<Longrightarrow> requirer_key (s\<lparr>tr_secrets := x\<rparr>) = requirer_key s"
  by (simp add: requirer_key_def split: option.splits)

lemma announce_settles:
  assumes "\<forall>p s. emit p s = (Inr (), s)" and "distinct (map (\<lambda>p. sha256_hex lib (csr_raw (pc_csr p))) ps)"
    and "ready lib s es" and "requirer_key s = Inr (Some k)" and "\<forall>e \<in> set es. kept lib k s e"
    and "\<forall>a \<in> set (tr_requests s). \<exists>e \<in> set es. serves lib a e" and "provider_certificates lib s = Inr ps"
    and "tr_passed_key s \<noteq> None \<longleftrightarrow> map_of (tr_secrets s) (private_key_label s) = None"
  shows "\<exists>x. find_available_certificates lib emit s = (Inr (), s\<lparr>tr_secrets := x\<rparr>) \<and> settled lib (s\<lparr>tr_secrets := x\<rparr>)"
proof -
  obtain cs where cs: "requirer_csrs lib s = Inr cs" by (rule ready_csrs [OF assms(3)])
  obtain x where x: "forM ps (announce_served lib emit cs) s = (Inr (), s\<lparr>tr_secrets := x\<rparr>)"
    "\<forall>p \<in> set ps. list_ex (\<lambda>(c, is_ca). csr_eq c (pc_csr p)) cs \<longrightarrow> announced lib (s\<lparr>tr_secrets := x\<rparr>) p"
    "\<forall>l. l \<notin> (\<lambda>p. csr_label lib (pc_csr p) s) ` set ps \<longrightarrow> map_of x l = map_of (tr_secrets s) l"
    using announce_loop [OF assms(1,2)] by blast
  have "private_key_label s \<notin> (\<lambda>p. csr_label lib (pc_csr p) s) ` set ps" by (rule notI, erule imageE) (use key_label_other in metis)
  with x(3) have key: "map_of x (private_key_label s) = map_of (tr_secrets s) (private_key_label s)" by blast
  then have "settled lib (s\<lparr>tr_secrets := x\<rparr>)"
    using assms(3-8) cs x(2) requirer_key_cong [OF key] unfolding settled_def
    by (intro exI [of _ es] exI [of _ k] exI [of _ cs] exI [of _ ps]) simp
  with x(1) cs assms(7) show ?thesis by (auto simp: find_available_certificates_def bindM_apply)
qed

text \<open>C15: one run of the requirer settles: it ends normally, every certificate the charm asks for has a request with its
  attributes and the unit's key in the databag, every request there is for one of them, and
  any further run, whatever keys and ids it would draw, changes nothing and emits no event.\<close>

theorem requirer_settles:
  assumes "faithful_x509 lib" and "ready lib s es" and "distinct_texts es"
    and "\<forall>content. map_of (tr_secrets s) (private_key_label s) = Some content \<longrightarrow> ''private-key'' \<in> set (keys content)"
    and "key_modulus lib (current_key new_key s) \<noteq> None" and "\<forall>a \<in> set (tr_requests s). requestable lib a"
    and "provider_certificates lib s = Inr ps" and "distinct (map (\<lambda>p. sha256_hex lib (csr_raw (pc_csr p))) ps)"
    and "\<forall>p s. emit p s = (Inr (), s)"
  shows "\<exists>s' es'. configure_requirer lib new_key new_uuid emit s = (Inr (), s') \<and> tr_csrs s' = Some es' \<and>
     (\<forall>a \<in> set (tr_requests s). \<exists>e \<in> set es'. serves lib a e) \<and>
     (\<forall>e \<in> set es'. kept lib (current_key new_key s) s e) \<and>
     (\<forall>new_key' new_uuid' emit'. configure_requirer lib new_key' new_uuid' emit' s' = (Inr (), s'))"
proof -
  let ?k = "current_key new_key s"
  obtain x where x: "ensure_private_key new_key s = (Inr (), s\<lparr>tr_secrets := x\<rparr>)" "requirer_key (s\<lparr>tr_secrets := x\<rparr>) = Inr (Some ?k)"
    "tr_passed_key s \<noteq> None \<longleftrightarrow> map_of x (private_key_label s) = None"
    using ensure_key_run [OF assms(4), of new_key] by (elim exE conjE) (rule that)
  let ?s1 = "s\<lparr>tr_secrets := x\<rparr>"
  have 1: "ready lib ?s1 es" using assms(2) by simp
  let ?es = "filter (kept lib ?k ?s1) es"
  let ?s2 = "?s1\<lparr>tr_csrs := Some ?es\<rparr>"
  have clean: "cleanup_certificate_requests lib ?s1 = (Inr (), ?s2)" by (rule cleanup_run [OF 1 assms(3) x(2)])
  have 2: "ready lib ?s2 ?es" "\<forall>e \<in> set ?es. kept lib ?k ?s2 e" "requirer_key ?s2 = Inr (Some ?k)" "\<forall>a \<in> set (tr_requests ?s2). requestable lib a"
    using 1 x(2) assms(6) by (auto simp: ready_def)
  obtain n where "key_modulus lib ?k = Some n" using assms(5) by blast
  from send_run [OF assms(1) this 2(4,1,2,3)] obtain es' where es':
    "send_certificate_requests lib new_uuid ?s2 = (Inr (), ?s2\<lparr>tr_csrs := Some es'\<rparr>)" "ready lib (?s2\<lparr>tr_csrs := Some es'\<rparr>) es'"
    "\<forall>e \<in> set es'. kept lib ?k ?s2 e" "\<forall>a \<in> set (tr_requests ?s2). \<exists>e \<in> set es'. serves lib a e" by metis
  let ?s3 = "?s2\<lparr>tr_csrs := Some es'\<rparr>"
  have 3: "requirer_key ?s3 = Inr (Some ?k)" "\<forall>e \<in> set es'. kept lib ?k ?s3 e" "\<forall>a \<in> set (tr_requests ?s3). \<exists>e \<in> set es'. serves lib a e"
    "provider_certificates lib ?s3 = Inr ps" "tr_passed_key ?s3 \<noteq> None \<longleftrightarrow> map_of (tr_secrets ?s3) (private_key_label ?s3) = None"
    using 2(3) es'(3,4) assms(7) x(3) by simp_all
  from announce_settles [OF assms(9,8) es'(2) 3] obtain y where
    y: "find_available_certificates lib emit ?s3 = (Inr (), ?s3\<lparr>tr_secrets := y\<rparr>)" "settled lib (?s3\<lparr>tr_secrets := y\<rparr>)" by blast
  have "configure_requirer lib new_key new_uuid emit s = (Inr (), ?s3\<lparr>tr_secrets := y\<rparr>)"
    using x(1) clean es'(1) y(1) assms(2) by (simp add: configure_requirer_def bindM_apply thenM_apply ready_def)
  with y(2) es'(3,4) settled_idle show ?thesis
    by (intro exI [of _ "?s3\<lparr>tr_secrets := y\<rparr>"] exI [of _ es']) simp
qed


text \<open>
  An example for the library: requests are written in unary, so that reading gives back what was
  signed; a key is its own modulus.
\<close>

definition unary_x509 :: x509_lib where
  "unary_x509 =
     \<lparr>load_csr = (\<lambda>t. case from_nat (length t) of (key, subject, sans) \<Rightarrow>
        Some \<lparr>ci_subject = subject, ci_sans = sans, ci_modulus = Some key\<rparr>),
      sign_csr = (\<lambda>key subject sans. replicate (to_nat (key, subject, sans)) (CHR ''a'')),
      norm_ip = Some, key_modulus = Some, load_certificate = (\<lambda>t. Some (Some t, False, True)), sha256_hex = (\<lambda>t. t)\<rparr>"

lemma unary_faithful: "faithful_x509 unary_x509"
proof -
  have "strip (replicate n (CHR ''a'')) = replicate n (CHR ''a'')" for n by (rule strip_id) (simp add: is_space_def)
  then show ?thesis by (simp add: faithful_x509_def unary_x509_def)
qed

definition sample_attributes :: cert_attributes where
  "sample_attributes =
     \<lparr>at_common_name = ''kafka-k8s-0'', at_sans_dns = Some {|''kafka-k8s-0''|}, at_sans_ip = Some {|''10.1.0.1''|}, at_sans_oid = Some {||},
      at_email_address = None, at_organization = None, at_organizational_unit = None, at_country_name = None,
      at_state_or_province_name = None, at_locality_name = None, at_is_ca = False, at_unique_id = True\<rparr>"

lemma sample_requestable: "requestable unary_x509 sample_attributes"
  by (simp add: requestable_def valid_ips_def canonical_def sans_or_none_def sample_attributes_def unary_x509_def)

definition sample_requirer :: requirer where
  "sample_requirer =
     \<lparr>tr_mode = UNIT_MODE, tr_leader = False, tr_unit_number = ''0'', tr_rel_name = ''certificates'', tr_related = True,
      tr_requests = [sample_attributes], tr_passed_key = None, tr_csrs = Some [], tr_certs = Some [], tr_secrets = []\<rparr>"

theorem request_recognised_iff_witness:
  "\<exists>c. generate_csr unary_x509 ''id'' ''key'' sample_attributes = Inr c \<and> attributes_from_csr c False = sample_attributes"
proof -
  have "valid_ips unary_x509 sample_attributes" "canonical unary_x509 sample_attributes"
    using sample_requestable by (simp_all add: requestable_def)
  then show ?thesis
    using request_recognised_iff [OF unary_faithful, of sample_attributes "''id''" "''key''"] by (auto simp: sample_attributes_def)
qed

theorem requirer_settles_witness:
  "\<exists>s'. configure_requirer unary_x509 (\<lambda>s. ''key'') (\<lambda>s. ''id'') (\<lambda>p. skip) sample_requirer = (Inr (), s') \<and>
     configure_requirer unary_x509 (\<lambda>s. ''other'') (\<lambda>s. ''other'') (\<lambda>p. raise ValueError) s' = (Inr (), s')"
proof -
  have "ready unary_x509 sample_requirer []" "provider_certificates unary_x509 sample_requirer = Inr []"
    "\<forall>content. map_of (tr_secrets sample_requirer) (private_key_label sample_requirer) = Some content \<longrightarrow> ''private-key'' \<in> set (keys content)"
    by (simp_all add: ready_def not_mine_def provider_certificates_def sample_requirer_def)
  moreover have "key_modulus unary_x509 (current_key (\<lambda>s. ''key'') sample_requirer) \<noteq> None" by (simp add: unary_x509_def)
  moreover have "\<forall>a \<in> set (tr_requests sample_requirer). requestable unary_x509 a"
    using sample_requestable by (simp add: sample_requirer_def)
  ultimately show ?thesis
    using requirer_settles [OF unary_faithful, of sample_requirer "[]" "\<lambda>s. ''key''" "[]" "\<lambda>p. skip" "\<lambda>s. ''id''"]
    by (auto simp: distinct_texts_def)
qed


text \<open>Of two equal requests next to each other, removing one leaves the second.\<close>

lemma duplicate_survives: "drop_matching ''c'' [\<lparr>ce_text = ''c'', ce_ca = None\<rparr>, \<lparr>ce_text = ''c'', ce_ca = None\<rparr>] = [\<lparr>ce_text = ''c'', ce_ca = None\<rparr>]"
  by code_simp

end
