(* ===== verification/Certificate_Provider.thy ===== *)
theory Certificate_Provider
  imports Certificate_Requests
begin

text \<open>
  \<^verbatim>\<open>tls_certificates_interface/v4/tls_certificates.py\<close>, the provider's side: the requests of all units and
  applications, the certificates it gives and removes. The locale \<open>certificate_source\<close> is what the requirer of
  \<open>Certificate_Requests\<close> needs of it.
\<close>

section \<open>The provider\<close>

text \<open>
  One relation: the requests in the databags of the remote units and of the remote application, and the certificates in
  the databag of the provider, each \<open>None\<close> when it is invalid.
\<close>

record tls_relation =
  tp_id :: int
  tp_has_app :: bool
  tp_unit_requests :: "csr_entry list option list"
  tp_app_requests :: "csr_entry list option"
  tp_certificates :: "provider_entry list option"

record tls_provider =
  tp_leader :: bool
  tp_relations :: "tls_relation list"

type_synonym 'a tp = "(tls_provider, 'a) prog"

definition RelationDataAccessError :: exn where
  "RelationDataAccessError = PyException ''RelationDataAccessError''"

definition tls_relations :: "int option \<Rightarrow> tls_provider \<Rightarrow> tls_relation list" where
  "tls_relations i v = (case i of Some n \<Rightarrow> filter (\<lambda>r. tp_id r = n) (tp_relations v) | None \<Rightarrow> tp_relations v)"

definition load_requirer_databag :: "x509_lib \<Rightarrow> tls_relation \<Rightarrow> csr_entry list option \<Rightarrow> exn + (int \<times> signing_request \<times> bool) list" where
  "load_requirer_databag lib r bag =
     (case bag of
        None \<Rightarrow> Inr []
      | Some es \<Rightarrow> mapE (\<lambda>e. bindE (csr_from_string lib (ce_text e)) (\<lambda>c. Inr (tp_id r, c, ce_ca e = Some True))) es)"

definition relation_requests :: "x509_lib \<Rightarrow> tls_relation \<Rightarrow> exn + (int \<times> signing_request \<times> bool) list" where
  "relation_requests lib r =
     bindE (mapE (load_requirer_databag lib r) (tp_unit_requests r @ [if tp_has_app r then tp_app_requests r else None])) (\<lambda>xs.
       Inr (concat xs))"

definition get_certificate_requests :: "x509_lib \<Rightarrow> int option \<Rightarrow> tls_provider \<Rightarrow> exn + (int \<times> signing_request \<times> bool) list" where
  "get_certificate_requests lib i v = bindE (mapE (relation_requests lib) (tls_relations i v)) (\<lambda>xs. Inr (concat xs))"

definition load_provider_certificates :: "tls_relation \<Rightarrow> provider_entry list" where
  "load_provider_certificates r = (case tp_certificates r of None \<Rightarrow> [] | Some es \<Rightarrow> es)"

definition dump_provider_certificates :: "provider_entry list \<Rightarrow> tls_relation \<Rightarrow> tls_relation" where
  "dump_provider_certificates es r = r\<lparr>tp_certificates := Some es\<rparr>"

text \<open>The callers remove either by the text of a certificate or by the text of a request.\<close>

datatype removal = By_Certificate string | By_Request string

fun removal_key :: "removal \<Rightarrow> (provider_entry \<Rightarrow> string) \<times> string" where
  "removal_key (By_Certificate t) = (pe_certificate, t)"
| "removal_key (By_Request t) = (pe_csr, t)"

definition remove_provider_certificate :: "removal \<Rightarrow> tls_relation \<Rightarrow> tls_relation" where
  "remove_provider_certificate k r =
     (case removal_key k of (f, t) \<Rightarrow>
        dump_provider_certificates (drop_iterating (\<lambda>e. f e = t) 0 (load_provider_certificates r)) r)"

text \<open>A wrong order of the chain is only logged; an empty chain raises.\<close>

definition certificate_entry :: "provider_certificate \<Rightarrow> provider_entry" where
  "certificate_entry p =
     \<lparr>pe_ca = pc_authority p, pe_csr = csr_raw (pc_csr p), pe_certificate = pc_certificate p,
      pe_chain = Some (pc_chain p), pe_revoked = None\<rparr>"

definition append_certificate :: "provider_entry \<Rightarrow> tls_relation \<Rightarrow> tls_relation" where
  "append_certificate e r =
     (let es = load_provider_certificates r in if e \<in> set es then r else dump_provider_certificates (es @ [e]) r)"

definition add_provider_certificate :: "provider_certificate \<Rightarrow> tls_relation \<Rightarrow> exn + tls_relation" where
  "add_provider_certificate p r = (if pc_chain p = [] then Inl IndexError else Inr (append_certificate (certificate_entry p) r))"

definition change_relation :: "int \<Rightarrow> (tls_relation \<Rightarrow> tls_relation) \<Rightarrow> tls_provider \<Rightarrow> tls_provider" where
  "change_relation i f v = v\<lparr>tp_relations := map (\<lambda>r. if tp_id r = i then f r else r) (tp_relations v)\<rparr>"

definition set_relation_certificate :: "int \<Rightarrow> provider_certificate \<Rightarrow> unit tp" where
  "set_relation_certificate i p =
     bindM (readM (\<lambda>v. (tp_leader v, find (\<lambda>r. tp_id r = i) (tp_relations v)))) (\<lambda>(leads, found).
       if \<not> leads then skip
       else case found of
              None \<Rightarrow> raise TLSCertificatesError
            | Some r \<Rightarrow>
                let r' = remove_provider_certificate (By_Request (csr_raw (pc_csr p))) r
                in thenM (modM (change_relation i (\<lambda>_. r')))
                     (bindM (liftE (add_provider_certificate p r')) (\<lambda>r''. modM (change_relation i (\<lambda>_. r'')))))"

definition revoke_entry :: "provider_entry \<Rightarrow> provider_entry" where
  "revoke_entry e = e\<lparr>pe_revoked := Some True\<rparr>"

definition revoke_relation :: "tls_relation \<Rightarrow> tls_relation" where
  "revoke_relation r = dump_provider_certificates (map revoke_entry (load_provider_certificates r)) r"

definition revoke_all_certificates :: "unit tp" where
  "revoke_all_certificates =
     bindM (readM tp_leader) (\<lambda>leads.
       if \<not> leads then skip else modM (\<lambda>v. v\<lparr>tp_relations := map revoke_relation (tp_relations v)\<rparr>))"

text \<open>Only the leader may read the databag of its own application.\<close>

definition relation_certificates :: "x509_lib \<Rightarrow> bool \<Rightarrow> tls_relation \<Rightarrow> exn + (int \<times> provider_certificate) list" where
  "relation_certificates lib leads r =
     (if \<not> tp_has_app r then Inr []
      else if \<not> leads then Inl RelationDataAccessError
      else mapE (\<lambda>e. bindE (to_provider_certificate lib e) (\<lambda>p. Inr (tp_id r, p))) (load_provider_certificates r))"

definition get_provider_certificates :: "x509_lib \<Rightarrow> int option \<Rightarrow> tls_provider \<Rightarrow> exn + (int \<times> provider_certificate) list" where
  "get_provider_certificates lib i v =
     bindE (mapE (relation_certificates lib (tp_leader v)) (tls_relations i v)) (\<lambda>xs. Inr (concat xs))"

definition get_issued_certificates :: "x509_lib \<Rightarrow> int option \<Rightarrow> tls_provider \<Rightarrow> exn + (int \<times> provider_certificate) list" where
  "get_issued_certificates lib i v =
     (if \<not> tp_leader v then Inr []
      else bindE (get_provider_certificates lib i v) (\<lambda>ps. Inr (filter (\<lambda>(_, p). \<not> pc_revoked p) ps)))"

definition requested_in :: "(int \<times> signing_request \<times> bool) list \<Rightarrow> provider_certificate \<Rightarrow> bool" where
  "requested_in cs p = list_ex (\<lambda>(_, c, _). csr_eq c (pc_csr p)) cs"

definition get_unsolicited_certificates :: "x509_lib \<Rightarrow> int option \<Rightarrow> tls_provider \<Rightarrow> exn + (int \<times> provider_certificate) list" where
  "get_unsolicited_certificates lib i v =
     bindE (get_provider_certificates lib i v) (\<lambda>ps.
     bindE (get_certificate_requests lib i v) (\<lambda>cs. Inr (filter (\<lambda>(_, p). \<not> requested_in cs p) ps)))"

text \<open>Comparing the public keys of a request and a certificate is the parameter \<open>same_key\<close>.\<close>

definition certificate_issued_for_csr ::
  "x509_lib \<Rightarrow> (string \<Rightarrow> string \<Rightarrow> bool) \<Rightarrow> signing_request \<Rightarrow> int option \<Rightarrow> tls_provider \<Rightarrow> exn + bool" where
  "certificate_issued_for_csr lib same_key c i v =
     bindE (get_issued_certificates lib i v) (\<lambda>ps.
       case find (\<lambda>(_, p). csr_eq (pc_csr p) c) ps of
         None \<Rightarrow> Inr False
       | Some (_, p) \<Rightarrow> Inr (same_key (csr_raw c) (pc_certificate p)))"

definition get_outstanding_certificate_requests ::
  "x509_lib \<Rightarrow> (string \<Rightarrow> string \<Rightarrow> bool) \<Rightarrow> int option \<Rightarrow> tls_provider \<Rightarrow> exn + (int \<times> signing_request \<times> bool) list" where
  "get_outstanding_certificate_requests lib same_key i v =
     bindE (get_certificate_requests lib i v) (\<lambda>cs.
     bindE (mapE (\<lambda>(n, c, is_ca). bindE (certificate_issued_for_csr lib same_key c i v) (\<lambda>issued. Inr ((n, c, is_ca), issued))) cs) (\<lambda>xs.
       Inr (map fst (filter (\<lambda>x. \<not> snd x) xs))))"

definition remove_unsolicited :: "(int \<times> signing_request \<times> bool) list \<Rightarrow> int \<times> provider_certificate \<Rightarrow> unit tp" where
  "remove_unsolicited cs ip =
     (case ip of (i, p) \<Rightarrow>
        if requested_in cs p then skip
        else modM (change_relation i (remove_provider_certificate (By_Certificate (pc_certificate p)))))"

definition remove_certificates_for_which_no_csr_exists :: "x509_lib \<Rightarrow> unit tp" where
  "remove_certificates_for_which_no_csr_exists lib =
     bindM (\<lambda>v. (get_provider_certificates lib None v, v)) (\<lambda>ps.
     bindM (\<lambda>v. (get_certificate_requests lib None v, v)) (\<lambda>cs.
       forM ps (remove_unsolicited cs)))"

definition configure_provider :: "x509_lib \<Rightarrow> unit tp" where
  "configure_provider lib =
     bindM (readM tp_leader) (\<lambda>leads. if \<not> leads then skip else remove_certificates_for_which_no_csr_exists lib)"


section \<open>One certificate per request\<close>

lemma distinct_map_remove1: "distinct (map f xs) \<Longrightarrow> distinct (map f (remove1 x xs))"
  by (auto simp: distinct_map distinct_remove1 inj_on_def dest: notin_set_remove1)

lemma distinct_drop_iterating: "distinct (map f xs) \<Longrightarrow> distinct (map f (drop_iterating P i xs))"
proof (induction P i xs rule: drop_iterating.induct)
  case (1 P i xs)
  then show ?case by (subst drop_iterating.simps) (auto intro: distinct_map_remove1)
qed

lemma load_dump [simp]: "load_provider_certificates (dump_provider_certificates es r) = es"
  by (simp add: load_provider_certificates_def dump_provider_certificates_def)

lemma dump_id [simp]: "tp_id (dump_provider_certificates es r) = tp_id r"
  by (simp add: dump_provider_certificates_def)

lemma dump_dump [simp]: "dump_provider_certificates es (dump_provider_certificates fs r) = dump_provider_certificates es r"
  by (simp add: dump_provider_certificates_def)

definition one_per_request :: "tls_relation \<Rightarrow> bool" where
  "one_per_request r \<longleftrightarrow> distinct (map pe_csr (load_provider_certificates r))"

lemma remove_by_request:
  "one_per_request r \<Longrightarrow> remove_provider_certificate (By_Request t) r =
     dump_provider_certificates (filter (\<lambda>e. pe_csr e \<noteq> t) (load_provider_certificates r)) r"
  by (simp add: remove_provider_certificate_def one_per_request_def drop_iterating_filter)

lemma one_per_request_remove: "one_per_request r \<Longrightarrow> one_per_request (remove_provider_certificate k r)"
  by (cases k) (simp_all add: one_per_request_def remove_provider_certificate_def distinct_drop_iterating)

lemma one_per_request_replace:
  assumes "one_per_request r"
  shows "one_per_request (append_certificate e (remove_provider_certificate (By_Request (pe_csr e)) r))"
  using assms by (auto simp: remove_by_request append_certificate_def Let_def one_per_request_def distinct_map_filter)

lemma remove_id [simp]: "tp_id (remove_provider_certificate k r) = tp_id r"
  by (cases k) (simp_all add: remove_provider_certificate_def)

lemma append_id [simp]: "tp_id (append_certificate e r) = tp_id r"
  by (simp add: append_certificate_def Let_def)

definition tidy :: "tls_provider \<Rightarrow> bool" where
  "tidy v \<longleftrightarrow> distinct (map tp_id (tp_relations v)) \<and> (\<forall>r \<in> set (tp_relations v). one_per_request r)"

lemma tidy_map:
  assumes "tidy v" and "\<And>r. r \<in> set (tp_relations v) \<Longrightarrow> tp_id (f r) = tp_id r \<and> one_per_request (f r)"
  shows "tidy (v\<lparr>tp_relations := map f (tp_relations v)\<rparr>)"
proof -
  have "map tp_id (map f (tp_relations v)) = map tp_id (tp_relations v)" using assms(2) by simp
  then show ?thesis using assms by (simp add: tidy_def del: map_map)
qed

lemma tidy_change:
  assumes "tidy v" and "\<And>r. r \<in> set (tp_relations v) \<Longrightarrow> tp_id r = i \<Longrightarrow> tp_id (f r) = i \<and> one_per_request (f r)"
  shows "tidy (change_relation i f v)"
  unfolding change_relation_def by (rule tidy_map [OF assms(1)]) (use assms in \<open>auto simp: tidy_def\<close>)

lemma tidy_set: "keeps tidy (set_relation_certificate i p)"
proof -
  have "tidy (snd (set_relation_certificate i p v))" if v: "tidy v" for v
  proof (cases "find (\<lambda>r. tp_id r = i) (tp_relations v)")
    case None
    then show ?thesis using v by (simp add: set_relation_certificate_def bindM_apply)
  next
    case (Some r)
    then have r: "r \<in> set (tp_relations v)" "tp_id r = i" by (auto simp: find_Some_iff)
    let ?r = "remove_provider_certificate (By_Request (csr_raw (pc_csr p))) r"
    have one: "one_per_request r" using v r(1) by (simp add: tidy_def)
    have 1: "tidy (change_relation i (\<lambda>_. ?r) v)"
      by (rule tidy_change [OF v]) (simp add: r(2) one_per_request_remove [OF one])
    have "one_per_request (append_certificate (certificate_entry p) ?r)"
      using one_per_request_replace [OF one, of "certificate_entry p"] by (simp add: certificate_entry_def)
    then have "tidy (change_relation i (\<lambda>_. append_certificate (certificate_entry p) ?r) (change_relation i (\<lambda>_. ?r) v))"
      by (intro tidy_change [OF 1]) (simp add: r(2))
    with 1 v Some show ?thesis
      by (simp add: set_relation_certificate_def bindM_apply thenM_apply Let_def add_provider_certificate_def)
  qed
  then show ?thesis by (simp add: keeps_def)
qed

lemma tidy_revoke: "keeps tidy revoke_all_certificates"
proof -
  have "tidy (v\<lparr>tp_relations := map revoke_relation (tp_relations v)\<rparr>)" if "tidy v" for v
    by (rule tidy_map [OF that])
      (use that in \<open>simp add: tidy_def revoke_relation_def one_per_request_def revoke_entry_def comp_def\<close>)
  then show ?thesis by (simp add: keeps_def revoke_all_certificates_def bindM_apply)
qed

lemma tidy_configure: "keeps tidy (configure_provider lib)"
proof -
  have "keeps tidy (remove_unsolicited cs ip)" for cs ip
    by (cases ip) (auto simp: remove_unsolicited_def tidy_def one_per_request_remove
        intro!: keeps_skip keeps_modM tidy_change [unfolded tidy_def])
  then have "keeps tidy (forM ps (remove_unsolicited cs))" for ps cs by (rule keeps_forM)
  then show ?thesis
    by (auto simp: keeps_def configure_provider_def remove_certificates_for_which_no_csr_exists_def bindM_apply split: sum.splits)
qed

text \<open>
  A provider's life: it issues, revokes and cleans up, also when that raises; the databags of the requirers change, relations
  come and go, and the leader changes.
\<close>

inductive provider_run :: "x509_lib \<Rightarrow> tls_provider \<Rightarrow> bool" for lib where
  start: "tp_relations v = [] \<Longrightarrow> provider_run lib v"
| issue: "provider_run lib v \<Longrightarrow> provider_run lib (snd (set_relation_certificate i p v))"
| revoke: "provider_run lib v \<Longrightarrow> provider_run lib (snd (revoke_all_certificates v))"
| configure: "provider_run lib v \<Longrightarrow> provider_run lib (snd (configure_provider lib v))"
| requests: "provider_run lib v \<Longrightarrow>
    provider_run lib (change_relation i (\<lambda>r. r\<lparr>tp_has_app := a, tp_unit_requests := us, tp_app_requests := b\<rparr>) v)"
| join: "provider_run lib v \<Longrightarrow> i \<notin> tp_id ` set (tp_relations v) \<Longrightarrow>
    provider_run lib (v\<lparr>tp_relations := tp_relations v @
      [\<lparr>tp_id = i, tp_has_app = a, tp_unit_requests = us, tp_app_requests = b, tp_certificates = Some []\<rparr>]\<rparr>)"
| leave: "provider_run lib v \<Longrightarrow> provider_run lib (v\<lparr>tp_relations := filter (\<lambda>r. tp_id r \<noteq> i) (tp_relations v)\<rparr>)"
| election: "provider_run lib v \<Longrightarrow> provider_run lib (v\<lparr>tp_leader := b\<rparr>)"

lemma tidy_frame: "tidy v \<Longrightarrow> tp_relations v' = tp_relations v \<Longrightarrow> tidy v'"
  by (simp add: tidy_def)

lemma provider_run_tidy: "provider_run lib v \<Longrightarrow> tidy v"
proof (induction rule: provider_run.induct)
  case (start v)
  then show ?case by (simp add: tidy_def)
next
  case (issue v i p)
  then show ?case using tidy_set by (simp add: keeps_def)
next
  case (revoke v)
  then show ?case using tidy_revoke by (simp add: keeps_def)
next
  case (configure v)
  then show ?case using tidy_configure by (simp add: keeps_def)
next
  case (requests v i a us b)
  then show ?case
    by (intro tidy_change) (auto simp: tidy_def one_per_request_def load_provider_certificates_def)
next
  case (join v i a us b)
  then show ?case by (simp add: tidy_def one_per_request_def load_provider_certificates_def)
next
  case (leave v i)
  then show ?case by (simp add: tidy_def distinct_map_filter)
next
  case (election v b)
  then show ?case using tidy_frame [of v "v\<lparr>tp_leader := b\<rparr>"] by simp
qed


section \<open>What the requirer relies on\<close>

text \<open>
  A source of certificates: what it issues it offers, in place of what it offered for the same request, and it
  keeps what it offers for others.
\<close>

locale certificate_source =
  fixes issue :: "provider_entry \<Rightarrow> 'v \<Rightarrow> 'v"
    and offers :: "'v \<Rightarrow> provider_entry list"
    and sound :: "'v \<Rightarrow> bool"
  assumes issue_offered: "sound v \<Longrightarrow> e \<in> set (offers (issue e v))"
    and issue_replaces: "sound v \<Longrightarrow> strip (pe_csr e) = pe_csr e \<Longrightarrow> x \<in> set (offers (issue e v)) \<Longrightarrow>
      x = e \<or> x \<in> set (offers v) \<and> strip (pe_csr x) \<noteq> pe_csr e"
    and issue_keeps: "sound v \<Longrightarrow> x \<in> set (offers v) \<Longrightarrow> pe_csr x \<noteq> pe_csr e \<Longrightarrow> x \<in> set (offers (issue e v))"
    and issue_sound: "sound v \<Longrightarrow> strip (pe_csr e) = pe_csr e \<Longrightarrow> sound (issue e v)"
begin

lemma fold_issue:
  assumes "sound v" and "\<forall>e \<in> set es. strip (pe_csr e) = pe_csr e" and "distinct (map pe_csr es)"
  shows "sound (fold issue es v) \<and> set es \<subseteq> set (offers (fold issue es v)) \<and>
    (\<forall>x \<in> set (offers (fold issue es v)). x \<in> set es \<or> x \<in> set (offers v) \<and> strip (pe_csr x) \<notin> pe_csr ` set es)"
  using assms
proof (induction es rule: rev_induct)
  case (snoc e es)
  let ?v = "fold issue es v"
  have IH: "sound ?v" "set es \<subseteq> set (offers ?v)"
    "\<forall>x \<in> set (offers ?v). x \<in> set es \<or> x \<in> set (offers v) \<and> strip (pe_csr x) \<notin> pe_csr ` set es"
    using snoc.IH snoc.prems by auto
  have e: "strip (pe_csr e) = pe_csr e" using snoc.prems(2) by simp
  have "set es \<subseteq> set (offers (issue e ?v))"
  proof
    fix x assume x: "x \<in> set es"
    with snoc.prems(3) have "pe_csr x \<noteq> pe_csr e" by (auto simp: image_iff)
    with x IH(2) show "x \<in> set (offers (issue e ?v))" by (intro issue_keeps [OF IH(1)]) auto
  qed
  moreover have "x \<in> set (es @ [e]) \<or> x \<in> set (offers v) \<and> strip (pe_csr x) \<notin> pe_csr ` set (es @ [e])"
    if "x \<in> set (offers (issue e ?v))" for x
    using issue_replaces [OF IH(1) e that] IH(3) by auto
  ultimately show ?case using issue_sound [OF IH(1) e] issue_offered [OF IH(1)] by simp
qed simp

lemma issued_unique:
  assumes "sound v" and "\<forall>e \<in> set es. strip (pe_csr e) = pe_csr e" and "distinct (map pe_csr es)"
    and "e \<in> set es" and "x \<in> set (offers (fold issue es v))" and "strip (pe_csr x) = pe_csr e"
  shows "x = e"
proof -
  have "x \<in> set es" using fold_issue [OF assms(1-3)] assms(4-6) by auto
  moreover from this have "pe_csr x = pe_csr e" using assms(2,6) by auto
  ultimately show ?thesis using assms(3,4) by (auto simp: distinct_map inj_on_def)
qed

end

text \<open>The requirer \<open>s\<close> wants a certificate for the attributes \<open>a\<close>, and \<open>p\<close> is one for its request and key.\<close>

definition answers :: "x509_lib \<Rightarrow> requirer \<Rightarrow> cert_attributes \<Rightarrow> string \<Rightarrow> provider_certificate \<Rightarrow> bool" where
  "answers lib s a k p \<longleftrightarrow>
     tr_related s \<and> requirer_key s = Inr (Some k) \<and>
     (case requirer_csrs lib s of
        Inl _ \<Rightarrow> False
      | Inr cs \<Rightarrow>
          (case csr_for a cs of
             None \<Rightarrow> False
           | Some (c, is_ca) \<Rightarrow> csr_eq (pc_csr p) c \<and> pc_is_ca p = is_ca \<and> cert_matches_key lib p k))"

lemma certs_frame [simp]:
  "requirer_key (s\<lparr>tr_certs := x\<rparr>) = requirer_key s" "requirer_csrs lib (s\<lparr>tr_certs := x\<rparr>) = requirer_csrs lib s"
proof -
  have "private_key_label (s\<lparr>tr_certs := x\<rparr>) = private_key_label s" by (cases "tr_mode s") (simp_all add: private_key_label_def)
  then show "requirer_key (s\<lparr>tr_certs := x\<rparr>) = requirer_key s" by (simp add: requirer_key_def split: option.split)
  show "requirer_csrs lib (s\<lparr>tr_certs := x\<rparr>) = requirer_csrs lib s" by (simp add: requirer_csrs_def not_mine_def split: option.split)
qed

lemma to_provider_certificate_csr: "to_provider_certificate lib e = Inr p \<Longrightarrow> csr_raw (pc_csr p) = strip (pe_csr e)"
proof -
  assume "to_provider_certificate lib e = Inr p"
  then obtain c where c: "csr_from_string lib (pe_csr e) = Inr c" "pc_csr p = c"
    by (fastforce simp: to_provider_certificate_def bindE_Inr)
  from c(1) have "csr_raw c = strip (pe_csr e)" by (auto simp: csr_from_string_def split: option.splits if_splits)
  with c(2) show ?thesis by simp
qed

lemma assigned_if_unique:
  assumes "answers lib s a k p" and "e \<in> set es" and "to_provider_certificate lib e = Inr p"
    and "\<forall>x \<in> set es. \<exists>q. to_provider_certificate lib x = Inr q"
    and "\<forall>x \<in> set es. strip (pe_csr x) = strip (pe_csr e) \<longrightarrow> x = e"
  shows "get_assigned_certificate lib a (s\<lparr>tr_certs := Some es\<rparr>) = Inr (Some p, Some k)"
proof -
  obtain g where g: "\<forall>x \<in> set es. to_provider_certificate lib x = Inr (g x)" using assms(4) by metis
  then have ps: "provider_certificates lib (s\<lparr>tr_certs := Some es\<rparr>) = Inr (map g es)"
    using assms(1) mapE_total by (simp add: provider_certificates_def answers_def)
  obtain cs c is_ca where c: "requirer_csrs lib s = Inr cs" "csr_for a cs = Some (c, is_ca)" "csr_eq (pc_csr p) c"
    "pc_is_ca p = is_ca" "cert_matches_key lib p k" "requirer_key s = Inr (Some k)"
    using assms(1) by (auto simp: answers_def split: sum.splits option.splits)
  let ?P = "\<lambda>q. csr_eq (pc_csr q) c \<and> pc_is_ca q = is_ca \<and> cert_matches_key lib q k"
  have gp: "p \<in> set (map g es)" using g assms(2,3) by force
  have only: "q = p" if q: "q \<in> set (map g es)" "?P q" for q
  proof -
    from q(1) obtain x where x: "x \<in> set es" "q = g x" by auto
    with g have "to_provider_certificate lib x = Inr q" by simp
    then have "strip (pe_csr x) = strip (pe_csr e)"
      using q(2) c(3) to_provider_certificate_csr [of lib x q] to_provider_certificate_csr [OF assms(3)] by (simp add: csr_eq_def)
    with assms(5) x(1) have "x = e" by blast
    with x g assms(2,3) show ?thesis by simp
  qed
  have "find ?P (map g es) = Some p"
  proof (cases "find ?P (map g es)")
    case None
    with gp c(3-5) show ?thesis by (auto simp: find_None_iff)
  next
    case (Some q)
    then have "q \<in> set (map g es)" "?P q" by (auto simp only: find_Some_iff nth_mem)
    then have "q = p" by (rule only)
    with Some show ?thesis by simp
  qed
  then show ?thesis using ps c(1,2,6) by (simp add: get_assigned_certificate_def find_certificate_def)
qed


section \<open>The provider is such a source\<close>

definition issue_certificate :: "provider_entry \<Rightarrow> tls_relation \<Rightarrow> tls_relation" where
  "issue_certificate e r = append_certificate e (remove_provider_certificate (By_Request (pe_csr e)) r)"

definition sound_relation :: "tls_relation \<Rightarrow> bool" where
  "sound_relation r \<longleftrightarrow> one_per_request r \<and> (\<forall>e \<in> set (load_provider_certificates r). strip (pe_csr e) = pe_csr e)"

lemma one_per_request_issue: "one_per_request r \<Longrightarrow> one_per_request (issue_certificate e r)"
  by (simp add: issue_certificate_def one_per_request_replace)

lemma load_issue:
  "one_per_request r \<Longrightarrow>
     load_provider_certificates (issue_certificate e r) = filter (\<lambda>x. pe_csr x \<noteq> pe_csr e) (load_provider_certificates r) @ [e]"
  by (simp add: issue_certificate_def append_certificate_def remove_by_request Let_def)

interpretation tls: certificate_source issue_certificate load_provider_certificates sound_relation
proof
  fix v and e :: provider_entry assume "sound_relation v"
  then show "e \<in> set (load_provider_certificates (issue_certificate e v))" by (simp add: load_issue sound_relation_def)
next
  fix v and e x :: provider_entry assume "sound_relation v" "strip (pe_csr e) = pe_csr e" "x \<in> set (load_provider_certificates (issue_certificate e v))"
  then show "x = e \<or> x \<in> set (load_provider_certificates v) \<and> strip (pe_csr x) \<noteq> pe_csr e"
    by (auto simp: load_issue sound_relation_def)
next
  fix v and x e :: provider_entry assume "sound_relation v" "x \<in> set (load_provider_certificates v)" "pe_csr x \<noteq> pe_csr e"
  then show "x \<in> set (load_provider_certificates (issue_certificate e v))" by (simp add: load_issue sound_relation_def)
next
  fix v and e :: provider_entry assume "sound_relation v" "strip (pe_csr e) = pe_csr e"
  then show "sound_relation (issue_certificate e v)"
    using one_per_request_issue [of v e] by (auto simp: load_issue sound_relation_def)
qed

lemma change_relation_other:
  "change_relation i (\<lambda>_. r'') (change_relation i (\<lambda>_. r') v) = change_relation i (\<lambda>_. r'') v" if "tp_id r' = i"
  using that by (simp add: change_relation_def)

lemma set_relation_run:
  assumes "tp_leader v" and "find (\<lambda>r. tp_id r = i) (tp_relations v) = Some r" and "pc_chain p \<noteq> []"
  shows "set_relation_certificate i p v = (Inr (), change_relation i (\<lambda>_. issue_certificate (certificate_entry p) r) v)"
proof -
  have "tp_id r = i" using assms(2) by (auto simp: find_Some_iff)
  then show ?thesis using assms change_relation_other
    by (simp add: set_relation_certificate_def bindM_apply thenM_apply Let_def add_provider_certificate_def issue_certificate_def
        certificate_entry_def)
qed

lemma find_changed:
  "find (\<lambda>r. tp_id r = i) rs = Some r \<Longrightarrow> tp_id r' = i \<Longrightarrow> find (\<lambda>r. tp_id r = i) (map (\<lambda>r. if tp_id r = i then r' else r) rs) = Some r'"
  by (induction rs) (auto split: if_splits)

lemma issue_id [simp]: "tp_id (issue_certificate e r) = tp_id r"
  by (simp add: issue_certificate_def)

lemma set_relation_runs:
  assumes "tp_leader v" and "find (\<lambda>r. tp_id r = i) (tp_relations v) = Some r" and "\<forall>p \<in> set ps. pc_chain p \<noteq> []"
  shows "\<exists>v'. forM ps (set_relation_certificate i) v = (Inr (), v') \<and>
    find (\<lambda>r. tp_id r = i) (tp_relations v') = Some (fold issue_certificate (map certificate_entry ps) r)"
  using assms
proof (induction ps arbitrary: v r)
  case (Cons p ps)
  let ?r = "issue_certificate (certificate_entry p) r" and ?v = "change_relation i (\<lambda>_. issue_certificate (certificate_entry p) r) v"
  have "tp_id ?r = i" using Cons.prems(2) by (auto simp: find_Some_iff)
  then have "find (\<lambda>r. tp_id r = i) (tp_relations ?v) = Some ?r" 
    unfolding change_relation_def using find_changed [OF Cons.prems(2)] by simp
  moreover have "tp_leader ?v" using Cons.prems(1) by (simp add: change_relation_def)
  ultimately show ?case using Cons.IH [of ?v ?r] Cons.prems set_relation_run [of v i r p] by (simp add: thenM_apply)
qed simp


section \<open>Properties\<close>

text \<open>C28: whatever a provider does and whatever happens around it, it never offers two certificates for the same request
  in one relation, although it removes entries from the list it iterates over.\<close>

theorem one_certificate_per_request:
  assumes "provider_run lib v" and "r \<in> set (tp_relations v)"
  shows "distinct (map pe_csr (load_provider_certificates r))"
  using provider_run_tidy [OF assms(1)] assms(2) by (simp add: tidy_def one_per_request_def)

text \<open>C16: the certificates a provider sets for the requests of a relation, in any order and whatever it offered before, are the
  ones their requirers get: every requirer on that relation whose request and key a certificate answers is
  assigned exactly this certificate with its key.\<close>

theorem issued_certificates_assigned:
  assumes "tp_leader v" and "find (\<lambda>r. tp_id r = i) (tp_relations v) = Some r" and "sound_relation r"
    and "\<forall>e \<in> set (load_provider_certificates r). \<exists>q. to_provider_certificate lib e = Inr q"
    and "\<forall>p \<in> set ps. pc_chain p \<noteq> [] \<and> to_provider_certificate lib (certificate_entry p) = Inr p"
    and "distinct (map (\<lambda>p. csr_raw (pc_csr p)) ps)"
  shows "\<exists>v' r'. forM ps (set_relation_certificate i) v = (Inr (), v') \<and> find (\<lambda>r. tp_id r = i) (tp_relations v') = Some r' \<and>
    (\<forall>p \<in> set ps. \<forall>s a k. answers lib s a k p \<longrightarrow>
       get_assigned_certificate lib a (s\<lparr>tr_certs := Some (load_provider_certificates r')\<rparr>) = Inr (Some p, Some k))"
proof -
  let ?es = "map certificate_entry ps"
  let ?r = "fold issue_certificate ?es r"
  obtain v' where v': "forM ps (set_relation_certificate i) v = (Inr (), v')" "find (\<lambda>r. tp_id r = i) (tp_relations v') = Some ?r"
    using set_relation_runs [OF assms(1,2)] assms(5) by blast
  have stripped: "strip (pe_csr (certificate_entry p)) = pe_csr (certificate_entry p)" if "p \<in> set ps" for p
    using to_provider_certificate_csr [of lib "certificate_entry p" p] assms(5) that by (simp add: certificate_entry_def)
  have es: "\<forall>e \<in> set ?es. strip (pe_csr e) = pe_csr e" "distinct (map pe_csr ?es)"
    using stripped assms(6) by (simp_all add: certificate_entry_def comp_def)
  note offered = tls.fold_issue [OF assms(3) es]
  have "get_assigned_certificate lib a (s\<lparr>tr_certs := Some (load_provider_certificates ?r)\<rparr>) = Inr (Some p, Some k)"
    if p: "p \<in> set ps" "answers lib s a k p" for p s a k
  proof (rule assigned_if_unique [OF p(2), of "certificate_entry p"])
    show "certificate_entry p \<in> set (load_provider_certificates ?r)" using offered p(1) by auto
    show "to_provider_certificate lib (certificate_entry p) = Inr p" using assms(5) p(1) by blast
    show "\<forall>x \<in> set (load_provider_certificates ?r). \<exists>q. to_provider_certificate lib x = Inr q"
      using offered assms(4,5) by fastforce
    show "\<forall>x \<in> set (load_provider_certificates ?r). strip (pe_csr x) = strip (pe_csr (certificate_entry p)) \<longrightarrow> x = certificate_entry p"
      using tls.issued_unique [OF assms(3) es, of "certificate_entry p"] stripped [OF p(1)] p(1) by simp
  qed
  with v' show ?thesis by blast
qed

text \<open>Entries whose certificates can be told apart and are written as they are read.\<close>

definition plain_relation :: "x509_lib \<Rightarrow> tls_relation \<Rightarrow> bool" where
  "plain_relation lib r \<longleftrightarrow>
     tp_has_app r \<and> tp_certificates r \<noteq> None \<and> distinct (map pe_certificate (load_provider_certificates r)) \<and>
     (\<forall>e \<in> set (load_provider_certificates r). \<exists>p. to_provider_certificate lib e = Inr p \<and> pc_certificate p = pe_certificate e)"

lemma plain_entry:
  assumes "\<forall>r \<in> set (tp_relations v). plain_relation lib r" and "r \<in> set (tp_relations v)" and "e \<in> set (load_provider_certificates r)"
  obtains p where "to_provider_certificate lib e = Inr p" "pc_certificate p = pe_certificate e"
  using assms unfolding plain_relation_def by blast

definition solicited :: "x509_lib \<Rightarrow> (int \<times> signing_request \<times> bool) list \<Rightarrow> provider_entry \<Rightarrow> bool" where
  "solicited lib cs e = (case to_provider_certificate lib e of Inl _ \<Rightarrow> False | Inr p \<Rightarrow> requested_in cs p)"

definition keep_entries :: "(tls_relation \<Rightarrow> provider_entry \<Rightarrow> bool) \<Rightarrow> tls_provider \<Rightarrow> tls_provider" where
  "keep_entries P v = v\<lparr>tp_relations := map (\<lambda>r. dump_provider_certificates (filter (P r) (load_provider_certificates r)) r) (tp_relations v)\<rparr>"

definition doomed :: "(int \<times> signing_request \<times> bool) list \<Rightarrow> (int \<times> provider_certificate) list \<Rightarrow> tls_relation \<Rightarrow> provider_entry \<Rightarrow> bool" where
  "doomed cs ps r e \<longleftrightarrow> (\<exists>(i, p) \<in> set ps. i = tp_id r \<and> \<not> requested_in cs p \<and> pe_certificate e = pc_certificate p)"

lemma remove_unsolicited_run:
  assumes "\<forall>r \<in> set (tp_relations v). distinct (map pe_certificate (load_provider_certificates r))"
  shows "remove_unsolicited cs (i, p) (keep_entries P v) =
    (Inr (), keep_entries (\<lambda>r e. P r e \<and> \<not> doomed cs [(i, p)] r e) v)"
proof -
  have "remove_provider_certificate (By_Certificate t) (dump_provider_certificates (filter (P r) (load_provider_certificates r)) r) =
      dump_provider_certificates (filter (\<lambda>e. P r e \<and> pe_certificate e \<noteq> t) (load_provider_certificates r)) r"
    if "r \<in> set (tp_relations v)" for r t
    using assms that drop_iterating_filter [of pe_certificate "filter (P r) (load_provider_certificates r)" t]
    by (simp add: remove_provider_certificate_def distinct_map_filter conj_commute)
  then show ?thesis by (auto simp: remove_unsolicited_def keep_entries_def change_relation_def doomed_def)
qed

lemma remove_all_unsolicited_run:
  assumes "\<forall>r \<in> set (tp_relations v). distinct (map pe_certificate (load_provider_certificates r))"
  shows "forM ps (remove_unsolicited cs) (keep_entries P v) = (Inr (), keep_entries (\<lambda>r e. P r e \<and> \<not> doomed cs ps r e) v)"
proof (induction ps arbitrary: P)
  case Nil
  then show ?case by (simp add: doomed_def)
next
  case (Cons ip ps)
  obtain i p where ip: "ip = (i, p)" by fastforce
  have "(\<lambda>r e. (P r e \<and> \<not> doomed cs [(i, p)] r e) \<and> \<not> doomed cs ps r e) = (\<lambda>r e. P r e \<and> \<not> doomed cs (ip # ps) r e)"
    by (auto simp: doomed_def ip fun_eq_iff)
  then show ?case using Cons.IH [of "\<lambda>r e. P r e \<and> \<not> doomed cs [(i, p)] r e"] remove_unsolicited_run [OF assms, of cs i p P]
    by (simp add: ip thenM_apply)
qed

lemma provider_certificates_run:
  assumes "tp_leader v" and "\<forall>r \<in> set (tp_relations v). plain_relation lib r"
  obtains ps where "get_provider_certificates lib None v = Inr ps"
    "set ps = {(tp_id r, p) | r e p. r \<in> set (tp_relations v) \<and> e \<in> set (load_provider_certificates r) \<and> to_provider_certificate lib e = Inr p}"
proof -
  define g where "g e = projr (to_provider_certificate lib e)" for e
  have g: "to_provider_certificate lib e = Inr (g e)" if "r \<in> set (tp_relations v)" "e \<in> set (load_provider_certificates r)" for r e
    by (rule plain_entry [OF assms(2) that]) (simp add: g_def)
  let ?f = "\<lambda>r. map (\<lambda>e. (tp_id r, g e)) (load_provider_certificates r)"
  have "relation_certificates lib True r = Inr (?f r)" if r: "r \<in> set (tp_relations v)" for r
  proof -
    have "mapE (\<lambda>e. bindE (to_provider_certificate lib e) (\<lambda>p. Inr (tp_id r, p))) (load_provider_certificates r) = Inr (?f r)"
      by (rule mapE_total) (simp add: g [OF r])
    then show ?thesis using assms(2) r by (simp add: relation_certificates_def plain_relation_def)
  qed
  then have "mapE (relation_certificates lib True) (tp_relations v) = Inr (map ?f (tp_relations v))" by (intro mapE_total) simp
  then have "get_provider_certificates lib None v = Inr (concat (map ?f (tp_relations v)))"
    using assms(1) by (simp add: get_provider_certificates_def tls_relations_def)
  moreover have "set (concat (map ?f (tp_relations v))) =
      {(tp_id r, p) | r e p. r \<in> set (tp_relations v) \<and> e \<in> set (load_provider_certificates r) \<and> to_provider_certificate lib e = Inr p}"
    using g by fastforce
  ultimately show ?thesis by (rule that)
qed

lemma doomed_iff:
  assumes "distinct (map tp_id (tp_relations v))" and "\<forall>r \<in> set (tp_relations v). plain_relation lib r"
    and "r \<in> set (tp_relations v)" and "e \<in> set (load_provider_certificates r)"
    and "set ps = {(tp_id r, p) | r e p. r \<in> set (tp_relations v) \<and> e \<in> set (load_provider_certificates r) \<and> to_provider_certificate lib e = Inr p}"
  shows "doomed cs ps r e \<longleftrightarrow> \<not> solicited lib cs e"
proof
  assume "doomed cs ps r e"
  then obtain p where p: "(tp_id r, p) \<in> set ps" "\<not> requested_in cs p" "pe_certificate e = pc_certificate p" by (auto simp: doomed_def)
  then obtain r' e' where r': "r' \<in> set (tp_relations v)" "tp_id r' = tp_id r" "e' \<in> set (load_provider_certificates r')"
    "to_provider_certificate lib e' = Inr p" using assms(5) by auto
  then have "r' = r" using assms(1,3) by (auto simp: distinct_map inj_on_def)
  moreover have "pe_certificate e' = pe_certificate e" using plain_entry [OF assms(2) r'(1,3)] r'(4) p(3) by (metis sum.inject(2))
  ultimately have "e' = e" using assms(2-4) r'(3) by (auto simp: plain_relation_def distinct_map inj_on_def)
  then show "\<not> solicited lib cs e" using r'(4) p(2) by (simp add: solicited_def)
next
  assume no: "\<not> solicited lib cs e"
  obtain p where p: "to_provider_certificate lib e = Inr p" "pc_certificate p = pe_certificate e"
    by (rule plain_entry [OF assms(2-4)])
  then have "(tp_id r, p) \<in> set ps" using assms(3-5) by blast
  with no p show "doomed cs ps r e" by (force simp: doomed_def solicited_def)
qed

text \<open>C29: the clean-up of a leading provider leaves, in every relation, exactly the certificates for requests that are in some
  databag, in their order.\<close>

theorem unsolicited_removed:
  assumes "tp_leader v" and "distinct (map tp_id (tp_relations v))" and "\<forall>r \<in> set (tp_relations v). plain_relation lib r"
    and "get_certificate_requests lib None v = Inr cs"
  shows "configure_provider lib v =
    (Inr (), v\<lparr>tp_relations := map (\<lambda>r. r\<lparr>tp_certificates := Some (filter (solicited lib cs) (load_provider_certificates r))\<rparr>) (tp_relations v)\<rparr>)"
proof -
  obtain ps where ps: "get_provider_certificates lib None v = Inr ps"
    "set ps = {(tp_id r, p) | r e p. r \<in> set (tp_relations v) \<and> e \<in> set (load_provider_certificates r) \<and> to_provider_certificate lib e = Inr p}"
    by (rule provider_certificates_run [OF assms(1,3)])
  have distinct: "\<forall>r \<in> set (tp_relations v). distinct (map pe_certificate (load_provider_certificates r))"
    using assms(3) by (simp add: plain_relation_def)
  have "dump_provider_certificates (load_provider_certificates r) r = r" if "r \<in> set (tp_relations v)" for r
    using assms(3) that by (auto simp: plain_relation_def dump_provider_certificates_def load_provider_certificates_def)
  then have "map (\<lambda>r. dump_provider_certificates (load_provider_certificates r) r) (tp_relations v) = tp_relations v" by (simp add: map_idI)
  then have "keep_entries (\<lambda>r e. True) v = v" by (simp add: keep_entries_def)
  then have "configure_provider lib v = (Inr (), keep_entries (\<lambda>r e. \<not> doomed cs ps r e) v)"
    using remove_all_unsolicited_run [OF distinct, of ps cs "\<lambda>r e. True"] assms(1,4) ps(1)
    by (simp add: configure_provider_def remove_certificates_for_which_no_csr_exists_def bindM_apply)
  also have "keep_entries (\<lambda>r e. \<not> doomed cs ps r e) v = keep_entries (\<lambda>r. solicited lib cs) v"
    using doomed_iff [OF assms(2,3) _ _ ps(2)] by (simp add: keep_entries_def cong: filter_cong)
  finally show ?thesis by (simp add: keep_entries_def dump_provider_certificates_def)
qed


section \<open>Witnesses\<close>

text \<open>A library that reads every text: the common name is the text and all keys are the same.\<close>

definition plain_x509 :: x509_lib where
  "plain_x509 =
     \<lparr>load_csr = (\<lambda>t. Some \<lparr>ci_subject = [(''commonName'', t)], ci_sans = None, ci_modulus = Some ''n''\<rparr>), sign_csr = (\<lambda>key subject sans. []),
      norm_ip = Some, key_modulus = (\<lambda>k. Some ''n''), load_certificate = (\<lambda>t. Some (Some ''n'', False, True)), sha256_hex = (\<lambda>t. t)\<rparr>"

definition sample_csr :: "string \<Rightarrow> signing_request" where
  "sample_csr t = \<lparr>csr_raw = t, csr_info_of = \<lparr>ci_subject = [(''commonName'', t)], ci_sans = None, ci_modulus = Some ''n''\<rparr>\<rparr>"

definition sample_certificate :: "string \<Rightarrow> string \<Rightarrow> provider_certificate" where
  "sample_certificate t cert =
     \<lparr>pc_certificate = cert, pc_is_ca = False, pc_modulus = Some ''n'', pc_csr = sample_csr t, pc_authority = ''ca'',
      pc_chain = [cert, ''ca''], pc_revoked = False\<rparr>"

definition sample_tls_relation :: tls_relation where
  "sample_tls_relation =
     \<lparr>tp_id = 7, tp_has_app = True, tp_unit_requests = [Some [\<lparr>ce_text = ''csr0'', ce_ca = None\<rparr>]], tp_app_requests = Some [],
      tp_certificates = Some [certificate_entry (sample_certificate ''csr0'' ''old''), certificate_entry (sample_certificate ''gone'' ''other'')]\<rparr>"

definition sample_provider :: tls_provider where
  "sample_provider = \<lparr>tp_leader = True, tp_relations = [sample_tls_relation]\<rparr>"

definition waiting_requirer :: requirer where
  "waiting_requirer =
     \<lparr>tr_mode = UNIT_MODE, tr_leader = False, tr_unit_number = ''0'', tr_rel_name = ''certificates'', tr_related = True,
      tr_requests = [attributes_from_csr (sample_csr ''csr0'') False], tr_passed_key = Some ''key'',
      tr_csrs = Some [\<lparr>ce_text = ''csr0'', ce_ca = None\<rparr>], tr_certs = Some [], tr_secrets = []\<rparr>"

lemmas sample_defs = plain_x509_def sample_csr_def sample_certificate_def sample_tls_relation_def sample_provider_def waiting_requirer_def

lemma strip_samples [simp]:
  "strip ''csr0'' = ''csr0''" "strip ''gone'' = ''gone''" "strip ''old'' = ''old''" "strip ''other'' = ''other''" "strip ''new'' = ''new''"
  "strip ''ca'' = ''ca''"
  by code_simp+

lemma sample_reads_back:
  "strip t = t \<Longrightarrow> strip cert = cert \<Longrightarrow>
     to_provider_certificate plain_x509 (certificate_entry (sample_certificate t cert)) = Inr (sample_certificate t cert)"
  by (simp add: to_provider_certificate_def certificate_from_string_def csr_from_string_def certificate_entry_def sample_defs)

theorem one_certificate_per_request_witness:
  "\<exists>v r. v = snd (set_relation_certificate 7 (sample_certificate ''csr0'' ''new'')
       (snd (set_relation_certificate 7 (sample_certificate ''csr0'' ''old'')
         \<lparr>tp_leader = True, tp_relations = [sample_tls_relation\<lparr>tp_certificates := Some []\<rparr>]\<rparr>))) \<and>
     r \<in> set (tp_relations v) \<and> distinct (map pe_csr (load_provider_certificates r))"
proof -
  let ?v = "\<lparr>tp_leader = True, tp_relations = [sample_tls_relation\<lparr>tp_certificates := Some []\<rparr>]\<rparr>"
  have "provider_run plain_x509 \<lparr>tp_leader = True, tp_relations = []\<rparr>" by (rule provider_run.start) simp
  from provider_run.join [OF this, of 7 True "[Some [\<lparr>ce_text = ''csr0'', ce_ca = None\<rparr>]]" "Some []"]
  have "provider_run plain_x509 ?v" by (simp add: sample_tls_relation_def)
  then have run: "provider_run plain_x509 (snd (set_relation_certificate 7 (sample_certificate ''csr0'' ''new'')
       (snd (set_relation_certificate 7 (sample_certificate ''csr0'' ''old'') ?v))))" (is "provider_run _ ?w")
    by (intro provider_run.issue)
  have chain: "pc_chain (sample_certificate t cert) \<noteq> []" for t cert by (simp add: sample_certificate_def)
  have "find (\<lambda>r. tp_id r = 7) (tp_relations ?v) = Some (sample_tls_relation\<lparr>tp_certificates := Some []\<rparr>)"
    by (simp add: sample_tls_relation_def)
  with set_relation_runs [of ?v 7 _ "[sample_certificate ''csr0'' ''old'', sample_certificate ''csr0'' ''new'']"] chain
  obtain r where "find (\<lambda>r. tp_id r = 7) (tp_relations ?w) = Some r" by (fastforce simp: thenM_apply split: prod.splits sum.splits)
  then have "r \<in> set (tp_relations ?w)" by (auto simp: find_Some_iff)
  with one_certificate_per_request [OF run this] show ?thesis by blast
qed

theorem issued_certificates_assigned_witness:
  "\<exists>v' r'. set_relation_certificate 7 (sample_certificate ''csr0'' ''new'') sample_provider = (Inr (), v') \<and>
     find (\<lambda>r. tp_id r = 7) (tp_relations v') = Some r' \<and>
     get_assigned_certificate plain_x509 (attributes_from_csr (sample_csr ''csr0'') False)
       (waiting_requirer\<lparr>tr_certs := Some (load_provider_certificates r')\<rparr>) = Inr (Some (sample_certificate ''csr0'' ''new''), Some ''key'')"
proof -
  have "answers plain_x509 waiting_requirer (attributes_from_csr (sample_csr ''csr0'') False) ''key'' (sample_certificate ''csr0'' ''new'')"
    by (simp add: answers_def requirer_key_def requirer_csrs_def not_mine_def csr_from_string_def csr_for_def csr_eq_def cert_matches_key_def
        sample_defs)
  moreover have "find (\<lambda>r. tp_id r = 7) (tp_relations sample_provider) = Some sample_tls_relation" "tp_leader sample_provider"
    by (simp_all add: sample_defs)
  moreover have "sound_relation sample_tls_relation"
    by (simp add: sound_relation_def one_per_request_def load_provider_certificates_def sample_defs certificate_entry_def)
  moreover have "\<forall>e \<in> set (load_provider_certificates sample_tls_relation). \<exists>q. to_provider_certificate plain_x509 e = Inr q"
    using sample_reads_back [of "''csr0''" "''old''"] sample_reads_back [of "''gone''" "''other''"]
    by (simp add: load_provider_certificates_def sample_tls_relation_def)
  moreover have "pc_chain (sample_certificate ''csr0'' ''new'') \<noteq> []" by (simp add: sample_certificate_def)
  ultimately show ?thesis
    using issued_certificates_assigned [of sample_provider 7 sample_tls_relation plain_x509 "[sample_certificate ''csr0'' ''new'']"]
      sample_reads_back [of "''csr0''" "''new''"] by (fastforce simp: thenM_apply split: prod.splits sum.splits)
qed

theorem unsolicited_removed_witness:
  "configure_provider plain_x509 sample_provider =
     (Inr (), sample_provider\<lparr>tp_relations := [sample_tls_relation\<lparr>tp_certificates := Some [certificate_entry (sample_certificate ''csr0'' ''old'')]\<rparr>]\<rparr>)"
proof -
  have plain: "\<forall>r \<in> set (tp_relations sample_provider). plain_relation plain_x509 r"
    using sample_reads_back [of "''csr0''" "''old''"] sample_reads_back [of "''gone''" "''other''"]
    by (simp add: plain_relation_def load_provider_certificates_def sample_provider_def sample_tls_relation_def certificate_entry_def
        sample_certificate_def)
  have cs: "get_certificate_requests plain_x509 None sample_provider = Inr [(7, sample_csr ''csr0'', False)]"
    by (simp add: get_certificate_requests_def relation_requests_def load_requirer_databag_def tls_relations_def csr_from_string_def sample_defs)
  have "solicited plain_x509 [(7, sample_csr ''csr0'', False)] (certificate_entry (sample_certificate ''csr0'' ''old''))"
    "\<not> solicited plain_x509 [(7, sample_csr ''csr0'', False)] (certificate_entry (sample_certificate ''gone'' ''other''))"
    by (simp_all add: solicited_def sample_reads_back requested_in_def csr_eq_def) (simp_all add: sample_defs)
  then show ?thesis
    using unsolicited_removed [OF _ _ plain cs]
    by (simp add: sample_provider_def load_provider_certificates_def) (simp add: sample_tls_relation_def)
qed

end
