(* ===== verification/Certificate_Transfer.thy ===== *)
theory Certificate_Transfer
  imports Json
begin

text \<open>
  \<^verbatim>\<open>certificate_transfer_interface/v1/certificate_transfer.py\<close>: sets of certificates that one application hands to
  another. A set is a list whose order is the order Python happens to enumerate it in; what is
  proved does not depend on it. \<^verbatim>\<open>pydantic\<close>'s check of the version is the parameter \<open>int_like\<close>.
\<close>

section \<open>Databags\<close>

record transfer_relation =
  tf_id :: int
  tf_active :: bool
  tf_provider :: "(string, string) dict"
  tf_requirer :: "(string, string) dict"

definition DataValidationError :: exn where
  "DataValidationError = PyException ''DataValidationError''"

definition load_field :: "(string, string) dict \<Rightarrow> string \<Rightarrow> exn + json option" where
  "load_field bag k =
     (case map_of bag k of
        None \<Rightarrow> Inr None
      | Some v \<Rightarrow> (case loads v of Inl _ \<Rightarrow> Inl DataValidationError | Inr j \<Rightarrow> Inr (Some j)))"

definition certificate_set :: "json option \<Rightarrow> exn + string list" where
  "certificate_set j =
     (case j of
        None \<Rightarrow> Inr []
      | Some (JList js) \<Rightarrow>
          if list_all (\<lambda>x. case x of JStr _ \<Rightarrow> True | _ \<Rightarrow> False) js
          then Inr (remdups (map (\<lambda>x. case x of JStr s \<Rightarrow> s | _ \<Rightarrow> []) js)) else Inl DataValidationError
      | Some _ \<Rightarrow> Inl DataValidationError)"

definition load_provider_data :: "(json \<Rightarrow> bool) \<Rightarrow> (string, string) dict \<Rightarrow> exn + string list" where
  "load_provider_data int_like bag =
     bindE (load_field bag ''certificates'') (\<lambda>certs.
     bindE (load_field bag ''version'') (\<lambda>version.
       if list_all int_like (case version of None \<Rightarrow> [] | Some v \<Rightarrow> [v]) then certificate_set certs else Inl DataValidationError))"

text \<open>Both sides write without clearing the databag first, with all fields.\<close>

definition dump_provider_data :: "string list \<Rightarrow> (string, string) dict \<Rightarrow> (string, string) dict" where
  "dump_provider_data certs bag = dmerge bag [(''certificates'', dumps (json_strs certs)), (''version'', dumps (JInt 1))]"

definition dump_requirer_data :: "(string, string) dict \<Rightarrow> (string, string) dict" where
  "dump_requirer_data bag = dmerge bag [(''version'', dumps (JInt 1))]"

text \<open>Data that cannot be read counts as no certificates.\<close>

definition transfer_data :: "(json \<Rightarrow> bool) \<Rightarrow> transfer_relation \<Rightarrow> string list" where
  "transfer_data int_like r = (case load_provider_data int_like (tf_provider r) of Inl _ \<Rightarrow> [] | Inr certs \<Rightarrow> certs)"


section \<open>The provider\<close>

definition provider_relations :: "int option \<Rightarrow> transfer_relation list \<Rightarrow> transfer_relation \<Rightarrow> bool" where
  "provider_relations rid rs r = (case rid of None \<Rightarrow> True | Some i \<Rightarrow> tf_id r = i \<and> tf_active r)"

definition change_certificates ::
  "(json \<Rightarrow> bool) \<Rightarrow> bool \<Rightarrow> (string list \<Rightarrow> string list) \<Rightarrow> int option \<Rightarrow> transfer_relation list \<Rightarrow> transfer_relation list" where
  "change_certificates int_like leads f rid rs =
     (if \<not> leads then rs
      else map (\<lambda>r. if provider_relations rid rs r
                     then r\<lparr>tf_provider := dump_provider_data (f (transfer_data int_like r)) (tf_provider r)\<rparr> else r) rs)"

definition add_certificates :: "(json \<Rightarrow> bool) \<Rightarrow> bool \<Rightarrow> string list \<Rightarrow> int option \<Rightarrow> transfer_relation list \<Rightarrow> transfer_relation list" where
  "add_certificates int_like leads certs = change_certificates int_like leads (\<lambda>old. remdups (old @ certs))"

definition remove_all_certificates :: "(json \<Rightarrow> bool) \<Rightarrow> bool \<Rightarrow> int option \<Rightarrow> transfer_relation list \<Rightarrow> transfer_relation list" where
  "remove_all_certificates int_like leads = change_certificates int_like leads (\<lambda>old. [])"

definition remove_certificate :: "(json \<Rightarrow> bool) \<Rightarrow> bool \<Rightarrow> string \<Rightarrow> int option \<Rightarrow> transfer_relation list \<Rightarrow> transfer_relation list" where
  "remove_certificate int_like leads cert = change_certificates int_like leads (filter (\<lambda>c. c \<noteq> cert))"


section \<open>The requirer\<close>

datatype transfer_event = CertificateSetUpdated "string list" int | CertificatesRemoved int

text \<open>An id that no relation has gives all relations.\<close>

definition requirer_relations :: "int option \<Rightarrow> transfer_relation list \<Rightarrow> transfer_relation list" where
  "requirer_relations rid rs =
     (case rid of
        None \<Rightarrow> rs
      | Some i \<Rightarrow> (case find (\<lambda>r. tf_id r = i) rs of Some r \<Rightarrow> [r] | None \<Rightarrow> rs))"

definition get_all_certificates :: "(json \<Rightarrow> bool) \<Rightarrow> int option \<Rightarrow> transfer_relation list \<Rightarrow> string list" where
  "get_all_certificates int_like rid rs = remdups (concat (map (transfer_data int_like) (requirer_relations rid rs)))"

definition transfer_ready :: "(json \<Rightarrow> bool) \<Rightarrow> transfer_relation \<Rightarrow> bool" where
  "transfer_ready int_like r = (case load_provider_data int_like (tf_provider r) of Inl _ \<Rightarrow> False | Inr _ \<Rightarrow> True)"

definition on_transfer_changed :: "(json \<Rightarrow> bool) \<Rightarrow> int \<Rightarrow> transfer_relation list \<Rightarrow> transfer_event" where
  "on_transfer_changed int_like rid rs = CertificateSetUpdated (get_all_certificates int_like (Some rid) rs) rid"

definition on_transfer_broken :: "int \<Rightarrow> transfer_event" where
  "on_transfer_broken rid = CertificatesRemoved rid"

definition on_transfer_created :: "bool \<Rightarrow> transfer_relation \<Rightarrow> transfer_relation" where
  "on_transfer_created leads r = (if \<not> leads then r else r\<lparr>tf_requirer := dump_requirer_data (tf_requirer r)\<rparr>)"


section \<open>Properties\<close>

lemma load_dumped:
  assumes "int_like (JInt 1)"
  shows "load_provider_data int_like (dump_provider_data certs bag) = Inr (remdups certs)"
proof -
  have "loads (dumps (json_strs certs)) = Inr (json_strs certs)" "loads (dumps (JInt 1)) = Inr (JInt 1)"
    by (rule loads_dumps; simp add: json_strs_def list_all_iff)+
  moreover have "map_of (dump_provider_data certs bag) ''certificates'' = Some (dumps (json_strs certs))"
    "map_of (dump_provider_data certs bag) ''version'' = Some (dumps (JInt 1))"
    by (simp_all add: dump_provider_data_def del: dumps.simps)
  ultimately show ?thesis using assms
    by (simp add: load_provider_data_def load_field_def certificate_set_def json_strs_def list_all_iff comp_def del: dumps.simps)
qed

lemma transfer_dumped:
  "int_like (JInt 1) \<Longrightarrow> transfer_data int_like (r\<lparr>tf_provider := dump_provider_data certs bag\<rparr>) = remdups certs"
  by (simp add: transfer_data_def load_dumped)

lemma change_find:
  assumes "leads" and "int_like (JInt 1)" and "find (\<lambda>r. tf_id r = i) rs = Some r" and "tf_active r"
  shows "\<exists>r'. find (\<lambda>r. tf_id r = i) (change_certificates int_like leads f (Some i) rs) = Some r' \<and>
    transfer_data int_like r' = remdups (f (transfer_data int_like r))"
  using assms(3)
proof (induction rs)
  case (Cons q rs)
  have same: "change_certificates int_like leads f (Some i) (q # rs) =
      (if tf_id q = i \<and> tf_active q then q\<lparr>tf_provider := dump_provider_data (f (transfer_data int_like q)) (tf_provider q)\<rparr> else q) #
      change_certificates int_like leads f (Some i) rs"
    using assms(1) by (simp add: change_certificates_def provider_relations_def)
  show ?case
  proof (cases "tf_id q = i")
    case True
    with Cons.prems have "q = r" by simp
    with True assms(4) show ?thesis unfolding same by (simp add: transfer_dumped assms(2))
  next
    case False
    with Cons show ?thesis by (simp add: same)
  qed
qed simp

text \<open>C31: what the leader of the providing application adds to, removes from or clears in one active relation is
  what the requirer reads from that relation: the old set with the new certificates, without the one
  removed, or the empty set.\<close>

theorem transfer_roundtrip:
  assumes "int_like (JInt 1)" and "find (\<lambda>r. tf_id r = i) rs = Some r" and "tf_active r"
  shows "set (get_all_certificates int_like (Some i) (add_certificates int_like True certs (Some i) rs)) =
           set (get_all_certificates int_like (Some i) rs) \<union> set certs \<and>
         set (get_all_certificates int_like (Some i) (remove_certificate int_like True cert (Some i) rs)) =
           set (get_all_certificates int_like (Some i) rs) - {cert} \<and>
         get_all_certificates int_like (Some i) (remove_all_certificates int_like True (Some i) rs) = []"
proof -
  have read: "get_all_certificates int_like (Some i) qs = remdups (transfer_data int_like q)"
    if "find (\<lambda>r. tf_id r = i) qs = Some q" for q qs
    using that by (simp add: get_all_certificates_def requirer_relations_def)
  have changed: "get_all_certificates int_like (Some i) (change_certificates int_like True f (Some i) rs) =
      remdups (f (transfer_data int_like r))" for f
  proof -
    obtain r' where "find (\<lambda>r. tf_id r = i) (change_certificates int_like True f (Some i) rs) = Some r'"
      "transfer_data int_like r' = remdups (f (transfer_data int_like r))"
      using change_find [of True int_like i rs r f] assms by blast
    with read show ?thesis by simp
  qed
  show ?thesis using read [OF assms(2)]
    by (auto simp: add_certificates_def remove_certificate_def remove_all_certificates_def changed)
qed

theorem transfer_roundtrip_witness:
  "set (get_all_certificates (\<lambda>j. True) (Some 3) (add_certificates (\<lambda>j. True) True [''pem''] (Some 3)
     [\<lparr>tf_id = 3, tf_active = True, tf_provider = [], tf_requirer = []\<rparr>])) = {''pem''}"
proof -
  let ?r = "\<lparr>tf_id = 3, tf_active = True, tf_provider = [], tf_requirer = []\<rparr>"
  have "get_all_certificates (\<lambda>j. True) (Some 3) [?r] = []" by code_simp
  then show ?thesis using transfer_roundtrip [of "\<lambda>j. True" 3 "[?r]" ?r "[''pem'']" "[]"] by simp
qed

end
