(* ===== verification/Doubles.thy ===== *)
theory Doubles
  imports Complex_Main "HOL-Library.Log_Nat"
begin

text \<open>
  The floating point numbers of Python as far as the charm computes with them: a number is a rational, and every operation
  rounds its exact result to 53 significant bits, ties to even. Numbers stay far from the largest and the
  smallest double, so that exponents are not bounded.
\<close>

section \<open>Rounding\<close>

definition double_exponent :: "rat \<Rightarrow> int" where
  "double_exponent x =
     (case quotient_of x of (n, d) \<Rightarrow>
        let k = bitlen n - bitlen d in if 2 powi k \<le> x then k else k - 1)"

definition round_even :: "rat \<Rightarrow> int" where
  "round_even y =
     (let f = \<lfloor>y\<rfloor>; r = y - of_int f
      in if r < 1 / 2 then f else if 1 / 2 < r then f + 1 else if even f then f else f + 1)"

definition double :: "rat \<Rightarrow> rat" where
  "double x =
     (if x = 0 then 0
      else let u = 2 powi (double_exponent \<bar>x\<bar> - 52) in of_int (round_even (x / u)) * u)"

text \<open>The literal \<^verbatim>\<open>0.8\<close>, the product and the quotient of two numbers, of which integers are converted first.\<close>

definition ZERO_8 :: rat where
  "ZERO_8 = 3602879701896397 / 2 ^ 52"

definition float_times :: "int \<Rightarrow> rat \<Rightarrow> rat" where
  "float_times n x = double (double (of_int n) * x)"

definition int_divide :: "int \<Rightarrow> int \<Rightarrow> rat" where
  "int_divide a b = double (of_int a / of_int b)"


section \<open>Bounds\<close>

lemma bitlen_powi:
  assumes "0 < n"
  shows "2 powi (bitlen n - 1) \<le> (of_int n :: rat)" and "(of_int n :: rat) < 2 powi bitlen n"
proof -
  have b: "1 \<le> bitlen n" using assms by (simp add: bitlen_alt_def)
  from bitlen_bounds [OF assms] have 1: "2 ^ nat (bitlen n - 1) \<le> n" and 2: "n < 2 ^ nat (bitlen n)" by simp_all
  have "(of_int (2 ^ nat (bitlen n - 1)) :: rat) \<le> of_int n" using 1 by (simp only: of_int_le_iff)
  then show "2 powi (bitlen n - 1) \<le> (of_int n :: rat)" using b by (simp add: power_int_def)
  have "(of_int n :: rat) < of_int (2 ^ nat (bitlen n))" using 2 by (simp only: of_int_less_iff)
  then show "(of_int n :: rat) < 2 powi bitlen n" using b by (simp add: power_int_def)
qed

lemma double_exponent_bounds:
  assumes "0 < x"
  shows "2 powi double_exponent x \<le> x" and "x < 2 powi (double_exponent x + 1)"
proof -
  obtain n d where q: "quotient_of x = (n, d)" by fastforce
  have d: "0 < d" and x: "x = of_int n / of_int d" using quotient_of_denom_pos [OF q] quotient_of_div [OF q] by simp_all
  with assms have n: "0 < n" by (simp add: zero_less_divide_iff)
  let ?k = "bitlen n - bitlen d"
  note bn = bitlen_powi [OF n] and bd = bitlen_powi [OF d]
  have "2 powi (?k - 1) = (2 powi (bitlen n - 1) / 2 powi bitlen d :: rat)" by (simp add: power_int_diff)
  also have "\<dots> \<le> x" unfolding x using bn(1) bd(2) d n by (intro frac_le) simp_all
  finally have low: "2 powi (?k - 1) \<le> x" .
  have "x < (2 powi bitlen n / 2 powi (bitlen d - 1) :: rat)"
    unfolding x using bn(2) bd(1) n by (intro frac_less) simp_all
  also have "\<dots> = 2 powi (?k + 1)" by (simp add: power_int_diff power_int_add)
  finally have high: "x < 2 powi (?k + 1)" .
  show "2 powi double_exponent x \<le> x" using low q by (simp add: double_exponent_def Let_def)
  show "x < 2 powi (double_exponent x + 1)" using high q by (simp add: double_exponent_def Let_def)
qed

lemma round_even_ge: "of_int n \<le> y \<Longrightarrow> n \<le> round_even y"
  using floor_correct [of y] by (auto simp: round_even_def Let_def le_floor_iff)

lemma round_even_le:
  assumes "y \<le> of_int n"
  shows "round_even y \<le> n"
proof (cases "\<lfloor>y\<rfloor> < n")
  case True
  then show ?thesis by (simp add: round_even_def Let_def)
next
  case False
  with assms have "\<lfloor>y\<rfloor> = n" "y = of_int n" using floor_correct [of y] by linarith+
  then show ?thesis by (simp add: round_even_def)
qed

lemma round_even_near:
  assumes "\<bar>y - of_int n\<bar> < 1 / 2"
  shows "round_even y = n"
proof (cases "of_int n \<le> y")
  case True
  with assms have "\<lfloor>y\<rfloor> = n" by linarith
  with True assms show ?thesis by (simp add: round_even_def)
next
  case False
  with assms have "\<lfloor>y\<rfloor> = n - 1" by linarith
  with False assms show ?thesis by (simp add: round_even_def)
qed

text \<open>A number below \<open>2 ^ (53 - q)\<close> is rounded on a grid that contains the multiples of \<open>1 / 2 ^ q\<close>.\<close>

lemma on_grid:
  assumes "0 < x" and "x < 2 ^ (53 - q)" and "q \<le> 53"
  obtains m where "of_int n / 2 ^ q / 2 powi (double_exponent x - 52) = (of_int m :: rat)"
proof -
  have "(2 powi double_exponent x :: rat) < 2 powi int (53 - q)"
    using double_exponent_bounds(1) [OF assms(1)] assms(2) by (simp add: power_int_of_nat)
  then have "double_exponent x < int (53 - q)" by (rule power_int_le_imp_less_exp [rotated]) simp_all
  then have "double_exponent x < 53 - int q" using assms(3) by (simp add: of_nat_diff)
  then have e: "0 \<le> 52 - double_exponent x - int q" by simp
  have "of_int n / 2 ^ q / 2 powi (double_exponent x - 52) = (of_int n * 2 powi (52 - double_exponent x - int q) :: rat)"
    by (simp add: power_int_diff power_int_of_nat)
  also have "\<dots> = of_int (n * 2 ^ nat (52 - double_exponent x - int q))" using e by (simp add: power_int_def)
  finally show ?thesis by (rule that)
qed

lemma double_ge:
  assumes "0 < x" and "x < 2 ^ (53 - q)" and "q \<le> 53" and "of_int n / 2 ^ q \<le> x"
  shows "of_int n / 2 ^ q \<le> double x"
proof -
  let ?u = "2 powi (double_exponent x - 52) :: rat"
  have u: "0 < ?u" by simp
  obtain m where m: "of_int n / 2 ^ q / ?u = of_int m" by (rule on_grid [OF assms(1-3)])
  have "of_int n / 2 ^ q / ?u \<le> x / ?u" using assms(4) u by (intro divide_right_mono) simp_all
  then have "m \<le> round_even (x / ?u)" by (intro round_even_ge) (simp only: m)
  then have "of_int m * ?u \<le> of_int (round_even (x / ?u)) * ?u" using u by simp
  moreover have "of_int m * ?u = of_int n / 2 ^ q" using m u by (metis nonzero_divide_eq_eq less_irrefl)
  ultimately show ?thesis using assms(1) by (simp add: double_def Let_def)
qed

lemma double_le:
  assumes "0 < x" and "x < 2 ^ (53 - q)" and "q \<le> 53" and "x \<le> of_int n / 2 ^ q"
  shows "double x \<le> of_int n / 2 ^ q"
proof -
  let ?u = "2 powi (double_exponent x - 52) :: rat"
  have u: "0 < ?u" by simp
  obtain m where m: "of_int n / 2 ^ q / ?u = of_int m" by (rule on_grid [OF assms(1-3)])
  have "x / ?u \<le> of_int n / 2 ^ q / ?u" using assms(4) u by (intro divide_right_mono) simp_all
  then have "round_even (x / ?u) \<le> m" by (intro round_even_le) (simp only: m)
  then have "of_int (round_even (x / ?u)) * ?u \<le> of_int m * ?u" using u by simp
  moreover have "of_int m * ?u = of_int n / 2 ^ q" using m u by (metis nonzero_divide_eq_eq less_irrefl)
  ultimately show ?thesis using assms(1) by (simp add: double_def Let_def)
qed

lemma double_near:
  assumes "0 < x" and "x < 2 ^ 53" and "\<bar>x - of_int n\<bar> * 2 ^ 53 < 2 powi double_exponent x"
  shows "double x = of_int n"
proof -
  let ?u = "2 powi (double_exponent x - 52) :: rat"
  have u: "0 < ?u" by simp
  obtain m where m: "of_int n / 2 ^ 0 / ?u = of_int m" by (rule on_grid [of x 0]) (use assms in simp_all)
  have "?u * 2 ^ 52 = 2 powi double_exponent x" by (simp add: power_int_diff)
  with assms(3) have "\<bar>x - of_int n\<bar> < ?u / 2" by simp
  then have "\<bar>x - of_int n\<bar> / ?u < 1 / 2" using u by (simp add: divide_less_eq)
  moreover have "\<bar>x / ?u - of_int m\<bar> = \<bar>x - of_int n\<bar> / ?u" 
    using m u by (simp add: diff_divide_distrib abs_div_pos)
  ultimately have "round_even (x / ?u) = m" by (intro round_even_near) simp
  moreover have "of_int m * ?u = of_int n" using m u by (metis nonzero_divide_eq_eq less_irrefl div_by_1 power_0)
  ultimately show ?thesis using assms(1) by (simp add: double_def Let_def)
qed

lemma double_int: "0 \<le> n \<Longrightarrow> n < 2 ^ 53 \<Longrightarrow> double (of_int n) = of_int n"
proof (cases "n = 0")
  case False
  assume n: "0 \<le> n" "n < 2 ^ 53"
  have "(of_int n :: rat) < of_int (2 ^ 53)" using n(2) by (simp only: of_int_less_iff)
  then show ?thesis using False n(1) by (intro antisym) (use double_le [of "of_int n" 0 n] double_ge [of "of_int n" 0 n] in simp_all)
qed (simp add: double_def)

end
