(* ===== verification/Health.thy ===== *)
theory Health
  imports Operator_Base Doubles
begin

text \<open>
  \<^verbatim>\<open>health.py\<close>: the checks of a machine's settings, which the broker runs when it is not on Kubernetes.
  The process id of the service is the parameter \<open>pid\<close>, since the workload of this charm does not have one; \<open>trunc\<close> is
  \<^verbatim>\<open>int\<close> of a number with a fraction, given as its text. Thresholds are computed with doubles.
\<close>

section \<open>Settings\<close>

definition KafkaHealth :: "string \<Rightarrow> exn + unit" where
  "KafkaHealth substrate = (if substrate = ''k8s'' then Inl (PyException ''Exception'') else Inr ())"

definition exec_int :: "env \<Rightarrow> string list \<Rightarrow> int hook" where
  "exec_int env command =
     bindM (exec env command []) (\<lambda>out. case py_int out of None \<Rightarrow> raise ValueError | Some n \<Rightarrow> ret n)"

definition get_current_memory_maps :: "env \<Rightarrow> int hook \<Rightarrow> int hook" where
  "get_current_memory_maps env pid =
     bindM pid (\<lambda>p. exec_int env [''bash'', ''-c'', ''cat /proc/'' @ str_int p @ ''/maps | wc -l''])"

definition get_current_max_files :: "env \<Rightarrow> int hook \<Rightarrow> int hook" where
  "get_current_max_files env pid =
     bindM pid (\<lambda>p. exec_int env
       [''bash'', ''-c'',
        ''cat /proc/'' @ str_int p @ ''/limits | grep files | awk '' @ [CHR 0x27] @ ''{print $5}'' @ [CHR 0x27]])"

definition get_max_memory_maps :: "env \<Rightarrow> int hook" where
  "get_max_memory_maps env = exec_int env [''sysctl'', ''-n'', ''vm.max_map_count'']"

definition get_vm_swappiness :: "env \<Rightarrow> int hook" where
  "get_vm_swappiness env = exec_int env [''sysctl'', ''-n'', ''vm.swappiness'']"


section \<open>Partitions\<close>

fun first_json :: "string list \<Rightarrow> json" where
  "first_json [] = JDict []"
| "first_json (line # ls) = (case loads line of Inr j \<Rightarrow> j | Inl _ \<Rightarrow> first_json ls)"

definition as_int :: "(string \<Rightarrow> int) \<Rightarrow> json \<Rightarrow> exn + int" where
  "as_int trunc j =
     (case j of
        JInt n \<Rightarrow> Inr n
      | JBool b \<Rightarrow> Inr (if b then 1 else 0)
      | JFloat t \<Rightarrow> Inr (trunc t)
      | JStr s \<Rightarrow> (case py_int s of None \<Rightarrow> Inl ValueError | Some n \<Rightarrow> Inr n)
      | _ \<Rightarrow> Inl TypeError)"

definition concat_over :: "string \<Rightarrow> (json \<Rightarrow> exn + 'a list) \<Rightarrow> json \<Rightarrow> exn + 'a list" where
  "concat_over key f j =
     bindE (jitem key j) (\<lambda>v. bindE (jiter v) (\<lambda>xs. bindE (mapE f xs) (\<lambda>yss. Inr (concat yss))))"

definition partition_sizes :: "(string \<Rightarrow> int) \<Rightarrow> json \<Rightarrow> exn + int list" where
  "partition_sizes trunc =
     concat_over ''brokers'' (concat_over ''logDirs'' (concat_over ''partitions'' (\<lambda>p.
       bindE (jitem ''partition'' p) (\<lambda>_. bindE (jitem ''size'' p) (\<lambda>size. bindE (as_int trunc size) (\<lambda>n. Inr [n]))))))"

text \<open>\<^verbatim>\<open>statistics.mean\<close> of integers is an integer when it can be.\<close>

definition mean :: "int list \<Rightarrow> rat" where
  "mean xs =
     (let t = sum_list xs; n = int (length xs)
      in if n dvd t then of_int (t div n) else double (of_int t / of_int n))"

definition get_partitions_size :: "env \<Rightarrow> (string \<Rightarrow> int) \<Rightarrow> (int \<times> rat) hook" where
  "get_partitions_size env trunc =
     bindM (readE bootstrap_server_internal) (\<lambda>servers.
     bindM (readM (env_connect env)) (\<lambda>up.
     bindM (liftE (ping up servers)) (\<lambda>ok.
       if \<not> ok then ret (0, 0)
       else bindM (tryM (bindM (readE (tools_log4j_opts BROKER)) (\<lambda>opts.
                     bindM (run_bin_command env ''log-dirs''
                              [''--describe'', ''--bootstrap-server '' @ servers, ''--command-config '' @ client_properties BROKER] [opts])
                       (\<lambda>out. ret (Some out))))
                   is_command_error (\<lambda>_. ret None)) (\<lambda>log_dirs.
            case log_dirs of
              None \<Rightarrow> ret (0, 0)
            | Some out \<Rightarrow>
                let dirs = first_json (splitlines out)
                in if \<not> json_true dirs then ret (0, 0)
                   else bindM (liftE (partition_sizes trunc dirs)) (\<lambda>sizes.
                     if sizes = [] then ret (0, 0) else ret (int (length sizes), mean sizes))))))"


section \<open>Checks\<close>

definition check_memory_maps :: "env \<Rightarrow> int hook \<Rightarrow> bool hook" where
  "check_memory_maps env pid =
     bindM (get_max_memory_maps env) (\<lambda>max_maps.
     bindM (get_current_memory_maps env pid) (\<lambda>current_maps.
       ret (\<not> float_times max_maps ZERO_8 \<le> of_int current_maps)))"

definition check_file_descriptors :: "env \<Rightarrow> int hook \<Rightarrow> (string \<Rightarrow> int) \<Rightarrow> bool hook" where
  "check_file_descriptors env pid trunc =
     bindM (readE (client_listeners (env_k8s env))) (\<lambda>ls.
       if ls = [] then ret True
       else bindM (get_partitions_size env trunc) (\<lambda>(total_partitions, average_partition_size).
            bindM (readM (\<lambda>w. log_segment_bytes (cfg w))) (\<lambda>segment_size.
              if segment_size = 0 then raise (PyException ''ZeroDivisionError'')
              else let minimum_fd_limit = float_times total_partitions (double (average_partition_size / of_int segment_size))
                   in bindM (get_current_max_files env pid) (\<lambda>current_max_files.
                        ret (\<not> float_times current_max_files ZERO_8 \<le> minimum_fd_limit)))))"

definition check_vm_swappiness :: "env \<Rightarrow> bool hook" where
  "check_vm_swappiness env = bindM (get_vm_swappiness env) (\<lambda>n. ret (\<not> n > 1))"

definition target_memory_gb :: "world \<Rightarrow> int" where
  "target_memory_gb w = (if profile (cfg w) = ''testing'' then JVM_MEM_MIN_GB else JVM_MEM_MAX_GB)"

definition check_total_memory :: "bool hook" where
  "check_total_memory =
     bindM (readM (\<lambda>w. (workload_read w ''/proc/meminfo'', target_memory_gb w))) (\<lambda>(meminfo, target).
       case meminfo of
         [] \<Rightarrow> ret False
       | line # _ \<Rightarrow>
           (case words line of
              _ # t # _ \<Rightarrow>
                (case py_int t of
                   None \<Rightarrow> raise ValueError
                 | Some kb \<Rightarrow> ret (\<not> of_int target \<ge> int_divide kb 1000000))
            | _ \<Rightarrow> raise IndexError))"

definition machine_configured :: "env \<Rightarrow> int hook \<Rightarrow> (string \<Rightarrow> int) \<Rightarrow> bool hook" where
  "machine_configured env pid trunc =
     bindM check_total_memory (\<lambda>a.
     bindM (check_memory_maps env pid) (\<lambda>b.
     bindM (check_file_descriptors env pid trunc) (\<lambda>c.
     bindM (check_vm_swappiness env) (\<lambda>d.
       ret (if \<not> list_all id [a, b, c, d] then False else True)))))"


section \<open>Thresholds are exact\<close>

lemma eight_tenths:
  assumes "0 \<le> m" and "m < 2 ^ 50"
  shows "float_times m ZERO_8 \<le> of_int c \<longleftrightarrow> 4 * m \<le> 5 * c"
proof (cases "m = 0")
  case True
  then show ?thesis by (simp add: float_times_def double_def)
next
  case False
  let ?p = "of_int m * ZERO_8 :: rat"
  have "(of_int m :: rat) < of_int (2 ^ 50)" using assms(2) by (simp only: of_int_less_iff)
  then have m: "0 < (of_int m :: rat)" "(of_int m :: rat) < 2 ^ 50" using False assms(1) by simp_all
  have p: "5 * ?p = 4 * of_int m + of_int m / 2 ^ 52" by (simp add: ZERO_8_def)
  define d :: rat where "d = of_int m / 2 ^ 52"
  have d: "0 \<le> d" "d < 1" and pd: "5 * ?p = 4 * of_int m + d" using m p by (simp_all add: d_def)
  have "?p < of_int m" using m(1) by (simp add: ZERO_8_def)
  then have bounds: "0 < ?p" "?p < 2 ^ 50" using m by (simp_all add: ZERO_8_def)
  have times: "float_times m ZERO_8 = double ?p"
    using double_int [of m] assms by (simp add: float_times_def)
  show ?thesis
  proof (cases "4 * m \<le> 5 * c")
    case le: True
    show ?thesis
    proof (cases "4 * m = 5 * c")
      case True
      define k where "k = m - c"
      have k: "m = 5 * k" "c = 4 * k" using True by (simp_all add: k_def)
      have diff: "\<bar>?p - of_int c\<bar> * 2 ^ 53 = 2 * of_int k" using p m(1) by (simp add: k)
      have "4 * of_int k \<le> ?p" using m(1) by (simp add: k ZERO_8_def)
      also have "\<dots> < 2 powi (double_exponent ?p + 1)" by (rule double_exponent_bounds(2) [OF bounds(1)])
      finally have "4 * of_int k < (2 powi (double_exponent ?p + 1) :: rat)" .
      then have "2 * of_int k < (2 powi double_exponent ?p :: rat)" by (simp add: power_int_add)
      then have "double ?p = of_int c" using double_near [OF bounds(1)] bounds(2) diff by simp
      with le times show ?thesis by simp
    next
      case False
      with le have "4 * m + 1 \<le> 5 * c" by simp
      then have "(of_int (4 * m + 1) :: rat) \<le> of_int (5 * c)" by (simp only: of_int_le_iff)
      then have "4 * of_int m + 1 \<le> (5 * of_int c :: rat)" by simp
      then have "?p \<le> of_int c" using pd d by linarith
      then have "double ?p \<le> of_int c" using double_le [of ?p 0 c] bounds by simp
      with le times show ?thesis by simp
    qed
  next
    case False
    then have "5 * c + 1 \<le> 4 * m" by simp
    then have "(of_int (5 * c + 1) :: rat) \<le> of_int (4 * m)" by (simp only: of_int_le_iff)
    then have "5 * of_int c + 1 \<le> (4 * of_int m :: rat)" by simp
    then have "of_int c + 1 / 8 \<le> ?p" using pd d by linarith
    then have "of_int (8 * c + 1) / 2 ^ 3 \<le> ?p" by (simp add: field_simps)
    then have "of_int (8 * c + 1) / 2 ^ 3 \<le> double ?p" using double_ge [of ?p 3 "8 * c + 1"] bounds by simp
    with False times show ?thesis by simp
  qed
qed

lemma gigabytes:
  assumes "0 \<le> kb" and "kb < 2 ^ 50"
  shows "int_divide kb 1000000 \<le> of_int target \<longleftrightarrow> kb \<le> target * 1000000"
proof (cases "kb = 0")
  case True
  then show ?thesis by (simp add: int_divide_def double_def)
next
  case False
  let ?x = "of_int kb / 1000000 :: rat"
  have "(of_int kb :: rat) < of_int (2 ^ 50)" using assms(2) by (simp only: of_int_less_iff)
  then have bounds: "0 < ?x" "?x < 2 ^ 33" using False assms(1) by simp_all
  show ?thesis
  proof (cases "kb \<le> target * 1000000")
    case True
    then have "(of_int kb :: rat) \<le> of_int (target * 1000000)" by (simp only: of_int_le_iff)
    then have "?x \<le> of_int target" by simp
    then have "double ?x \<le> of_int target" using double_le [of ?x 0 target] bounds by simp
    with True show ?thesis by (simp add: int_divide_def)
  next
    case False
    then have "target * 1000000 + 1 \<le> kb" by simp
    then have "(of_int (target * 1000000 + 1) :: rat) \<le> of_int kb" by (simp only: of_int_le_iff)
    then have "of_int (target * 2 ^ 20 + 1) / 2 ^ 20 \<le> ?x" by simp
    then have "of_int (target * 2 ^ 20 + 1) / 2 ^ 20 \<le> double ?x" using double_ge [of ?x 20 "target * 2 ^ 20 + 1"] bounds by simp
    with False show ?thesis by (simp add: int_divide_def)
  qed
qed


section \<open>Properties\<close>

lemma fst_bindM: "fst (bindM m f s) = (case fst (m s) of Inl e \<Rightarrow> Inl e | Inr a \<Rightarrow> fst (f a (snd (m s))))"
  by (cases "m s") (simp add: bindM_def split: sum.split)

lemma fst_check_memory_maps:
  assumes "\<And>w. fst (get_max_memory_maps env w) = Inr max_maps" and "\<And>w. fst (get_current_memory_maps env pid w) = Inr current_maps"
    and "0 \<le> max_maps" and "max_maps < 2 ^ 50"
  shows "fst (check_memory_maps env pid w) = Inr (5 * current_maps < 4 * max_maps)"
  unfolding check_memory_maps_def by (simp add: fst_bindM assms(1,2) ret_def eight_tenths [OF assms(3,4)] flip: not_le)

lemma fst_check_total_memory:
  assumes "workload_read w ''/proc/meminfo'' = line # ls" and "words line = key # t # rest" and "py_int t = Some kb"
    and "0 \<le> kb" and "kb < 2 ^ 50"
  shows "check_total_memory w = (Inr (target_memory_gb w * 1000000 < kb), w)"
  unfolding check_total_memory_def
  by (simp add: bindM_apply assms(1-3) ret_def gigabytes [OF assms(4,5)] flip: not_le)


text \<open>Without partitions the limit of file descriptors only has to be positive.\<close>

lemma no_partitions_descriptors:
  assumes "0 \<le> n" and "n < 2 ^ 50"
  shows "float_times n ZERO_8 \<le> float_times 0 (double (0 / of_int segment_size)) \<longleftrightarrow> n = 0"
  using eight_tenths [OF assms, of 0] assms(1) by (auto simp: float_times_def double_def)

definition machine_answer :: "string list \<Rightarrow> int" where
  "machine_answer c =
     (if c = [''sysctl'', ''-n'', ''vm.max_map_count''] then 262144
      else if c = [''sysctl'', ''-n'', ''vm.swappiness''] then 1 else 1000)"

definition machine_env :: env where
  "machine_env = silent_env\<lparr>env_exec := \<lambda>w d c e. (Inr (str_int (machine_answer c)), files w)\<rparr>"

definition machine_world :: world where
  "machine_world = blank_world\<lparr>files := [(''/proc/meminfo'', ''MemTotal: 16000000 kB'')]\<rparr>"

lemma exec_machine:
  "exec machine_env c e w = (Inr (str_int (machine_answer c)), w\<lparr>files := files w, actions := actions w @ [Exec None c e]\<rparr>)"
  by (simp add: exec_def exec_in_def machine_env_def)

lemma machine_env_int: "exec_int machine_env c w = (Inr (machine_answer c), w\<lparr>files := files w, actions := actions w @ [Exec None c []]\<rparr>)"
  by (simp add: exec_int_def bindM_apply exec_machine ret_def)

lemma machine_facts:
  "workload_read machine_world ''/proc/meminfo'' = ''MemTotal: 16000000 kB'' # []"
  "words ''MemTotal: 16000000 kB'' = ''MemTotal:'' # ''16000000'' # [''kB'']" "py_int ''16000000'' = Some 16000000"
  "target_memory_gb machine_world = 6"
proof -
  show "workload_read machine_world ''/proc/meminfo'' = ''MemTotal: 16000000 kB'' # []" by code_simp
  show "words ''MemTotal: 16000000 kB'' = ''MemTotal:'' # ''16000000'' # [''kB'']" by code_simp
  show "py_int ''16000000'' = Some 16000000"
    by (simp add: py_int_def strip_def lstrip_by_def rstrip_by_def is_space_def is_digit_def digit_val_def Let_def)
  show "target_memory_gb machine_world = 6"
    by (simp add: target_memory_gb_def machine_world_def default_config_def JVM_MEM_MAX_GB_def)
qed

lemma machine_no_listeners: "client_listeners api (machine_world\<lparr>actions := as\<rparr>) = Inr []"
  by code_simp

lemma machine_descriptors:
  "fst (check_file_descriptors machine_env (ret 42) (\<lambda>t. 0) (snd (check_memory_maps machine_env (ret 42) machine_world))) = Inr True"
proof -
  let ?w = "snd (check_memory_maps machine_env (ret 42) machine_world)"
  have "?w = machine_world\<lparr>actions := actions ?w\<rparr>"
    by (simp add: check_memory_maps_def get_max_memory_maps_def get_current_memory_maps_def machine_env_int bindM_apply ret_def)
  then have "client_listeners (env_k8s machine_env) ?w = Inr []" by (metis machine_no_listeners)
  then show ?thesis by (simp add: check_file_descriptors_def readE_def bindM_apply ret_def)
qed

lemma machine_answers:
  "fst (get_max_memory_maps machine_env w) = Inr 262144" "fst (get_vm_swappiness machine_env w) = Inr 1"
  "fst (get_current_memory_maps machine_env (ret 42) w) = Inr 1000"
  by (simp_all add: get_max_memory_maps_def get_vm_swappiness_def get_current_memory_maps_def machine_env_int machine_answer_def)


end
