(* ===== verification/OAuth_Interface.thy ===== *)
theory OAuth_Interface
  imports Json Regex
begin

text \<open>
  \<^verbatim>\<open>hydra/v0/oauth.py\<close>: how a client of an identity provider registers itself and learns the provider's endpoints and its
  credentials, both sides. The package \<^verbatim>\<open>jsonschema\<close> is the parameter \<open>validator\<close>; the ids of new secrets are \<open>new_id\<close>.
\<close>

section \<open>Schemas\<close>

datatype field_type = AString | AStringOf "string list" | Strings | StringsOf "string list"

record schema =
  sc_properties :: "(string \<times> field_type) list"
  sc_required :: "string list"

definition ALLOWED_GRANT_TYPES :: "string list" where
  "ALLOWED_GRANT_TYPES =
     [''authorization_code'', ''refresh_token'', ''client_credentials'', ''urn:ietf:params:oauth:grant-type:device_code'']"

definition ALLOWED_CLIENT_AUTHN_METHODS :: "string list" where
  "ALLOWED_CLIENT_AUTHN_METHODS = [''client_secret_basic'', ''client_secret_post'']"

definition CLIENT_SECRET_FIELD :: string where
  "CLIENT_SECRET_FIELD = ''secret''"

definition OAUTH_PROVIDER_JSON_SCHEMA :: schema where
  "OAUTH_PROVIDER_JSON_SCHEMA =
     \<lparr>sc_properties =
        [(''issuer_url'', AString), (''authorization_endpoint'', AString), (''token_endpoint'', AString), (''introspection_endpoint'', AString),
         (''userinfo_endpoint'', AString), (''jwks_endpoint'', AString), (''scope'', AString), (''client_id'', AString),
         (''client_secret_id'', AString), (''groups'', AString), (''ca_chain'', Strings), (''jwt_access_token'', AString)],
      sc_required =
        [''issuer_url'', ''authorization_endpoint'', ''token_endpoint'', ''introspection_endpoint'', ''userinfo_endpoint'', ''jwks_endpoint'',
         ''scope'']\<rparr>"

definition OAUTH_REQUIRER_JSON_SCHEMA :: schema where
  "OAUTH_REQUIRER_JSON_SCHEMA =
     \<lparr>sc_properties =
        [(''redirect_uri'', AString), (''audience'', Strings), (''scope'', AString), (''grant_types'', StringsOf ALLOWED_GRANT_TYPES),
         (''token_endpoint_auth_method'', AStringOf ALLOWED_CLIENT_AUTHN_METHODS)],
      sc_required = [''redirect_uri'', ''audience'', ''scope'', ''grant_types'', ''token_endpoint_auth_method'']\<rparr>"

type_synonym validator = "schema \<Rightarrow> (string, json) dict \<Rightarrow> bool"

definition DATA_VALIDATION_ERROR :: exn where
  "DATA_VALIDATION_ERROR = PyException ''DataValidationError''"

definition validate_data :: "validator \<Rightarrow> (string, json) dict \<Rightarrow> schema \<Rightarrow> exn + unit" where
  "validate_data validator d sc = (if validator sc d then Inr () else Inl DATA_VALIDATION_ERROR)"

definition load_data :: "validator \<Rightarrow> (string, string) dict \<Rightarrow> schema \<Rightarrow> exn + (string, json) dict" where
  "load_data validator d sc =
     (let r = map (\<lambda>(k, v). (k, case loads v of Inr j \<Rightarrow> j | Inl _ \<Rightarrow> JStr v)) d
      in bindE (validate_data validator r sc) (\<lambda>_. Inr r))"

text \<open>A databag takes only texts.\<close>

fun dump_value :: "json \<Rightarrow> exn + string" where
  "dump_value (JList xs) = Inr (dumps (JList xs))"
| "dump_value (JDict kvs) = Inr (dumps (JDict kvs))"
| "dump_value (JBool b) = Inr (if b then ''True'' else ''False'')"
| "dump_value (JStr s) = Inr s"
| "dump_value _ = Inl (PyException ''RelationDataTypeError'')"

definition dump_data :: "validator \<Rightarrow> (string, json) dict \<Rightarrow> schema option \<Rightarrow> exn + (string, string) dict" where
  "dump_data validator d sc =
     bindE (case sc of None \<Rightarrow> Inr () | Some s \<Rightarrow> validate_data validator d s) (\<lambda>_.
       mapE (\<lambda>(k, v). bindE (dump_value v) (\<lambda>t. Inr (k, t))) d)"

definition strtobool :: "json \<Rightarrow> exn + bool" where
  "strtobool j =
     (case j of
        JStr s \<Rightarrow>
          if lower s \<in> {''y'', ''yes'', ''t'', ''true'', ''on'', ''1''} then Inr True
          else if lower s \<in> {''n'', ''no'', ''f'', ''false'', ''off'', ''0''} then Inr False
          else Inl ValueError
      | _ \<Rightarrow> Inl ValueError)"


section \<open>Configurations\<close>

definition lit_ci :: "string \<Rightarrow> rx" where
  "lit_ci s = foldr (\<lambda>c r. Seq (Class (\<lambda>x. lower_char x = lower_char c)) r) s Epsilon"

primrec up_to :: "nat \<Rightarrow> rx \<Rightarrow> rx" where
  "up_to 0 r = Epsilon"
| "up_to (Suc n) r = optional_rx (Seq r (up_to n r))"

definition alnum :: "char \<Rightarrow> bool" where
  "alnum c \<longleftrightarrow> is_digit c \<or> is_letter c"

text \<open>
  The pattern of redirect URIs, compiled without regard to case. Its first alternative is the scheme \<^verbatim>\<open>http\<close> alone;
  all the rest belongs to the second.
\<close>

definition url_regex :: rx where
  "url_regex =
     (let label = Class (\<lambda>c. alnum c \<or> c = CHR ''-''); an = Class alnum; digit = Class is_digit; letter = Class is_letter; dot = lit ''.'';
          byte = Seq digit (up_to 2 digit);
          host =
            Alt (Seq (let part = Seq (Seq an (optional_rx (Seq (up_to 61 label) an))) dot in Seq part (Star True part))
                     (Alt (Seq (Seq letter (Seq letter (up_to 4 letter))) (optional_rx dot))
                          (Seq (Seq label (Seq label (Star True label))) (optional_rx dot))))
                (Seq byte (Seq dot (Seq byte (Seq dot (Seq byte (Seq dot byte))))));
          port = optional_rx (Seq (lit '':'') (Seq digit (Star True digit)));
          path = Alt (optional_rx (lit ''/''))
                     (Seq (Class (\<lambda>c. c = CHR ''/'' \<or> c = CHR ''?''))
                          (Seq (Class (\<lambda>c. \<not> is_space c)) (Star True (Class (\<lambda>c. \<not> is_space c)))))
      in Alt (Group 1 (Seq AtStart (lit_ci ''http://'')))
             (Seq (Group 2 (Seq AtStart (lit_ci ''https://''))) (Seq host (Seq port (Seq path AtEnd)))))"

record ClientConfig =
  redirect_uri :: string
  cc_scope :: string
  grant_types :: "string list"
  audience :: "string list"
  token_endpoint_auth_method :: string
  cc_client_id :: "string option"

definition CLIENT_CONFIG_ERROR :: exn where
  "CLIENT_CONFIG_ERROR = PyException ''ClientConfigError''"

definition validate_config :: "ClientConfig \<Rightarrow> exn + unit" where
  "validate_config c =
     (if re_match url_regex (redirect_uri c) = None then Inl CLIENT_CONFIG_ERROR
      else if list_ex (\<lambda>g. g \<notin> set ALLOWED_GRANT_TYPES) (grant_types c) then Inl CLIENT_CONFIG_ERROR
      else if token_endpoint_auth_method c \<notin> set ALLOWED_CLIENT_AUTHN_METHODS then Inl CLIENT_CONFIG_ERROR
      else Inr ())"

definition config_to_dict :: "ClientConfig \<Rightarrow> (string, json) dict" where
  "config_to_dict c =
     [(''redirect_uri'', JStr (redirect_uri c)), (''scope'', JStr (cc_scope c)), (''grant_types'', JList (map JStr (grant_types c))),
      (''audience'', JList (map JStr (audience c))), (''token_endpoint_auth_method'', JStr (token_endpoint_auth_method c))] @
     (case cc_client_id c of None \<Rightarrow> [] | Some i \<Rightarrow> [(''client_id'', JStr i)])"

text \<open>The provider's configuration: the fields the class has, and the flag.\<close>

record OauthProviderConfig =
  opc_fields :: "(string, json) dict"
  opc_jwt_access_token :: bool

definition provider_config_from_dict :: "(string, json) dict \<Rightarrow> exn + OauthProviderConfig" where
  "provider_config_from_dict d =
     bindE (case map_of d ''jwt_access_token'' of None \<Rightarrow> Inr False | Some v \<Rightarrow> strtobool v) (\<lambda>jwt.
       let required = [''issuer_url'', ''authorization_endpoint'', ''token_endpoint'', ''introspection_endpoint'', ''userinfo_endpoint'',
                       ''jwks_endpoint'', ''scope''];
           known = required @ [''client_id'', ''client_secret'', ''groups'', ''ca_chain'']
       in if \<not> list_all (\<lambda>k. k \<in> set (keys d)) required then Inl TypeError
          else Inr \<lparr>opc_fields = filter (\<lambda>kv. fst kv \<in> set known) d, opc_jwt_access_token = jwt\<rparr>)"


section \<open>Relations\<close>

record oauth_relation =
  or_id :: int
  or_has_app :: bool
  or_requirer :: "(string, string) dict"
  or_provider :: "(string, string) dict"

datatype oauth_event =
    OAuthInfoChanged string string
  | InvalidClientConfig
  | OAuthInfoRemoved
  | Deferred
  | ClientCreated int "(string, json) dict"
  | ClientChanged int "(string, json) dict" json
  | ClientDeleted int

record oauth_model =
  om_leader :: bool
  om_relations :: "oauth_relation list"
  om_secrets :: "(string, (string, string) dict) dict"
  om_labels :: "(string, string) dict"
  om_events :: "oauth_event list"

type_synonym 'a oauth = "(oauth_model, 'a) prog"

definition emit_oauth :: "oauth_event \<Rightarrow> unit oauth" where
  "emit_oauth e = modM (\<lambda>s. s\<lparr>om_events := om_events s @ [e]\<rparr>)"

text \<open>\<^verbatim>\<open>get_relation\<close>: without an id there must be at most one.\<close>

definition oauth_get_relation :: "int option \<Rightarrow> oauth_model \<Rightarrow> exn + oauth_relation option" where
  "oauth_get_relation i s =
     (case i of
        Some n \<Rightarrow> Inr (find (\<lambda>r. or_id r = n) (om_relations s))
      | None \<Rightarrow> (case om_relations s of [] \<Rightarrow> Inr None | [r] \<Rightarrow> Inr (Some r) | _ \<Rightarrow> Inl (PyException ''RuntimeError'')))"

definition with_app :: "oauth_relation option \<Rightarrow> oauth_relation option" where
  "with_app r = (case r of None \<Rightarrow> None | Some x \<Rightarrow> if or_has_app x then Some x else None)"

definition change_oauth_relation :: "int \<Rightarrow> (oauth_relation \<Rightarrow> oauth_relation) \<Rightarrow> oauth_model \<Rightarrow> oauth_model" where
  "change_oauth_relation i f s = s\<lparr>om_relations := map (\<lambda>r. if or_id r = i then f r else r) (om_relations s)\<rparr>"

text \<open>\<^verbatim>\<open>update\<close> of a databag: an empty text removes the field.\<close>

definition bag_update :: "(string, string) dict \<Rightarrow> (string, string) dict \<Rightarrow> (string, string) dict" where
  "bag_update b ts = foldl (\<lambda>d (k, v). if v = [] then ddel k d else dset k v d) b ts"

text \<open>Clearing the data of one's own side.\<close>

definition pop_relation_data :: "(oauth_relation \<Rightarrow> oauth_relation) \<Rightarrow> int \<Rightarrow> unit oauth" where
  "pop_relation_data clear i =
     bindM (readM (\<lambda>s. (om_leader s, find (\<lambda>r. or_id r = i) (om_relations s)))) (\<lambda>(leads, found).
       if \<not> leads then skip
       else case with_app found of None \<Rightarrow> skip | Some r \<Rightarrow> modM (change_oauth_relation i clear))"


section \<open>The requirer\<close>

definition update_oauth_data :: "validator \<Rightarrow> ClientConfig option \<Rightarrow> int option \<Rightarrow> unit oauth" where
  "update_oauth_data validator config i =
     bindM (readM om_leader) (\<lambda>leads.
       case config of
         None \<Rightarrow> skip
       | Some c \<Rightarrow>
           if \<not> leads then skip
           else bindM (liftE (validate_config c)) (\<lambda>_.
                bindM (\<lambda>s. (oauth_get_relation i s, s)) (\<lambda>found.
                  case with_app found of
                    None \<Rightarrow> skip
                  | Some r \<Rightarrow>
                      bindM (liftE (dump_data validator (config_to_dict c) (Some OAUTH_REQUIRER_JSON_SCHEMA))) (\<lambda>data.
                        modM (change_oauth_relation (or_id r) (\<lambda>r. r\<lparr>or_requirer := bag_update (or_requirer r) data\<rparr>))))))"

definition is_config_error :: "exn \<Rightarrow> bool" where
  "is_config_error e \<longleftrightarrow> e = CLIENT_CONFIG_ERROR"

definition on_oauth_created :: "validator \<Rightarrow> ClientConfig option \<Rightarrow> int \<Rightarrow> unit oauth" where
  "on_oauth_created validator config i =
     tryM (update_oauth_data validator config (Some i)) is_config_error (\<lambda>_. emit_oauth InvalidClientConfig)"

definition is_client_created :: "int option \<Rightarrow> oauth_model \<Rightarrow> exn + bool" where
  "is_client_created i s =
     bindE (oauth_get_relation i s) (\<lambda>found.
       case with_app found of
         None \<Rightarrow> Inr False
       | Some r \<Rightarrow> Inr (''client_id'' \<in> set (keys (or_provider r)) \<and> ''client_secret_id'' \<in> set (keys (or_provider r))))"

definition on_oauth_broken :: "int \<Rightarrow> unit oauth" where
  "on_oauth_broken i =
     thenM (pop_relation_data (\<lambda>r. r\<lparr>or_requirer := []\<rparr>) i)
       (bindM (\<lambda>s. (is_client_created None s, s)) (\<lambda>there.
          emit_oauth (if there then Deferred else OAuthInfoRemoved)))"

definition text_of_json :: "json option \<Rightarrow> string" where
  "text_of_json j = (case j of Some (JStr s) \<Rightarrow> s | _ \<Rightarrow> [])"

definition on_oauth_changed :: "validator \<Rightarrow> int \<Rightarrow> unit oauth" where
  "on_oauth_changed validator i =
     bindM (readM (\<lambda>s. find (\<lambda>r. or_id r = i) (om_relations s))) (\<lambda>found.
       case found of
         None \<Rightarrow> raise KeyError
       | Some r \<Rightarrow>
           if or_provider r = [] then skip
           else bindM (liftE (load_data validator (or_provider r) OAUTH_PROVIDER_JSON_SCHEMA)) (\<lambda>data.
                let client_id = text_of_json (map_of data ''client_id''); secret_id = text_of_json (map_of data ''client_secret_id'')
                in if client_id = [] \<or> secret_id = [] then skip else emit_oauth (OAuthInfoChanged client_id secret_id)))"

definition get_provider_info :: "validator \<Rightarrow> int option \<Rightarrow> oauth_model \<Rightarrow> exn + OauthProviderConfig option" where
  "get_provider_info validator i s =
     bindE (oauth_get_relation i s) (\<lambda>found.
       case with_app found of
         None \<Rightarrow> Inr None
       | Some r \<Rightarrow>
           if or_provider r = [] then Inr None
           else bindE (load_data validator (or_provider r) OAUTH_PROVIDER_JSON_SCHEMA) (\<lambda>data.
                let secret_id = text_of_json (map_of data ''client_secret_id'')
                in bindE (if secret_id = [] then Inr data
                          else case map_of (om_secrets s) secret_id of
                                 None \<Rightarrow> Inl (PyException ''SecretNotFoundError'')
                               | Some content \<Rightarrow>
                                   (case map_of content CLIENT_SECRET_FIELD of
                                      None \<Rightarrow> Inl KeyError
                                    | Some secret \<Rightarrow> Inr (dset ''client_secret'' (JStr secret) data))) (\<lambda>data.
                   bindE (provider_config_from_dict data) (\<lambda>c. Inr (Some c)))))"


section \<open>The provider\<close>

definition oauth_secret_label :: "int \<Rightarrow> string" where
  "oauth_secret_label i = ''client_secret_'' @ str_int i"

definition client_config_event :: "validator \<Rightarrow> int \<Rightarrow> unit oauth" where
  "client_config_event validator i =
     bindM (readM (\<lambda>s. (om_leader s, find (\<lambda>r. or_id r = i) (om_relations s)))) (\<lambda>(leads, found).
       if \<not> leads then skip
       else case found of
              None \<Rightarrow> raise KeyError
            | Some r \<Rightarrow>
                if or_requirer r = [] then skip
                else bindM (liftE (load_data validator (or_requirer r) OAUTH_REQUIRER_JSON_SCHEMA)) (\<lambda>client_data.
                     if or_provider r = [] then skip
                     else bindM (liftE (load_data validator (or_provider r) OAUTH_PROVIDER_JSON_SCHEMA)) (\<lambda>provider_data.
                          case map_of provider_data ''client_id'' of
                            None \<Rightarrow> emit_oauth (ClientCreated i client_data)
                          | Some c \<Rightarrow> emit_oauth (if json_true c then ClientChanged i client_data c else ClientCreated i client_data))))"

definition create_juju_secret :: "(oauth_model \<Rightarrow> string) \<Rightarrow> string \<Rightarrow> int \<Rightarrow> string oauth" where
  "create_juju_secret new_id client_secret i =
     bindM (readM (\<lambda>s. (new_id s, oauth_secret_label i \<in> set (keys (om_labels s))))) (\<lambda>(n, taken).
       if taken then raise (PyException ''ModelError'')
       else thenM (modM (\<lambda>s. s\<lparr>om_secrets := dset n [(CLIENT_SECRET_FIELD, client_secret)] (om_secrets s),
                               om_labels := dset (oauth_secret_label i) n (om_labels s)\<rparr>))
              (ret n))"

definition delete_juju_secret :: "int \<Rightarrow> unit oauth" where
  "delete_juju_secret i =
     bindM (readM (\<lambda>s. map_of (om_labels s) (oauth_secret_label i))) (\<lambda>found.
       case found of
         None \<Rightarrow> raise (PyException ''SecretNotFoundError'')
       | Some n \<Rightarrow> modM (\<lambda>s. s\<lparr>om_secrets := ddel n (om_secrets s), om_labels := ddel (oauth_secret_label i) (om_labels s)\<rparr>))"

definition on_provider_broken :: "int \<Rightarrow> unit oauth" where
  "on_provider_broken i =
     thenM (pop_relation_data (\<lambda>r. r\<lparr>or_provider := []\<rparr>) i)
       (thenM (delete_juju_secret i) (emit_oauth (ClientDeleted i)))"

record provider_info =
  pi_issuer_url :: string
  pi_authorization_endpoint :: string
  pi_token_endpoint :: string
  pi_introspection_endpoint :: string
  pi_userinfo_endpoint :: string
  pi_jwks_endpoint :: string
  pi_scope :: string
  pi_groups :: "string option"
  pi_ca_chain :: "string list option"
  pi_jwt_access_token :: bool

definition optional_entry :: "string \<Rightarrow> ('a list \<Rightarrow> json) \<Rightarrow> 'a list option \<Rightarrow> (string, json) dict" where
  "optional_entry k f v = (case v of None \<Rightarrow> [] | Some x \<Rightarrow> if x = [] then [] else [(k, f x)])"

definition provider_info_dict :: "provider_info \<Rightarrow> (string, json) dict" where
  "provider_info_dict p =
     [(''issuer_url'', JStr (pi_issuer_url p)), (''authorization_endpoint'', JStr (pi_authorization_endpoint p)),
      (''token_endpoint'', JStr (pi_token_endpoint p)), (''introspection_endpoint'', JStr (pi_introspection_endpoint p)),
      (''userinfo_endpoint'', JStr (pi_userinfo_endpoint p)), (''jwks_endpoint'', JStr (pi_jwks_endpoint p)), (''scope'', JStr (pi_scope p)),
      (''jwt_access_token'', JBool (pi_jwt_access_token p))] @
     optional_entry ''groups'' JStr (pi_groups p) @ optional_entry ''ca_chain'' (\<lambda>cs. JList (map JStr cs)) (pi_ca_chain p)"

definition set_provider_info :: "validator \<Rightarrow> provider_info \<Rightarrow> unit oauth" where
  "set_provider_info validator p =
     bindM (readM om_leader) (\<lambda>leads.
       if \<not> leads then skip
       else bindM (liftE (dump_data validator (provider_info_dict p) None)) (\<lambda>data.
            modM (\<lambda>s. s\<lparr>om_relations := map (\<lambda>r. r\<lparr>or_provider := bag_update (or_provider r) data\<rparr>) (om_relations s)\<rparr>)))"

definition set_client_credentials :: "validator \<Rightarrow> (oauth_model \<Rightarrow> string) \<Rightarrow> int \<Rightarrow> string \<Rightarrow> string \<Rightarrow> unit oauth" where
  "set_client_credentials validator new_id i client_id client_secret =
     bindM (readM (\<lambda>s. (om_leader s, find (\<lambda>r. or_id r = i) (om_relations s)))) (\<lambda>(leads, found).
       if \<not> leads then skip
       else case with_app found of
              None \<Rightarrow> skip
            | Some r \<Rightarrow>
                bindM (create_juju_secret new_id client_secret i) (\<lambda>n.
                bindM (liftE (dump_data validator [(''client_id'', JStr client_id), (''client_secret_id'', JStr n)] None)) (\<lambda>data.
                  modM (change_oauth_relation i (\<lambda>r. r\<lparr>or_provider := bag_update (or_provider r) data\<rparr>)))))"


section \<open>Properties\<close>

text \<open>What is relied on of \<^verbatim>\<open>jsonschema\<close>: the required fields are there and the fields that a schema names have their types.\<close>

fun type_ok :: "field_type \<Rightarrow> json \<Rightarrow> bool" where
  "type_ok AString (JStr s) = True"
| "type_ok (AStringOf es) (JStr s) = (s \<in> set es)"
| "type_ok Strings (JList xs) = list_all (\<lambda>x. case x of JStr _ \<Rightarrow> True | _ \<Rightarrow> False) xs"
| "type_ok (StringsOf es) (JList xs) = list_all (\<lambda>x. case x of JStr s \<Rightarrow> s \<in> set es | _ \<Rightarrow> False) xs"
| "type_ok _ _ = False"

definition schema_ok :: validator where
  "schema_ok sc d \<longleftrightarrow>
     list_all (\<lambda>k. k \<in> set (keys d)) (sc_required sc) \<and>
     list_all (\<lambda>(k, v). case map_of (sc_properties sc) k of None \<Rightarrow> True | Some t \<Rightarrow> type_ok t v) d"

text \<open>Texts that the other side reads as they are: those that are no JSON.\<close>

definition plain_text :: "string \<Rightarrow> bool" where
  "plain_text s \<longleftrightarrow> s \<noteq> [] \<and> (\<exists>e. loads s = Inl e)"

fun survives :: "json \<Rightarrow> bool" where
  "survives (JStr s) = plain_text s"
| "survives (JBool b) = True"
| "survives (JList xs) = wf_json (JList xs)"
| "survives _ = False"

fun read_as :: "json \<Rightarrow> json" where
  "read_as (JBool b) = JStr (if b then ''True'' else ''False'')"
| "read_as j = j"

definition decode_text :: "string \<Rightarrow> json" where
  "decode_text v = (case loads v of Inr j \<Rightarrow> j | Inl _ \<Rightarrow> JStr v)"

lemma python_bools: "loads ''True'' = Inl ValueError" "loads ''False'' = Inl ValueError"
  by code_simp+

lemma dump_survives:
  assumes "survives v"
  obtains t where "dump_value v = Inr t" "t \<noteq> []" "decode_text t = read_as v"
proof (cases v)
  case (JList xs)
  moreover have "dumps (JList xs) \<noteq> []" by simp
  ultimately show ?thesis using that [of "dumps (JList xs)"] assms loads_dumps [of "JList xs"] by (simp add: decode_text_def)
qed (use assms that python_bools in \<open>auto simp: decode_text_def plain_text_def\<close>)

lemma dump_data_run:
  assumes "\<forall>kv \<in> set d. survives (snd kv)"
  shows "\<exists>ts. dump_data validator d None = Inr ts \<and> map fst ts = map fst d \<and> (\<forall>kt \<in> set ts. snd kt \<noteq> []) \<and>
    map (\<lambda>(k, t). (k, decode_text t)) ts = map (\<lambda>(k, v). (k, read_as v)) d"
  using assms
proof (induction d)
  case (Cons kv d)
  obtain k v where kv: "kv = (k, v)" by fastforce
  obtain t where t: "dump_value v = Inr t" "t \<noteq> []" "decode_text t = read_as v" using dump_survives Cons.prems kv by auto
  from Cons obtain ts where ts: "dump_data validator d None = Inr ts" "map fst ts = map fst d" "\<forall>kt \<in> set ts. snd kt \<noteq> []"
    "map (\<lambda>(k, t). (k, decode_text t)) ts = map (\<lambda>(k, v). (k, read_as v)) d" by auto
  show ?case by (rule exI [of _ "(k, t) # ts"]) (use t ts kv in \<open>simp add: dump_data_def\<close>)
qed (simp add: dump_data_def)

lemma bag_update_fresh:
  assumes "distinct (map fst (b @ ts))" and "\<forall>kt \<in> set ts. snd kt \<noteq> []"
  shows "bag_update b ts = b @ ts"
  using assms
proof (induction ts arbitrary: b)
  case (Cons kt ts)
  obtain k t where kt: "kt = (k, t)" by fastforce
  have "dset k t b = b @ [(k, t)]" using Cons.prems(1) kt by (induction b) (auto simp: dset_def)
  then have "bag_update b (kt # ts) = bag_update (b @ [(k, t)]) ts" using Cons.prems(2) kt by (simp add: bag_update_def)
  with Cons kt show ?case by simp
qed (simp add: bag_update_def)

definition plain_info :: "provider_info \<Rightarrow> bool" where
  "plain_info p \<longleftrightarrow>
     list_all plain_text
       [pi_issuer_url p, pi_authorization_endpoint p, pi_token_endpoint p, pi_introspection_endpoint p, pi_userinfo_endpoint p,
        pi_jwks_endpoint p, pi_scope p] \<and>
     (\<forall>g \<in> set_option (pi_groups p). g = [] \<or> plain_text g)"

lemma optional_entry_cases:
  obtains "optional_entry k f v = []" | x where "v = Some x" "x \<noteq> []" "optional_entry k f v = [(k, f x)]"
proof (cases "v = None \<or> v = Some []")
  case True
  then show ?thesis by (intro that(1)) (auto simp: optional_entry_def)
next
  case False
  then obtain x where "v = Some x" "x \<noteq> []" by auto
  then show ?thesis by (intro that(2)) (simp_all add: optional_entry_def)
qed

lemma plain_info_survives: "plain_info p \<Longrightarrow> \<forall>kv \<in> set (provider_info_dict p). survives (snd kv)"
  by (auto simp: plain_info_def provider_info_dict_def optional_entry_def list_all_iff split: option.splits)

lemma info_keys: "distinct (map fst (provider_info_dict p @ [(''client_id'', a), (''client_secret_id'', b)]))"
  by (rule optional_entry_cases [of "''groups''" JStr "pi_groups p"];
      rule optional_entry_cases [of "''ca_chain''" "\<lambda>cs. JList (map JStr cs)" "pi_ca_chain p"])
    (simp_all add: provider_info_dict_def)

definition published :: "provider_info \<Rightarrow> string \<Rightarrow> string \<Rightarrow> (string, json) dict" where
  "published p client_id secret_id =
     map (\<lambda>(k, v). (k, read_as v)) (provider_info_dict p @ [(''client_id'', JStr client_id), (''client_secret_id'', JStr secret_id)])"

lemma published_ok: "schema_ok OAUTH_PROVIDER_JSON_SCHEMA (published p client_id secret_id)"
  by (rule optional_entry_cases [of "''groups''" JStr "pi_groups p"];
      rule optional_entry_cases [of "''ca_chain''" "\<lambda>cs. JList (map JStr cs)" "pi_ca_chain p"])
    (simp_all add: schema_ok_def OAUTH_PROVIDER_JSON_SCHEMA_def published_def provider_info_dict_def keys_def list_all_iff)

lemma published_ids:
  "map_of (published p c n) ''client_id'' = Some (JStr c) \<and> map_of (published p c n) ''client_secret_id'' = Some (JStr n)"
  by (rule optional_entry_cases [of "''groups''" JStr "pi_groups p"];
      rule optional_entry_cases [of "''ca_chain''" "\<lambda>cs. JList (map JStr cs)" "pi_ca_chain p"])
    (simp_all add: published_def provider_info_dict_def)

lemma strtobool_python: "strtobool (JStr (if b then ''True'' else ''False'')) = Inr b"
proof -
  have "strtobool (JStr ''True'') = Inr True" "strtobool (JStr ''False'') = Inr False" by code_simp+
  then show ?thesis by simp
qed

lemma published_config:
  "\<exists>c. provider_config_from_dict (dset ''client_secret'' (JStr client_secret) (published p client_id n)) = Inr c \<and>
      opc_jwt_access_token c = pi_jwt_access_token p \<and>
      (\<forall>k. k \<noteq> ''jwt_access_token'' \<longrightarrow> k \<in> set (keys (provider_info_dict p)) \<longrightarrow> map_of (opc_fields c) k = map_of (provider_info_dict p) k) \<and>
      map_of (opc_fields c) ''client_id'' = Some (JStr client_id) \<and> map_of (opc_fields c) ''client_secret'' = Some (JStr client_secret)"
  by (rule optional_entry_cases [of "''groups''" JStr "pi_groups p"];
      rule optional_entry_cases [of "''ca_chain''" "\<lambda>cs. JList (map JStr cs)" "pi_ca_chain p"])
    (simp_all add: published_def provider_info_dict_def provider_config_from_dict_def dset_def keys_def strtobool_python)

lemma find_mapped: "(\<And>r. or_id (f r) = or_id r) \<Longrightarrow> find (\<lambda>r. or_id r = i) (map f rs) = map_option f (find (\<lambda>r. or_id r = i) rs)"
  by (induction rs) auto

lemma provider_publishes:
  assumes "om_leader s" and "find (\<lambda>r. or_id r = i) (om_relations s) = Some r" and "or_has_app r" and "or_provider r = []"
    and "oauth_secret_label i \<notin> set (keys (om_labels s))" and "plain_info p" and "plain_text client_id" and "\<And>s. plain_text (new_id s)"
  obtains s' r' n where
    "thenM (set_provider_info validator p) (set_client_credentials validator new_id i client_id client_secret) s = (Inr (), s')"
    "find (\<lambda>r. or_id r = i) (om_relations s') = Some r'" "or_has_app r'" "or_provider r' \<noteq> []" "n \<noteq> []"
    "map (\<lambda>(k, t). (k, decode_text t)) (or_provider r') = published p client_id n"
    "map_of (om_secrets s') n = Some [(CLIENT_SECRET_FIELD, client_secret)]"
proof -
  obtain ts where ts: "dump_data validator (provider_info_dict p) None = Inr ts" "map fst ts = map fst (provider_info_dict p)"
    "\<forall>kt \<in> set ts. snd kt \<noteq> []" "map (\<lambda>(k, t). (k, decode_text t)) ts = map (\<lambda>(k, v). (k, read_as v)) (provider_info_dict p)"
    using dump_data_run [OF plain_info_survives [OF assms(6)]] by blast
  define s1 where "s1 = s\<lparr>om_relations := map (\<lambda>r. r\<lparr>or_provider := bag_update (or_provider r) ts\<rparr>) (om_relations s)\<rparr>"
  have one: "set_provider_info validator p s = (Inr (), s1)"
    using assms(1) ts(1) by (simp add: set_provider_info_def bindM_apply s1_def)
  define n where "n = new_id s1"
  have n: "n \<noteq> []" "plain_text n" using assms(8) [of s1] by (simp_all add: n_def plain_text_def)
  let ?cred = "[(''client_id'', JStr client_id), (''client_secret_id'', JStr n)]"
  obtain ts2 where ts2: "dump_data validator ?cred None = Inr ts2" "map fst ts2 = map fst ?cred" "\<forall>kt \<in> set ts2. snd kt \<noteq> []"
    "map (\<lambda>(k, t). (k, decode_text t)) ts2 = map (\<lambda>(k, v). (k, read_as v)) ?cred"
    using dump_data_run [of ?cred validator] assms(7) n(2) by auto
  have keys: "distinct (map fst (ts @ ts2))" using info_keys [of p "JStr client_id" "JStr n"] ts(2) ts2(2) by simp
  then have bag1: "bag_update [] ts = ts" using bag_update_fresh [of "[]" ts] ts(3) by simp
  have bag2: "bag_update ts ts2 = ts @ ts2" by (rule bag_update_fresh [OF keys ts2(3)])
  let ?r1 = "r\<lparr>or_provider := ts\<rparr>"
  have found1: "find (\<lambda>r. or_id r = i) (om_relations s1) = Some ?r1"
    using find_mapped [of "\<lambda>r. r\<lparr>or_provider := bag_update (or_provider r) ts\<rparr>" i "om_relations s"] assms(2,4) bag1 by (simp add: s1_def)
  let ?s2 = "s1\<lparr>om_secrets := dset n [(CLIENT_SECRET_FIELD, client_secret)] (om_secrets s1), om_labels := dset (oauth_secret_label i) n (om_labels s1)\<rparr>"
  let ?f = "\<lambda>r. r\<lparr>or_provider := bag_update (or_provider r) ts2\<rparr>"
  have two: "set_client_credentials validator new_id i client_id client_secret s1 = (Inr (), change_oauth_relation i ?f ?s2)"
    using assms(1,3,5) found1 ts2(1)
    by (simp add: set_client_credentials_def create_juju_secret_def bindM_apply thenM_apply with_app_def ret_def s1_def n_def)
  have "or_id r = i" using assms(2) by (auto simp: find_Some_iff)
  then have found2: "find (\<lambda>r. or_id r = i) (om_relations (change_oauth_relation i ?f ?s2)) = Some (r\<lparr>or_provider := ts @ ts2\<rparr>)"
    using find_mapped [of "\<lambda>r. if or_id r = i then ?f r else r" i "om_relations s1"] found1 bag2 by (simp add: change_oauth_relation_def)
  have "map (\<lambda>(k, t). (k, decode_text t)) (ts @ ts2) = published p client_id n" using ts(4) ts2(4) by (simp add: published_def)
  moreover have "ts @ ts2 \<noteq> []" using ts2(2) by auto
  ultimately show ?thesis
    using one two found2 assms(3) n(1)
    by (intro that [of "change_oauth_relation i ?f ?s2" "r\<lparr>or_provider := ts @ ts2\<rparr>" n]) (simp_all add: thenM_apply change_oauth_relation_def)
qed

text \<open>C30: what an identity provider publishes for a new client arrives: the client reads every endpoint, the flag for access tokens, its
  id and its secret as they were given, and is told about them by an event.\<close>

theorem oauth_info_roundtrip:
  assumes "om_leader s" and "find (\<lambda>r. or_id r = i) (om_relations s) = Some r" and "or_has_app r" and "or_provider r = []"
    and "oauth_secret_label i \<notin> set (keys (om_labels s))" and "plain_info p" and "plain_text client_id" and "\<And>s. plain_text (new_id s)"
    and "\<And>sc d. validator sc d = schema_ok sc d"
  shows "\<exists>s' c n.
    thenM (set_provider_info validator p) (set_client_credentials validator new_id i client_id client_secret) s = (Inr (), s') \<and>
    get_provider_info validator (Some i) s' = Inr (Some c) \<and> opc_jwt_access_token c = pi_jwt_access_token p \<and>
    (\<forall>k. k \<noteq> ''jwt_access_token'' \<longrightarrow> k \<in> set (keys (provider_info_dict p)) \<longrightarrow> map_of (opc_fields c) k = map_of (provider_info_dict p) k) \<and>
    map_of (opc_fields c) ''client_id'' = Some (JStr client_id) \<and> map_of (opc_fields c) ''client_secret'' = Some (JStr client_secret) \<and>
    on_oauth_changed validator i s' = (Inr (), s'\<lparr>om_events := om_events s' @ [OAuthInfoChanged client_id n]\<rparr>)"
proof -
  obtain s' r' n where s': "thenM (set_provider_info validator p) (set_client_credentials validator new_id i client_id client_secret) s = (Inr (), s')"
    "find (\<lambda>r. or_id r = i) (om_relations s') = Some r'" "or_has_app r'" "or_provider r' \<noteq> []" "n \<noteq> []"
    "map (\<lambda>(k, t). (k, decode_text t)) (or_provider r') = published p client_id n"
    "map_of (om_secrets s') n = Some [(CLIENT_SECRET_FIELD, client_secret)]"
    by (rule provider_publishes [OF assms(1-8)])
  let ?d = "published p client_id n"
  have load: "load_data validator (or_provider r') OAUTH_PROVIDER_JSON_SCHEMA = Inr ?d"
    using s'(6) published_ok assms(9) by (simp add: load_data_def validate_data_def decode_text_def)
  have ids: "map_of ?d ''client_id'' = Some (JStr client_id)" "map_of ?d ''client_secret_id'' = Some (JStr n)"
    using published_ids by simp_all
  have "client_id \<noteq> []" using assms(7) by (simp add: plain_text_def)
  then have "on_oauth_changed validator i s' = (Inr (), s'\<lparr>om_events := om_events s' @ [OAuthInfoChanged client_id n]\<rparr>)"
    using s'(2,4,5) load ids by (simp add: on_oauth_changed_def bindM_apply text_of_json_def emit_oauth_def)
  moreover have "\<exists>c. provider_config_from_dict (dset ''client_secret'' (JStr client_secret) ?d) = Inr c \<and>
      opc_jwt_access_token c = pi_jwt_access_token p \<and>
      (\<forall>k. k \<noteq> ''jwt_access_token'' \<longrightarrow> k \<in> set (keys (provider_info_dict p)) \<longrightarrow> map_of (opc_fields c) k = map_of (provider_info_dict p) k) \<and>
      map_of (opc_fields c) ''client_id'' = Some (JStr client_id) \<and> map_of (opc_fields c) ''client_secret'' = Some (JStr client_secret)"
    by (rule published_config)
  ultimately show ?thesis
    using s'(1-5,7) load ids by (fastforce simp: get_provider_info_def oauth_get_relation_def with_app_def text_of_json_def)
qed

definition sample_info :: provider_info where
  "sample_info =
     \<lparr>pi_issuer_url = ''https://idp'', pi_authorization_endpoint = ''https://idp/auth'', pi_token_endpoint = ''https://idp/token'',
      pi_introspection_endpoint = ''https://idp/intro'', pi_userinfo_endpoint = ''https://idp/user'', pi_jwks_endpoint = ''https://idp/jwks'',
      pi_scope = ''openid email'', pi_groups = None, pi_ca_chain = Some [''cert''], pi_jwt_access_token = True\<rparr>"

definition sample_oauth :: oauth_model where
  "sample_oauth =
     \<lparr>om_leader = True, om_relations = [\<lparr>or_id = 4, or_has_app = True, or_requirer = [], or_provider = []\<rparr>], om_secrets = [],
      om_labels = [], om_events = []\<rparr>"

lemma plain_samples:
  "plain_text ''https://idp''" "plain_text ''https://idp/auth''" "plain_text ''https://idp/token''" "plain_text ''https://idp/intro''"
  "plain_text ''https://idp/user''" "plain_text ''https://idp/jwks''" "plain_text ''openid email''" "plain_text ''client''" "plain_text ''secret:1''"
  unfolding plain_text_def by (intro conjI exI [of _ ValueError], simp, code_simp)+

theorem oauth_info_roundtrip_witness:
  "\<exists>s' c n. thenM (set_provider_info schema_ok sample_info) (set_client_credentials schema_ok (\<lambda>s. ''secret:1'') 4 ''client'' ''pw'') sample_oauth = (Inr (), s') \<and>
     get_provider_info schema_ok (Some 4) s' = Inr (Some c) \<and> map_of (opc_fields c) ''client_secret'' = Some (JStr ''pw'') \<and>
     on_oauth_changed schema_ok 4 s' = (Inr (), s'\<lparr>om_events := om_events s' @ [OAuthInfoChanged ''client'' n]\<rparr>)"
proof -
  have "plain_info sample_info" using plain_samples by (simp add: plain_info_def sample_info_def)
  moreover have "om_leader sample_oauth" "oauth_secret_label 4 \<notin> set (keys (om_labels sample_oauth))"
    "find (\<lambda>r. or_id r = 4) (om_relations sample_oauth) = Some \<lparr>or_id = 4, or_has_app = True, or_requirer = [], or_provider = []\<rparr>"
    by (simp_all add: sample_oauth_def keys_def)
  ultimately show ?thesis
    using oauth_info_roundtrip [of sample_oauth 4 "\<lparr>or_id = 4, or_has_app = True, or_requirer = [], or_provider = []\<rparr>" sample_info
        "''client''" "\<lambda>s. ''secret:1''" schema_ok "''pw''"] plain_samples(8,9) by fastforce
qed


section \<open>Corner cases\<close>

text \<open>Every text that starts with \<^verbatim>\<open>http://\<close> passes as a redirect URI: the rest of the pattern only belongs to \<^verbatim>\<open>https://\<close>.\<close>

lemma any_http_uri: "re_match url_regex (''http://'' @ t) \<noteq> None"
  by (simp add: re_match_def url_regex_def lit_ci_def Let_def)

text \<open>The configuration the charm registers with is valid.\<close>

definition kafka_client_config :: ClientConfig where
  "kafka_client_config =
     \<lparr>redirect_uri = ''https://kafka.local'', cc_scope = ''openid email'', grant_types = [''client_credentials''], audience = [],
      token_endpoint_auth_method = ''client_secret_basic'', cc_client_id = None\<rparr>"

lemma kafka_client_config_valid: "validate_config kafka_client_config = Inr ()"
  by code_simp

text \<open>A client id that reads as a number is decoded to one, and the data of the provider is refused.\<close>

lemma numeric_id_invalid: "(''client_id'', JInt n) \<in> set e \<Longrightarrow> \<not> schema_ok OAUTH_PROVIDER_JSON_SCHEMA e"
proof
  assume "(''client_id'', JInt n) \<in> set e" "schema_ok OAUTH_PROVIDER_JSON_SCHEMA e"
  then have "case map_of (sc_properties OAUTH_PROVIDER_JSON_SCHEMA) ''client_id'' of None \<Rightarrow> True | Some t \<Rightarrow> type_ok t (JInt n)"
    by (auto simp: schema_ok_def list_all_iff)
  then show False by (simp add: OAUTH_PROVIDER_JSON_SCHEMA_def)
qed

lemma numeric_client_id_refused:
  assumes "\<And>sc d. validator sc d = schema_ok sc d" and "loads client_id = Inr (JInt n)" and "(''client_id'', client_id) \<in> set d"
  shows "load_data validator d OAUTH_PROVIDER_JSON_SCHEMA = Inl DATA_VALIDATION_ERROR"
proof -
  have "(''client_id'', JInt n) \<in> set (map (\<lambda>(k, v). (k, case loads v of Inr j \<Rightarrow> j | Inl _ \<Rightarrow> JStr v)) d)"
    using assms(2,3) by force
  then have "\<not> schema_ok OAUTH_PROVIDER_JSON_SCHEMA (map (\<lambda>(k, v). (k, case loads v of Inr j \<Rightarrow> j | Inl _ \<Rightarrow> JStr v)) d)"
    by (rule numeric_id_invalid)
  then show ?thesis using assms(1) by (simp add: load_data_def validate_data_def)
qed

end
