(* ===== verification/Spec2Isabelle.thy ===== *)
theory Spec2Isabelle
  imports Structured_Config Rolling_Refinement K8s_Manager Models Cluster_State Workload Deployment Responses Certificate_Provider Certificate_Transfer Health OAuth_Interface
begin

text \<open>
  A verification library for the Charmed Apache Kafka K8s operator, the charm under \<^verbatim>\<open>src/src\<close> with
  the libraries under \<^verbatim>\<open>src/lib\<close> that hold part of its logic.

  \<^bold>\<open>The program.\<close> Every unit of a Juju application runs the charm once per event (a hook). A hook
  reads the configuration and the data that units and applications exchange over relations,
  runs commands in the workload container, writes files and databags, starts and stops services,
  and may put an event off (\<^verbatim>\<open>defer\<close>). Only the leader may write the data of its application.
  Brokers, controllers and the balancer are roles that one application combines or that several
  related applications share.

  \<^bold>\<open>How it is modelled.\<close> A hook is a program of type \<open>'a hook\<close>, a function from the state of the unit
  (record \<open>world\<close>) to an exception or a result and the next state (\<open>Kafka_Prelude\<close>, \<open>World\<close>).
  Exceptions are values of \<open>exn\<close>; \<open>bindM\<close>, \<open>tryM\<close> and \<open>forM\<close> are sequencing, \<^verbatim>\<open>try\<close> and \<^verbatim>\<open>for\<close>. Every
  effect outside the state is an entry of the trace \<open>actions\<close>. What the charm does not contain is a
  parameter: \<open>env\<close> holds the answers of commands, sockets, Kubernetes, random passwords and
  secrets, \<open>crypto\<close> the certificate library, \<open>outside\<close> both of them with Cruise Control's HTTP
  answers and the compiler of regular expressions. Python strings are \<open>string\<close>, integers
  \<open>int\<close>, dictionaries association lists in insertion order (\<open>dict\<close>), sets duplicate-free lists
  where an order is observable.

  \<^bold>\<open>Theories\<close>, with the files they translate.
  \<^item> \<open>Kafka_Prelude\<close>: strings (\<^verbatim>\<open>split\<close>, \<^verbatim>\<open>strip\<close>, \<^verbatim>\<open>int\<close>, \<^verbatim>\<open>str\<close>), dictionaries, errors, the program
    combinators and the \<open>keeps\<close> calculus: \<open>keeps I m\<close> says that \<open>m\<close> preserves \<open>I\<close>, also when it raises.
  \<^item> \<open>Literals\<close> (\<^verbatim>\<open>literals.py\<close>), \<open>Structured_Config\<close> (\<^verbatim>\<open>core/structured_config.py\<close>): constants, and which
    configurations the validators accept, at 64-bit width for the long options.
  \<^item> \<open>Json\<close>: the values, the printer and the parser that the databags rely on, with the round trip.
  \<^item> \<open>Databag\<close> (\<^verbatim>\<open>data_interfaces.py\<close>, \<^verbatim>\<open>RelationState\<close>): fields in databags and secrets. The locale
    \<open>field_store\<close> is the contract of one databag, interpreted for unit and application data.
  \<^item> \<open>World\<close>, \<open>Models\<close> (\<^verbatim>\<open>core/models.py\<close>), \<open>Cluster_State\<close> (\<^verbatim>\<open>core/cluster.py\<close>): state and everything
    computed from it, up to \<open>ready_to_start\<close>.
  \<^item> \<open>Workload\<close> (\<^verbatim>\<open>core/workload.py\<close>, \<^verbatim>\<open>workload.py\<close>): files, commands, services, health check.
  \<^item> \<open>Auth_Manager\<close>, \<open>Config_Manager\<close>, \<open>Controller_Manager\<close>, \<open>Tls_Manager\<close>, \<open>Balancer_Manager\<close>,
    \<open>K8s_Manager\<close> (\<^verbatim>\<open>managers/\<close>): the commands each manager runs and the outputs it parses.
  \<^item> \<open>Regex\<close>, \<open>Principal_Mapper\<close> (\<^verbatim>\<open>managers/ssl_principal_mapper.py\<close>): Python's backtracking matcher, with
    its equivalence to the relation a pattern denotes, and the rules that name the principals of
    client certificates.
  \<^item> \<open>Operator_Base\<close>, \<open>Tls_Events\<close>, \<open>Controller_Events\<close>, \<open>Provider_Events\<close>, \<open>Balancer_Events\<close>,
    \<open>Broker_Events\<close>, \<open>Peer_Cluster_Events\<close> (\<^verbatim>\<open>events/\<close>), \<open>Charm\<close> (\<^verbatim>\<open>charm.py\<close>, \<^verbatim>\<open>events/refresh.py\<close>): every
    handler, the table of observers, events emitted inside handlers, and \<open>run_hook\<close>, which is
    what a unit does for one event.
  \<^item> \<open>Rolling_Ops\<close> (\<^verbatim>\<open>rollingops.py\<close>): the locks of all units, and a step relation whose steps are the
    hooks of single units in any order. \<open>Rolling_Refinement\<close> states the mutex they implement and proves the
    simulation, through the locale \<open>simulation\<close>.
  \<^item> \<open>Hook_Invariants\<close>: the locale \<open>hook_invariant\<close> states what an invariant has to allow (writes of
    the unit's own data, leader-only writes of application data, guarded starts); inside it every
    program of the charm is shown to keep the invariant, up to \<open>run_hook\<close>. Its parameters say whether
    the invariant allows Kafka to start and the cluster to get its id. Five interpretations give
    the properties that hold of every hook.
  \<^item> \<open>Deployment\<close>: all units of the application with the databag they share. A step is a hook of
    one unit (a raised exception undoes its writes to the databags, as Juju does), an election, a unit
    that joins or leaves, or a change of what the unit does not own.
  \<^item> \<open>Data_Interfaces\<close>, \<open>Responses\<close> (\<^verbatim>\<open>data_platform_libs/v1/data_interfaces.py\<close>, \<^verbatim>\<open>RelationStateV1\<close> of \<^verbatim>\<open>core/models.py\<close>):
    the library behind the client provider. The first has the repository of a relation, the difference between
    the requests of a client and those handled before, and the events for it; the second the responses with
    their secrets, for both versions of the data contract. \<open>Provider_Events\<close> records the responses it gives
    to this library as actions.
  \<^item> \<open>Certificate_Requests\<close> (\<^verbatim>\<open>tls_certificates_interface/v4/tls_certificates.py\<close>): the requirer of certificates that the
    TLS handlers drive: its key, its requests in the databag, the certificates it finds for them.
    \<open>Certificate_Provider\<close> is the other side, the locale \<open>certificate_source\<close> what the requirer relies on, interpreted
    on the provider's operations.
  \<^item> \<open>Certificate_Transfer\<close> (\<^verbatim>\<open>certificate_transfer_interface/v1/certificate_transfer.py\<close>): sets of certificates handed to
    another application, both sides.
  \<^item> \<open>OAuth_Interface\<close> (\<^verbatim>\<open>hydra/v0/oauth.py\<close>): the registration with an identity provider, both sides.
  \<^item> \<open>Doubles\<close>, \<open>Health\<close> (\<^verbatim>\<open>health.py\<close>): rounding to floating point numbers, and the checks of a machine's settings that use
    them.

  \<^bold>\<open>What is shown.\<close> Over all hooks: well-formed databags and an unchanged environment, followers never
  write application data, followers do not start Kafka without a cluster id. Over all
  interleavings of units: the id of the cluster is permanent, secrets stay out of plain databags,
  every change of application data is a leader's hook that ended normally; at most one holds the restart lock, restarts exclude one another when
  nothing is deferred, the hooks refine a mutex, and a free lock is granted. Per component: databag contracts, readiness
  as a conjunction of facts, distinct listeners, settled configuration files, access rules that
  reach the requested ones, round trips of the parsed command outputs, exact acceptance of
  options, the set-up of a cluster by its leader, and the creation of a client with its error
  path. Of the libraries: a client's request is announced by one event and not again, the response
  to it reaches the client with its credentials in a secret, one run of the certificate requirer leaves the wanted
  requests and further runs change nothing, the certificates a provider sets reach the requirers of their requests, it never
  offers two for one request and cleans up exactly those nobody asks for, and transferred certificates are read as they were written, as are the endpoints and credentials of an identity provider. The
  thresholds of the machine checks are exact in spite of rounding. Some theorems pin down behaviour that
  differs from what the code means to do: an unknown restart callback, rules for topic prefixes,
  ambiguous fingerprints, attributes of certificates that no request can express.

  \<^bold>\<open>Bounds.\<close> Events emitted inside handlers nest; Python bounds the nesting with its recursion limit,
  \<open>run_hook\<close> with the parameter \<open>depth\<close>, beyond which it raises \<open>RecursionError\<close>. The theorems on hooks hold
  for every depth. Loops that wait for Cruise Control take the bound on looks from the code's
  retry decorators or are stated for the look at which the task ends; everything else terminates
  structurally or with a measure.

  \<^bold>\<open>Not modelled.\<close> Certificates are opaque strings; the packages \<^verbatim>\<open>cryptography\<close>, \<^verbatim>\<open>pydantic\<close> and \<^verbatim>\<open>jsonschema\<close>, Juju's
  assignment of secret ids and hashes are parameters. Left out of the libraries: the requirer classes of both versions
  of \<^verbatim>\<open>data_interfaces.py\<close>, the generation of authorities and certificates in \<^verbatim>\<open>tls_certificates.py\<close> and its version 3, which the charm does not
  use; metrics, dashboards, log forwarding, snaps and kernel settings, which talk to services outside the
  repository. Logging and the text of the logging and exporter configuration files are pure output. The
  refresh library is a record of its answers. Time does not pass; \<^verbatim>\<open>sleep\<close> is skipped.
\<close>

end
